(* ===== verification/Eos_Prelude.thy ===== *)
theory Eos_Prelude
  imports Complex_Main "HOL-Library.Word"
begin

text \<open>
  Shared layer of the development: the error type of a contract action and its result
  type, the guards \<open>check\<close> and \<open>ebind\<close> every operation is written with, and the
  machine integers of the contracts as integers with the wrap-around written out.

  A failed guard aborts the whole transaction on chain, so an operation returns either an
  error or the new state; nothing of a failed operation survives.
\<close>

section \<open>Errors and results\<close>

datatype error =
    Check string              \<comment> \<open>\<open>check( c, msg )\<close> of the contract's own code\<close>
  | MissingAuthority          \<comment> \<open>\<open>require_auth\<close> failed\<close>
  | DuplicateKey              \<comment> \<open>\<open>emplace\<close> of a primary key that exists\<close>
  | MissingRow                \<comment> \<open>\<open>modify\<close>, \<open>erase\<close> or a dereference of \<open>end()\<close>\<close>
  | LibraryAssert             \<comment> \<open>an assertion inside eosiolib (asset arithmetic)\<close>
  | DivideByZero              \<comment> \<open>integer division by zero\<close>
  | ConversionTrap            \<comment> \<open>float to integer conversion out of range\<close>
  | HostError                 \<comment> \<open>an intrinsic of the chain refused the call\<close>
  | OutOfFuel                 \<comment> \<open>the bound of a recursive call was reached\<close>

type_synonym 'a res = "error + 'a"

definition check :: "bool \<Rightarrow> string \<Rightarrow> 'a res \<Rightarrow> 'a res" where
  "check c msg k = (if c then k else Inl (Check msg))"

definition guard :: "bool \<Rightarrow> error \<Rightarrow> 'a res \<Rightarrow> 'a res" where
  "guard c err k = (if c then k else Inl err)"

definition ebind :: "'a res \<Rightarrow> ('a \<Rightarrow> 'b res) \<Rightarrow> 'b res" where
  "ebind m f = (case m of Inl e \<Rightarrow> Inl e | Inr x \<Rightarrow> f x)"

definition of_option :: "error \<Rightarrow> 'a option \<Rightarrow> 'a res" where
  "of_option err x = (case x of None \<Rightarrow> Inl err | Some y \<Rightarrow> Inr y)"

text \<open>
  The simplifier looks at a guard's condition first and at the rest of the action only
  once the guard is decided; the message is never rewritten.
\<close>

lemma check_weak_cong [cong]: "c = c' \<Longrightarrow> check c msg k = check c' msg k"
  by simp

lemma guard_weak_cong [cong]: "c = c' \<Longrightarrow> guard c err k = guard c' err k"
  by simp

lemma ebind_weak_cong [cong]: "m = m' \<Longrightarrow> ebind m f = ebind m' f"
  by simp

lemma check_simps [simp]:
  "check True msg k = k"
  "check False msg k = Inl (Check msg)"
  by (simp_all add: check_def)

lemma guard_simps [simp]:
  "guard True err k = k"
  "guard False err k = Inl err"
  by (simp_all add: guard_def)

lemma ebind_simps [simp]:
  "ebind (Inl e) f = Inl e"
  "ebind (Inr x) f = f x"
  by (simp_all add: ebind_def)

lemma of_option_simps [simp]:
  "of_option err None = Inl err"
  "of_option err (Some x) = Inr x"
  by (simp_all add: of_option_def)

lemma check_eq_Inr [simp]: "check c msg k = Inr x \<longleftrightarrow> c \<and> k = Inr x"
  by (simp add: check_def)

lemma guard_eq_Inr [simp]: "guard c err k = Inr x \<longleftrightarrow> c \<and> k = Inr x"
  by (simp add: guard_def)

lemma ebind_eq_Inr [simp]: "ebind m f = Inr y \<longleftrightarrow> (\<exists>x. m = Inr x \<and> f x = Inr y)"
  by (auto simp: ebind_def split: sum.splits)

lemma of_option_eq_Inr [simp]: "of_option err m = Inr x \<longleftrightarrow> m = Some x"
  by (auto simp: of_option_def split: option.splits)

lemma if_error_eq_Inr [simp]: "(if c then Inl e else m) = Inr x \<longleftrightarrow> \<not> c \<and> m = Inr x"
  by simp

lemma ebind_assoc: "ebind (ebind m f) g = ebind m (\<lambda>x. ebind (f x) g)"
  by (cases m) simp_all

lemma ebind_fundef_cong [fundef_cong]:
  "m = m' \<Longrightarrow> (\<And>x. m' = Inr x \<Longrightarrow> f x = f' x) \<Longrightarrow> ebind m f = ebind m' f'"
  by (cases m') simp_all

lemma check_fundef_cong [fundef_cong]:
  "c = c' \<Longrightarrow> (c' \<Longrightarrow> k = k') \<Longrightarrow> check c msg k = check c' msg k'"
  by (simp add: check_def)

text \<open>A loop over a list whose body may fail: it stops at the first error.\<close>

fun efold :: "('x \<Rightarrow> 's \<Rightarrow> 's res) \<Rightarrow> 'x list \<Rightarrow> 's \<Rightarrow> 's res" where
  "efold f [] s = Inr s"
| "efold f (x # xs) s = ebind (f x s) (efold f xs)"

lemma efold_append: "efold f (xs @ ys) s = ebind (efold f xs s) (efold f ys)"
proof (induction xs arbitrary: s)
  case (Cons x xs)
  then show ?case by (cases "f x s") simp_all
qed simp

text \<open>What every step of such a loop keeps, the loop keeps.\<close>

lemma efold_invariant:
  assumes "efold f xs s = Inr s'" and "P s"
    and "\<And>x s s'. x \<in> set xs \<Longrightarrow> P s \<Longrightarrow> f x s = Inr s' \<Longrightarrow> P s'"
  shows "P s'"
  using assms by (induction xs arbitrary: s) auto

section \<open>Machine integers\<close>

text \<open>
  The contracts are compiled to WebAssembly, whose integer operations wrap around. The
  functions below reduce a mathematical integer to the value of the type they name.
\<close>

definition i64 :: "int \<Rightarrow> int" where
  "i64 x = (x + 2 ^ 63) mod 2 ^ 64 - 2 ^ 63"

definition u64 :: "int \<Rightarrow> int" where
  "u64 x = x mod 2 ^ 64"

definition u32 :: "int \<Rightarrow> int" where
  "u32 x = x mod 2 ^ 32"

definition u16 :: "int \<Rightarrow> int" where
  "u16 x = x mod 2 ^ 16"

definition u128 :: "int \<Rightarrow> int" where
  "u128 x = x mod 2 ^ 128"

text \<open>The powers as literals, so that evaluation does not compute them each time.\<close>

lemma wrap_code [code]:
  "i64 x = (x + 9223372036854775808) mod 18446744073709551616 - 9223372036854775808"
  "u64 x = x mod 18446744073709551616"
  "u32 x = x mod 4294967296"
  "u16 x = x mod 65536"
  "u128 x = x mod 340282366920938463463374607431768211456"
  by (simp_all add: i64_def u64_def u32_def u16_def u128_def)

lemma i64_id: "- (2 ^ 63) \<le> x \<Longrightarrow> x < 2 ^ 63 \<Longrightarrow> i64 x = x"
  by (simp add: i64_def)

lemma i64_range: "- (2 ^ 63) \<le> i64 x" "i64 x < 2 ^ 63"
proof -
  define r where "r = (x + 2 ^ 63) mod 2 ^ 64"
  have "0 \<le> r" "r < 2 ^ 64"
    by (simp_all add: r_def)
  then show "- (2 ^ 63) \<le> i64 x" "i64 x < 2 ^ 63"
    unfolding i64_def r_def [symmetric] by simp_all
qed

lemma i64_small: "\<bar>x\<bar> < 2 ^ 63 \<Longrightarrow> i64 x = x"
  by (rule i64_id) simp_all

lemma i64_0 [simp]: "i64 0 = 0"
  by (simp add: i64_def)

lemma i64_eq_iff: "i64 x = i64 y \<longleftrightarrow> x mod 2 ^ 64 = y mod 2 ^ 64"
  unfolding i64_def by (simp add: mod_eq_dvd_iff)

lemma i64_mod [simp]: "i64 x mod 2 ^ 64 = x mod 2 ^ 64"
proof -
  have "i64 x mod 2 ^ 64 = ((x + 2 ^ 63) - 2 ^ 63) mod 2 ^ 64"
    unfolding i64_def by (rule mod_diff_left_eq)
  then show ?thesis by simp
qed

lemma i64_add_left [simp]: "i64 (i64 x + y) = i64 (x + y)"
  by (simp only: i64_eq_iff) (metis i64_mod mod_add_left_eq)

lemma i64_add_right [simp]: "i64 (x + i64 y) = i64 (x + y)"
  by (simp only: i64_eq_iff) (metis i64_mod mod_add_right_eq)

lemma i64_diff_left [simp]: "i64 (i64 x - y) = i64 (x - y)"
  by (simp only: i64_eq_iff) (metis i64_mod mod_diff_left_eq)

lemma i64_diff_right [simp]: "i64 (x - i64 y) = i64 (x - y)"
  by (simp only: i64_eq_iff) (metis i64_mod mod_diff_right_eq)

lemma i64_i64 [simp]: "i64 (i64 x) = i64 x"
  by (simp only: i64_eq_iff i64_mod)

lemma u64_id: "0 \<le> x \<Longrightarrow> x < 2 ^ 64 \<Longrightarrow> u64 x = x"
  by (simp add: u64_def)

lemma u64_range: "0 \<le> u64 x" "u64 x < 2 ^ 64"
  by (simp_all add: u64_def)

lemma u64_i64 [simp]: "u64 (i64 x) = u64 x"
  unfolding u64_def by (rule i64_mod)

lemma u64_wrap [simp]:
  "u64 (i64 x + y) = u64 (x + y)" "u64 (x + i64 y) = u64 (x + y)"
  "u64 (i64 x - y) = u64 (x - y)" "u64 (x - i64 y) = u64 (x - y)"
  "u64 (u64 x + y) = u64 (x + y)" "u64 (x + u64 y) = u64 (x + y)"
  "u64 (u64 x - y) = u64 (x - y)" "u64 (x - u64 y) = u64 (x - y)"
  "u64 (u64 x) = u64 x"
  unfolding u64_def
  by (metis i64_mod mod_add_left_eq, metis i64_mod mod_add_right_eq,
      metis i64_mod mod_diff_left_eq, metis i64_mod mod_diff_right_eq, simp_all add: mod_simps)

lemma u64_shift: "u64 x = u64 y \<Longrightarrow> u64 (x + z) = u64 (y + z)" "u64 x = u64 y \<Longrightarrow> u64 (x - z) = u64 (y - z)"
  unfolding u64_def by (metis mod_add_left_eq, metis mod_diff_left_eq)

lemma u32_id: "0 \<le> x \<Longrightarrow> x < 2 ^ 32 \<Longrightarrow> u32 x = x"
  by (simp add: u32_def)

lemma u32_range: "0 \<le> u32 x" "u32 x < 2 ^ 32"
  by (simp_all add: u32_def)

lemma u128_id: "0 \<le> x \<Longrightarrow> x < 2 ^ 128 \<Longrightarrow> u128 x = x"
  by (simp add: u128_def)

text \<open>Signed division of C++ truncates towards zero; a zero divisor traps.\<close>

definition tdiv :: "int \<Rightarrow> int \<Rightarrow> int" where
  "tdiv a b = sgn a * sgn b * (\<bar>a\<bar> div \<bar>b\<bar>)"

lemma tdiv_pos: "0 \<le> a \<Longrightarrow> 0 < b \<Longrightarrow> tdiv a b = a div b"
  by (cases "a = 0") (simp_all add: tdiv_def)

text \<open>
  \<open>int64_t( (uint128_t(a) * b) / c )\<close>: the operands are converted to 128 bits, the product
  wraps there, the quotient is cut back to 64 bits.
\<close>

definition muldiv128 :: "int \<Rightarrow> int \<Rightarrow> int \<Rightarrow> int res" where
  "muldiv128 a b c =
     guard (u128 c \<noteq> 0) DivideByZero
       (Inr (i64 (u128 (u128 a * u128 b) div u128 c)))"

lemma muldiv128_exact:
  assumes "0 \<le> a" "a < 2 ^ 63" "0 \<le> b" "b < 2 ^ 63" "0 < c" "c < 2 ^ 63"
    and "a * b div c < 2 ^ 63"
  shows "muldiv128 a b c = Inr (a * b div c)"
proof -
  have "a * b \<le> (2 ^ 63) * (2 ^ 63)"
    using assms by (intro mult_mono) simp_all
  also have "\<dots> < (2 ^ 128 :: int)" by simp
  finally have "u128 (u128 a * u128 b) = a * b"
    using assms by (simp add: u128_id)
  moreover have "0 \<le> a * b div c"
    using assms by (simp add: pos_imp_zdiv_nonneg_iff)
  ultimately show ?thesis
    using assms by (simp add: muldiv128_def u128_id i64_id)
qed

end
