(* ===== verification/Multi_Index.thy ===== *)
theory Multi_Index
  imports Eos_Prelude "HOL-Library.AList" "HOL-Library.Product_Lexorder"
begin

text \<open>
  Contract tables. A \<open>multi_index\<close> table of the chain's database is an association
  list from primary keys to rows; \<open>find\<close>, \<open>emplace\<close>, \<open>modify\<close> and \<open>erase\<close>
  act on it, and a secondary index is the list of its rows sorted by the secondary key
  and, among equal keys, by the primary key.

  The locale \<open>row_store\<close> states what a client of a table relies on: look-up after
  each operation, and how a sum over all rows changes. The components' proofs use its
  facts through the interpretation \<open>tab\<close> at the end.
\<close>

section \<open>The operations\<close>

type_synonym ('k, 'v) table = "('k \<times> 'v) list"

abbreviation tfind :: "'k \<Rightarrow> ('k, 'v) table \<Rightarrow> 'v option" where
  "tfind k t \<equiv> map_of t k"

definition templace :: "'k \<Rightarrow> 'v \<Rightarrow> ('k, 'v) table \<Rightarrow> ('k, 'v) table res" where
  "templace k v t = (case tfind k t of None \<Rightarrow> Inr ((k, v) # t) | Some _ \<Rightarrow> Inl DuplicateKey)"

definition tmodify :: "'k \<Rightarrow> ('v \<Rightarrow> 'v) \<Rightarrow> ('k, 'v) table \<Rightarrow> ('k, 'v) table res" where
  "tmodify k f t =
     (case tfind k t of None \<Rightarrow> Inl MissingRow | Some v \<Rightarrow> Inr (AList.update k (f v) t))"

definition terase :: "'k \<Rightarrow> ('k, 'v) table \<Rightarrow> ('k, 'v) table" where
  "terase k t = AList.delete k t"

definition twf :: "('k, 'v) table \<Rightarrow> bool" where
  "twf t \<longleftrightarrow> distinct (map fst t)"

definition tsum :: "('k \<Rightarrow> 'v \<Rightarrow> int) \<Rightarrow> ('k, 'v) table \<Rightarrow> int" where
  "tsum f t = (\<Sum>(k, v)\<leftarrow>t. f k v)"

definition tindex :: "('v \<Rightarrow> 'a::linorder) \<Rightarrow> ('k::linorder, 'v) table \<Rightarrow> ('k, 'v) table" where
  "tindex key t = sort_key (\<lambda>(k, v). (key v, k)) t"

section \<open>What a client of a table relies on\<close>

locale row_store =
  fixes find :: "'k \<Rightarrow> 't \<Rightarrow> 'v option"
    and emplace :: "'k \<Rightarrow> 'v \<Rightarrow> 't \<Rightarrow> 't res"
    and modify :: "'k \<Rightarrow> ('v \<Rightarrow> 'v) \<Rightarrow> 't \<Rightarrow> 't res"
    and erase :: "'k \<Rightarrow> 't \<Rightarrow> 't"
    and wf :: "'t \<Rightarrow> bool"
    and total :: "('k \<Rightarrow> 'v \<Rightarrow> int) \<Rightarrow> 't \<Rightarrow> int"
  assumes emplace_ok: "find k t = None \<Longrightarrow> \<exists>t'. emplace k v t = Inr t'"
    and emplace_fresh: "emplace k v t = Inr t' \<Longrightarrow> find k t = None"
    and find_emplace: "emplace k v t = Inr t' \<Longrightarrow> find j t' = (if j = k then Some v else find j t)"
    and wf_emplace: "wf t \<Longrightarrow> emplace k v t = Inr t' \<Longrightarrow> wf t'"
    and total_emplace: "emplace k v t = Inr t' \<Longrightarrow> total f t' = total f t + f k v"
    and modify_ok: "find k t = Some v \<Longrightarrow> \<exists>t'. modify k g t = Inr t'"
    and modify_found: "modify k g t = Inr t' \<Longrightarrow> \<exists>v. find k t = Some v"
    and find_modify: "find k t = Some v \<Longrightarrow> modify k g t = Inr t' \<Longrightarrow>
       find j t' = (if j = k then Some (g v) else find j t)"
    and wf_modify: "wf t \<Longrightarrow> modify k g t = Inr t' \<Longrightarrow> wf t'"
    and total_modify: "wf t \<Longrightarrow> find k t = Some v \<Longrightarrow> modify k g t = Inr t' \<Longrightarrow>
       total f t' = total f t - f k v + f k (g v)"
    and find_erase: "wf t \<Longrightarrow> find j (erase k t) = (if j = k then None else find j t)"
    and wf_erase: "wf t \<Longrightarrow> wf (erase k t)"
    and total_erase: "wf t \<Longrightarrow> find k t = Some v \<Longrightarrow> total f (erase k t) = total f t - f k v"
    and total_nonneg: "wf t \<Longrightarrow> (\<And>j v. find j t = Some v \<Longrightarrow> 0 \<le> f j v) \<Longrightarrow> 0 \<le> total f t"
begin

text \<open>A row is no more than the sum of all rows, when no row counts negatively.\<close>

lemma row_le_total:
  assumes "wf t" and "find k t = Some v"
    and "\<And>j w. find j t = Some w \<Longrightarrow> 0 \<le> f j w"
  shows "f k v \<le> total f t"
proof -
  have "0 \<le> total f (erase k t)"
    using assms by (intro total_nonneg wf_erase) (auto simp: find_erase split: if_splits)
  with assms(1,2) show ?thesis by (simp add: total_erase)
qed

text \<open>Rows a change does not weigh differently leave the sum alone.\<close>

lemma total_modify_frame:
  assumes "wf t" "modify k g t = Inr t'"
    and "\<And>v. find k t = Some v \<Longrightarrow> f k (g v) = f k v"
  shows "total f t' = total f t"
  using modify_found [OF assms(2)] total_modify [OF assms(1) _ assms(2)] assms(3) by fastforce

text \<open>Moving an amount from one row to another keeps the sum.\<close>

lemma total_move:
  assumes "wf t" "find j t = Some v" "modify j g t = Inr t1"
    and "find k t1 = Some w" "modify k h t1 = Inr t2"
    and "f j (g v) = f j v - x" "f k (h w) = f k w + x"
  shows "total f t2 = total f t"
  using assms total_modify wf_modify by fastforce

end

section \<open>Association lists provide it\<close>

lemma templace_eq_Inr [simp]:
  "templace k v t = Inr t' \<longleftrightarrow> tfind k t = None \<and> t' = (k, v) # t"
  by (auto simp: templace_def split: option.splits)

lemma tmodify_eq_Inr:
  "tmodify k f t = Inr t' \<longleftrightarrow> (\<exists>v. tfind k t = Some v \<and> t' = AList.update k (f v) t)"
  by (auto simp: tmodify_def split: option.splits)

lemma templace_None: "tfind k t = None \<Longrightarrow> templace k v t = Inr ((k, v) # t)"
  by simp

lemma tmodify_Some: "tfind k t = Some v \<Longrightarrow> tmodify k f t = Inr (AList.update k (f v) t)"
  by (simp add: tmodify_eq_Inr)

lemma tsum_simps [simp]:
  "tsum f [] = 0"
  "tsum f ((k, v) # t) = f k v + tsum f t"
  by (simp_all add: tsum_def)

lemma tsum_update:
  "distinct (map fst t) \<Longrightarrow> tfind k t = Some v \<Longrightarrow>
     tsum f (AList.update k w t) = tsum f t - f k v + f k w"
  by (induction t) (auto split: if_splits)

lemma tsum_absent: "tfind k t = None \<Longrightarrow> AList.delete k t = t"
  by (induction t) (auto split: if_splits)

lemma tsum_delete:
  "distinct (map fst t) \<Longrightarrow> tfind k t = Some v \<Longrightarrow>
     tsum f (AList.delete k t) = tsum f t - f k v"
proof (induction t)
  case Nil
  then show ?case by simp
next
  case (Cons p t)
  obtain j w where p: "p = (j, w)" by fastforce
  show ?case
  proof (cases "j = k")
    case True
    with Cons.prems p have "tfind k t = None"
      by (auto simp: map_of_eq_None_iff)
    with True Cons.prems p show ?thesis by (simp add: tsum_absent)
  next
    case False
    with Cons p show ?thesis by simp
  qed
qed

lemma tsum_nonneg:
  "distinct (map fst t) \<Longrightarrow> (\<And>j v. tfind j t = Some v \<Longrightarrow> 0 \<le> f j v) \<Longrightarrow> 0 \<le> tsum f t"
proof (induction t)
  case Nil
  then show ?case by simp
next
  case (Cons p t)
  obtain j w where p: "p = (j, w)" by fastforce
  have "0 \<le> f i v" if "tfind i t = Some v" for i v
  proof (rule Cons.prems(2))
    have "i \<noteq> j"
      using Cons.prems(1) that p by (metis distinct.simps(2) fst_conv list.simps(9) map_of_SomeD
          image_eqI set_map)
    with that p show "tfind i (p # t) = Some v" by simp
  qed
  moreover have "0 \<le> f j w"
    using Cons.prems(2) [of j w] p by simp
  ultimately show ?case
    using Cons.IH Cons.prems(1) p by simp
qed

interpretation tab: row_store tfind templace tmodify terase twf tsum
proof unfold_locales
  fix t :: "('k \<times> 'v) list" and f :: "'k \<Rightarrow> 'v \<Rightarrow> int"
  show "twf t \<Longrightarrow> (\<And>j v. tfind j t = Some v \<Longrightarrow> 0 \<le> f j v) \<Longrightarrow> 0 \<le> tsum f t"
    unfolding twf_def by (rule tsum_nonneg)
next
  fix k :: 'k and t :: "('k \<times> 'v) list" and v
  assume "twf t" and "tfind k t = Some v"
  then show "tsum f (terase k t) = tsum f t - f k v" for f
    by (simp add: twf_def terase_def tsum_delete)
next
  fix k :: 'k and t t' :: "('k \<times> 'v) list" and v g
  assume "twf t" "tfind k t = Some v" "tmodify k g t = Inr t'"
  then show "tsum f t' = tsum f t - f k v + f k (g v)" for f
    by (auto simp: twf_def tmodify_eq_Inr tsum_update)
qed (auto simp: twf_def terase_def tmodify_eq_Inr templace_def delete_conv'
    map_of_eq_None_iff distinct_update distinct_delete update_conv' split: option.splits if_splits)

lemma twf_Nil [simp]: "twf []"
  by (simp add: twf_def)

lemma twf_Cons [simp]: "twf ((k, v) # t) \<longleftrightarrow> tfind k t = None \<and> twf t"
  by (auto simp: twf_def map_of_eq_None_iff)

lemma twf_update [simp]: "twf t \<Longrightarrow> twf (AList.update k v t)"
  by (simp add: twf_def distinct_update)

lemma twf_terase [simp]: "twf t \<Longrightarrow> twf (terase k t)"
  by (rule tab.wf_erase)

lemma tfind_terase [simp]: "tfind j (terase k t) = (if j = k then None else tfind j t)"
  by (simp add: terase_def delete_conv')

lemma tfind_update [simp]: "tfind j (AList.update k v t) = (if j = k then Some v else tfind j t)"
  by (simp add: update_conv')

lemma tsum_AList_update:
  "twf t \<Longrightarrow> tfind k t = Some v \<Longrightarrow> tsum f (AList.update k w t) = tsum f t - f k v + f k w"
  by (simp add: twf_def tsum_update)

lemma tsum_terase: "twf t \<Longrightarrow> tfind k t = Some v \<Longrightarrow> tsum f (terase k t) = tsum f t - f k v"
  by (rule tab.total_erase)

lemma tsum_terase_None: "tfind k t = None \<Longrightarrow> tsum f (terase k t) = tsum f t"
  by (simp add: terase_def tsum_absent)

lemmas tsum_changes = tsum_AList_update tsum_terase

section \<open>Secondary indices\<close>

lemma set_tindex [simp]: "set (tindex key t) = set t"
  by (simp add: tindex_def)

lemma mset_tindex [simp]: "length (tindex key t) = length t"
  by (simp add: tindex_def)

lemma distinct_tindex: "twf t \<Longrightarrow> distinct (map fst (tindex key t))"
  unfolding twf_def tindex_def
  by (metis distinct_map distinct_sort set_sort sort_key_def)

lemma sorted_tindex: "sorted (map (\<lambda>(k, v). (key v, k)) (tindex key t))"
  by (simp add: tindex_def)

lemma tindex_eq_Nil [simp]: "tindex key t = [] \<longleftrightarrow> t = []"
  by (metis length_0_conv mset_tindex)

lemma tindex_hd_find: "twf t \<Longrightarrow> tindex key t = (k, v) # rest \<Longrightarrow> tfind k t = Some v"
  unfolding twf_def by (metis list.set_intros(1) map_of_eq_Some_iff set_tindex)

lemma tindex_hd_least:
  assumes "tindex key t = (k, v) # rest" and "(j, w) \<in> set t"
  shows "key v \<le> key w"
proof -
  have "(j, w) \<in> set ((k, v) # rest)"
    using assms by (metis set_tindex)
  moreover have "sorted (map (\<lambda>(k, v). (key v, k)) ((k, v) # rest))"
    by (metis assms(1) sorted_tindex)
  ultimately show ?thesis by (fastforce simp: less_eq_prod_def)
qed

end
