(* ===== verification/Binary64.thy ===== *)
theory Binary64
  imports Eos_Prelude
begin

text \<open>
  The C++ type \<open>double\<close> as IEEE 754 binary64: a finite value is the rational number it
  denotes, every operation computes the exact rational result and rounds it to the nearest
  representable value, ties to even, with gradual underflow and overflow to infinity. The
  two zeros are one value here: the contracts never divide by a computed negative zero and
  no other operation they use tells them apart.

  \<open>rnd\<close> is the rounding. The lemmas give what the contracts' proofs need of it: it is
  monotone, exact on integers up to \<open>2 ^ 53\<close> and keeps signs.
\<close>

section \<open>Rounding\<close>

datatype double = Fin rat | PInf | NInf | NaN

definition pow2 :: "int \<Rightarrow> rat" where
  "pow2 e = (if 0 \<le> e then 2 ^ nat e else 1 / 2 ^ nat (- e))"

text \<open>A power of two by squaring, for evaluation.\<close>

function ipow2 :: "int \<Rightarrow> int" where
  "ipow2 e = (if e \<le> 0 then 1
     else let h = ipow2 (e div 2) in if even e then h * h else 2 * h * h)"
  by pat_completeness auto
termination by (relation "measure nat") auto

declare ipow2.simps [simp del]

lemma ipow2_eq: "ipow2 e = 2 ^ nat e"
proof (induction e rule: ipow2.induct)
  case (1 e)
  show ?case
  proof (cases "e \<le> 0")
    case False
    then obtain n where n: "e = int n" "0 < n"
      by (metis not_le pos_int_cases)
    have half: "nat (e div 2) = n div 2" using n by (simp add: nat_div_distrib)
    have IH: "ipow2 (e div 2) = 2 ^ (n div 2)" using 1 False half by simp
    have ev: "even e = even n" using n by simp
    have "ipow2 e = (if even n then 2 ^ (n div 2) * 2 ^ (n div 2) else 2 * 2 ^ (n div 2) * 2 ^ (n div 2))"
      using False by (subst ipow2.simps) (simp only: IH ev Let_def if_False)
    also have "\<dots> = 2 ^ n"
    proof (cases "even n")
      case True
      then have "n = n div 2 + n div 2" by auto
      then show ?thesis using True by (metis power_add)
    next
      case False
      then have "n = Suc (n div 2 + n div 2)" by presburger
      then show ?thesis using False by (metis power_Suc power_add mult.assoc)
    qed
    finally show ?thesis using n by simp
  qed (simp add: ipow2.simps)
qed

lemma pow2_code [code]:
  "pow2 e = (if 0 \<le> e then of_int (ipow2 e) else 1 / of_int (ipow2 (- e)))"
  by (simp add: pow2_def ipow2_eq)

fun ilog2 :: "nat \<Rightarrow> nat" where
  "ilog2 n = (if n < 2 then 0 else Suc (ilog2 (n div 2)))"

declare ilog2.simps [simp del]

text \<open>The binary exponent of a positive rational: \<open>2 ^ e \<le> x < 2 ^ (e + 1)\<close>.\<close>

definition rexpo :: "rat \<Rightarrow> int" where
  "rexpo x = (let (a, b) = quotient_of x; k = int (ilog2 (nat a)) - int (ilog2 (nat b))
              in if pow2 k \<le> x then k else k - 1)"

text \<open>The same on integers, which evaluate in binary.\<close>

function ilog2_int :: "int \<Rightarrow> int" where
  "ilog2_int n = (if n < 2 then 0 else 1 + ilog2_int (n div 2))"
  by pat_completeness auto
termination by (relation "measure nat") auto

declare ilog2_int.simps [simp del]

lemma ilog2_int_eq: "ilog2_int n = int (ilog2 (nat n))"
proof (induction n rule: ilog2_int.induct)
  case (1 n)
  have "nat (n div 2) = nat n div 2" by (cases "0 \<le> n") (auto simp: nat_div_distrib)
  then show ?case
    using 1 by (subst ilog2_int.simps, subst ilog2.simps) auto
qed

lemma rexpo_code [code]:
  "rexpo x = (let (a, b) = quotient_of x; k = ilog2_int a - ilog2_int b
              in if pow2 k \<le> x then k else k - 1)"
  by (simp add: rexpo_def ilog2_int_eq)

definition rne :: "rat \<Rightarrow> int" where
  "rne x = (let f = \<lfloor>x\<rfloor>; d = x - of_int f in
            if d < 1 / 2 then f else if 1 / 2 < d then f + 1 else if even f then f else f + 1)"

text \<open>The exponent of the last place: 53 significant bits, but never below \<open>2 ^ (- 1074)\<close>.\<close>

definition ulp_expo :: "rat \<Rightarrow> int" where
  "ulp_expo x = max (rexpo \<bar>x\<bar> - 52) (- 1074)"

definition rval :: "rat \<Rightarrow> rat" where
  "rval x = (if x = 0 then 0 else of_int (rne (x / pow2 (ulp_expo x))) * pow2 (ulp_expo x))"

definition rnd :: "rat \<Rightarrow> double" where
  "rnd x = (let y = rval x in
            if pow2 1024 \<le> \<bar>y\<bar> then (if 0 < x then PInf else NInf) else Fin y)"

section \<open>The operations\<close>

fun dneg :: "double \<Rightarrow> double" where
  "dneg (Fin x) = Fin (- x)"
| "dneg PInf = NInf"
| "dneg NInf = PInf"
| "dneg NaN = NaN"

fun dadd :: "double \<Rightarrow> double \<Rightarrow> double" where
  "dadd (Fin x) (Fin y) = rnd (x + y)"
| "dadd NaN _ = NaN"
| "dadd _ NaN = NaN"
| "dadd PInf NInf = NaN"
| "dadd NInf PInf = NaN"
| "dadd PInf _ = PInf"
| "dadd _ PInf = PInf"
| "dadd NInf _ = NInf"
| "dadd _ NInf = NInf"

fun dsign :: "double \<Rightarrow> int" where
  "dsign (Fin x) = (if 0 < x then 1 else if x < 0 then - 1 else 0)"
| "dsign PInf = 1"
| "dsign NInf = - 1"
| "dsign NaN = 0"

definition inf_of_sign :: "int \<Rightarrow> double" where
  "inf_of_sign s = (if 0 < s then PInf else if s < 0 then NInf else NaN)"

fun dmul :: "double \<Rightarrow> double \<Rightarrow> double" where
  "dmul (Fin x) (Fin y) = rnd (x * y)"
| "dmul a b = inf_of_sign (dsign a * dsign b)"

fun ddiv :: "double \<Rightarrow> double \<Rightarrow> double" where
  "ddiv (Fin x) (Fin y) = (if y = 0 then inf_of_sign (dsign (Fin x)) else rnd (x / y))"
| "ddiv NaN _ = NaN"
| "ddiv _ NaN = NaN"
| "ddiv (Fin x) _ = Fin 0"
| "ddiv a (Fin y) = (if 0 \<le> y then a else dneg a)"
| "ddiv _ _ = NaN"

fun dless :: "double \<Rightarrow> double \<Rightarrow> bool" where
  "dless (Fin x) (Fin y) = (x < y)"
| "dless NaN _ = False"
| "dless _ NaN = False"
| "dless NInf b = (b \<noteq> NInf)"
| "dless _ PInf = True"
| "dless _ _ = False"

text \<open>The arithmetic signs of the source are the signs of the model.\<close>

instantiation double :: "{zero, one, plus, minus, uminus, times, inverse, ord, abs}"
begin

definition zero_double :: double where "zero_double = Fin 0"
definition one_double :: double where "one_double = Fin 1"
definition plus_double :: "double \<Rightarrow> double \<Rightarrow> double" where "plus_double = dadd"
definition uminus_double :: "double \<Rightarrow> double" where "uminus_double = dneg"
definition minus_double :: "double \<Rightarrow> double \<Rightarrow> double" where "minus_double a b = dadd a (dneg b)"
definition times_double :: "double \<Rightarrow> double \<Rightarrow> double" where "times_double = dmul"
definition divide_double :: "double \<Rightarrow> double \<Rightarrow> double" where "divide_double = ddiv"
definition inverse_double :: "double \<Rightarrow> double" where "inverse_double a = ddiv (Fin 1) a"
definition less_double :: "double \<Rightarrow> double \<Rightarrow> bool" where "less_double = dless"
definition less_eq_double :: "double \<Rightarrow> double \<Rightarrow> bool" where
  "less_eq_double a b \<longleftrightarrow> dless a b \<or> (a = b \<and> a \<noteq> NaN)"
definition abs_double :: "double \<Rightarrow> double" where
  "abs_double a = (if dless a (Fin 0) then dneg a else a)"

instance ..

end

lemmas double_defs = zero_double_def one_double_def plus_double_def uminus_double_def
  minus_double_def times_double_def divide_double_def less_double_def less_eq_double_def
  abs_double_def

text \<open>Conversions: \<open>double( n )\<close> of an integer, \<open>int64_t( d )\<close> of a double.\<close>

definition dbl :: "int \<Rightarrow> double" where
  "dbl n = rnd (of_int n)"

definition trunc_rat :: "rat \<Rightarrow> int" where
  "trunc_rat x = (if 0 \<le> x then \<lfloor>x\<rfloor> else \<lceil>x\<rceil>)"

fun int64_of :: "double \<Rightarrow> int res" where
  "int64_of (Fin x) =
     (let n = trunc_rat x in guard (- (2 ^ 63) \<le> n \<and> n < 2 ^ 63) ConversionTrap (Inr n))"
| "int64_of _ = Inl ConversionTrap"

section \<open>Facts on rounding\<close>

lemma pow2_pos [simp]: "0 < pow2 e"
  by (simp add: pow2_def)

lemma pow2_nonneg [simp]: "0 \<le> pow2 e"
  by (rule less_imp_le) simp

lemma pow2_nz [simp]: "pow2 e \<noteq> 0"
  using pow2_pos [of e] by linarith

lemma pow2_powi: "pow2 e = 2 powi e"
  by (auto simp: pow2_def power_int_def power_one_over inverse_eq_divide)

lemma pow2_add: "pow2 (a + b) = pow2 a * pow2 b"
  by (simp add: pow2_powi power_int_add)

lemma pow2_diff: "pow2 (a - b) = pow2 a / pow2 b"
  by (simp add: pow2_powi power_int_diff)

lemma pow2_less: "a < b \<Longrightarrow> pow2 a < pow2 b"
  by (simp add: pow2_powi power_int_strict_increasing)

lemma pow2_le_iff [simp]: "pow2 a \<le> pow2 b \<longleftrightarrow> a \<le> b"
  by (metis linorder_not_le order_le_less pow2_less)

lemma pow2_less_iff [simp]: "pow2 a < pow2 b \<longleftrightarrow> a < b"
  by (simp add: linorder_not_le [symmetric] del: linorder_not_le)

lemma pow2_of_nat: "pow2 (int n) = 2 ^ n"
  by (simp add: pow2_def)

lemma ilog2_bounds: "0 < n \<Longrightarrow> 2 ^ ilog2 n \<le> n \<and> n < 2 ^ Suc (ilog2 n)"
proof (induction n rule: ilog2.induct)
  case (1 n)
  show ?case
  proof (cases "n < 2")
    case True
    with "1.prems" show ?thesis by (subst (1 2) ilog2.simps) simp
  next
    case False
    then have "2 ^ ilog2 (n div 2) \<le> n div 2 \<and> n div 2 < 2 ^ Suc (ilog2 (n div 2))"
      using "1.IH" by simp
    moreover have "ilog2 n = Suc (ilog2 (n div 2))"
      using False by (subst ilog2.simps) simp
    ultimately show ?thesis by auto
  qed
qed

lemma rexpo_bounds:
  assumes "0 < x"
  shows "pow2 (rexpo x) \<le> x" "x < pow2 (rexpo x + 1)"
proof -
  obtain a b where q: "quotient_of x = (a, b)" by fastforce
  have b: "0 < b" using quotient_of_denom_pos [OF q] .
  have x: "x = of_int a / of_int b" using quotient_of_div [OF q] .
  with assms b have a: "0 < a" by (simp add: zero_less_divide_iff)
  define i where "i = ilog2 (nat a)"
  define j where "j = ilog2 (nat b)"
  have "(2::int) ^ i \<le> a" "a < 2 ^ Suc i" "(2::int) ^ j \<le> b" "b < 2 ^ Suc j"
    using ilog2_bounds [of "nat a"] ilog2_bounds [of "nat b"] a b
    unfolding i_def j_def by (simp_all add: le_nat_iff nat_less_iff)
  then have A: "(2::rat) ^ i \<le> of_int a" "of_int a < (2::rat) ^ Suc i"
    and B: "(2::rat) ^ j \<le> of_int b" "of_int b < (2::rat) ^ Suc j"
    by (metis of_int_le_iff of_int_less_iff of_int_numeral of_int_power)+
  have lo: "pow2 (int i - int j - 1) \<le> x"
  proof -
    have "pow2 (int i - int j - 1) = 2 ^ i / 2 ^ Suc j"
      using pow2_diff [of "int i" "int (Suc j)"]
      by (simp only: pow2_of_nat) (simp add: algebra_simps)
    also have "\<dots> \<le> x"
      unfolding x using A B a b by (intro frac_le) (auto intro: less_imp_le)
    finally show ?thesis .
  qed
  have hi: "x < pow2 (int i - int j + 1)"
  proof -
    have "x < 2 ^ Suc i / 2 ^ j"
      unfolding x using A B a b by (intro frac_less) auto
    also have "\<dots> = pow2 (int i - int j + 1)"
      using pow2_diff [of "int (Suc i)" "int j"]
      by (simp only: pow2_of_nat) (simp add: algebra_simps)
    finally show ?thesis .
  qed
  have "rexpo x = (if pow2 (int i - int j) \<le> x then int i - int j else int i - int j - 1)"
    by (simp add: rexpo_def q i_def j_def Let_def)
  with lo hi show "pow2 (rexpo x) \<le> x" "x < pow2 (rexpo x + 1)"
    by (auto split: if_splits)
qed

lemma rexpo_mono: "0 < x \<Longrightarrow> x \<le> y \<Longrightarrow> rexpo x \<le> rexpo y"
proof -
  assume "0 < x" "x \<le> y"
  then have "pow2 (rexpo x) < pow2 (rexpo y + 1)"
    using rexpo_bounds(1) [of x] rexpo_bounds(2) [of y] by linarith
  then show ?thesis by simp
qed

lemma rne_bounds: "of_int (rne x) - 1 / 2 \<le> x" "x \<le> of_int (rne x) + 1 / 2"
proof -
  define f where "f = \<lfloor>x\<rfloor>"
  have "of_int f \<le> x" "x < of_int f + 1"
    unfolding f_def by linarith+
  then show "of_int (rne x) - 1 / 2 \<le> x" "x \<le> of_int (rne x) + 1 / 2"
    unfolding rne_def Let_def f_def [symmetric] by auto
qed

lemma rne_of_int [simp]: "rne (of_int n) = n"
  by (simp add: rne_def)

lemma rne_mono: "x \<le> y \<Longrightarrow> rne x \<le> rne y"
proof -
  assume "x \<le> y"
  then have "\<lfloor>x\<rfloor> \<le> \<lfloor>y\<rfloor>" by (rule floor_mono)
  then consider "\<lfloor>x\<rfloor> = \<lfloor>y\<rfloor>" | "\<lfloor>x\<rfloor> + 1 \<le> \<lfloor>y\<rfloor>" by linarith
  then show ?thesis
    using \<open>x \<le> y\<close> by cases (auto simp: rne_def Let_def)
qed

lemma rne_le_of_int: "x \<le> of_int n \<Longrightarrow> rne x \<le> n"
  using rne_mono [of x "of_int n"] by simp

lemma of_int_le_rne: "of_int n \<le> x \<Longrightarrow> n \<le> rne x"
  using rne_mono [of "of_int n" x] by simp

lemma rne_uminus: "rne (- x) = - rne x"
proof (cases "x = of_int \<lfloor>x\<rfloor>")
  case True
  then have "rne (- x) = rne (of_int (- \<lfloor>x\<rfloor>))" "rne x = rne (of_int \<lfloor>x\<rfloor>)"
    by simp_all
  then show ?thesis by (simp only: rne_of_int)
next
  case False
  define f where "f = \<lfloor>x\<rfloor>"
  have f: "of_int f < x" "x < of_int f + 1"
    using False floor_correct [of x] unfolding f_def by linarith+
  have "\<lfloor>- x\<rfloor> = - f - 1"
    by (rule floor_unique) (use f in auto)
  with f show ?thesis
    unfolding rne_def Let_def f_def [symmetric] by auto
qed

lemma ulp_expo_pos: "0 < x \<Longrightarrow> ulp_expo x = max (rexpo x - 52) (- 1074)"
  by (simp add: ulp_expo_def)

lemma ulp_expo_uminus [simp]: "ulp_expo (- x) = ulp_expo x"
  by (simp add: ulp_expo_def)

lemma rval_0 [simp]: "rval 0 = 0"
  by (simp add: rval_def)

lemma rval_uminus [simp]: "rval (- x) = - rval x"
  by (simp add: rval_def rne_uminus)

lemma rval_nonneg: "0 \<le> x \<Longrightarrow> 0 \<le> rval x"
  using of_int_le_rne [of 0 "x / pow2 (ulp_expo x)"] by (simp add: rval_def)

lemma rval_le_pow2:
  assumes "0 < x" "x \<le> pow2 (ulp_expo x + 53)"
  shows "rval x \<le> pow2 (ulp_expo x + 53)"
proof -
  have "x / pow2 (ulp_expo x) \<le> of_int (2 ^ 53)"
    using assms by (simp add: pow2_add divide_le_eq) (simp add: pow2_def mult.commute)
  then have "rne (x / pow2 (ulp_expo x)) \<le> 2 ^ 53"
    by (rule rne_le_of_int)
  then have "of_int (rne (x / pow2 (ulp_expo x))) \<le> (2 ^ 53 :: rat)"
    by (metis of_int_le_iff of_int_numeral of_int_power)
  then show ?thesis
    using assms by (simp add: rval_def pow2_add) (simp add: pow2_def)
qed

lemma rval_ge_pow2:
  assumes "0 < x" "pow2 (ulp_expo x + 52) \<le> x"
  shows "pow2 (ulp_expo x + 52) \<le> rval x"
proof -
  have "of_int (2 ^ 52) \<le> x / pow2 (ulp_expo x)"
    using assms by (simp add: pow2_add le_divide_eq) (simp add: pow2_def mult.commute)
  then have "2 ^ 52 \<le> rne (x / pow2 (ulp_expo x))"
    by (rule of_int_le_rne)
  then have "(2 ^ 52 :: rat) \<le> of_int (rne (x / pow2 (ulp_expo x)))"
    by (metis of_int_le_iff of_int_numeral of_int_power)
  then show ?thesis
    using assms by (simp add: rval_def pow2_add) (simp add: pow2_def)
qed

lemma rval_mono_pos:
  assumes "0 < x" "x \<le> y"
  shows "rval x \<le> rval y"
proof -
  have y: "0 < y" using assms by simp
  have le: "ulp_expo x \<le> ulp_expo y"
    using rexpo_mono [OF assms] assms y by (simp add: ulp_expo_pos)
  show ?thesis
  proof (cases "ulp_expo x = ulp_expo y")
    case True
    have "rne (x / pow2 (ulp_expo x)) \<le> rne (y / pow2 (ulp_expo x))"
      using assms by (intro rne_mono) (simp add: divide_right_mono)
    with True assms y show ?thesis
      by (simp add: rval_def mult_right_mono)
  next
    case False
    with le have lt: "ulp_expo x < ulp_expo y" by simp
    then have ey: "ulp_expo y = rexpo y - 52"
      using assms y by (simp add: ulp_expo_pos max_def split: if_splits)
    have "rexpo x + 1 \<le> ulp_expo x + 53"
      using assms by (simp add: ulp_expo_pos)
    then have "x \<le> pow2 (ulp_expo x + 53)"
      using rexpo_bounds(2) [OF assms(1)] by (meson less_imp_le order.trans pow2_le_iff)
    then have "rval x \<le> pow2 (ulp_expo x + 53)"
      using assms(1) by (intro rval_le_pow2)
    also have "\<dots> \<le> pow2 (ulp_expo y + 52)"
      using lt by simp
    also have "\<dots> \<le> rval y"
      using rexpo_bounds(1) [OF y] ey by (intro rval_ge_pow2 y) simp
    finally show ?thesis .
  qed
qed

lemma rval_mono: "x \<le> y \<Longrightarrow> rval x \<le> rval y"
proof -
  assume xy: "x \<le> y"
  consider "0 < x" | "x \<le> 0" "0 \<le> y" | "y < 0" by linarith
  then show ?thesis
  proof cases
    case 1
    then show ?thesis using xy by (rule rval_mono_pos)
  next
    case 2
    then have "0 \<le> rval (- x)" "0 \<le> rval y"
      by (auto intro!: rval_nonneg simp del: rval_uminus)
    then show ?thesis by simp
  next
    case 3
    then have "rval (- y) \<le> rval (- x)"
      using xy by (intro rval_mono_pos) auto
    then show ?thesis by simp
  qed
qed

text \<open>Integers of at most 53 bits are represented exactly.\<close>

lemma rval_of_int_pos:
  assumes "0 < n" "n \<le> 2 ^ 53"
  shows "rval (of_int n) = of_int n"
proof (cases "n = 2 ^ 53")
  case True
  then have n: "(of_int n :: rat) = pow2 53" by (simp add: pow2_def)
  then have "pow2 (rexpo (of_int n)) < pow2 54" "pow2 53 < pow2 (rexpo (of_int n) + 1)"
    using rexpo_bounds [of "of_int n"] assms
    by (auto intro: le_less_trans [OF _ iffD2 [OF pow2_less_iff]])
  then have "rexpo (of_int n) = 53" by simp
  then have "ulp_expo (of_int n) = 1" using assms by (simp add: ulp_expo_pos)
  moreover have "(of_int n :: rat) / pow2 1 = of_int (2 ^ 52)"
    using True by (simp add: pow2_def)
  ultimately show ?thesis
    using True by (simp only: rval_def rne_of_int) (simp add: pow2_def)
next
  case False
  define e where "e = ulp_expo (of_int n)"
  have "pow2 (rexpo (of_int n)) < pow2 53"
  proof -
    have "(of_int n :: rat) < of_int (2 ^ 53)" using assms False by (simp only: of_int_less_iff)
    also have "\<dots> = pow2 53" by (simp add: pow2_def)
    finally show ?thesis
      using rexpo_bounds(1) [of "of_int n"] assms by (meson le_less_trans of_int_0_less_iff)
  qed
  then have e: "e \<le> 0" using assms by (simp add: e_def ulp_expo_pos)
  define m where "m = n * 2 ^ nat (- e)"
  have "(of_int n :: rat) / pow2 e = of_int m"
    using e by (cases "e = 0") (simp_all add: pow2_def m_def)
  then have "rne (of_int n / pow2 e) = m" by (simp only: rne_of_int)
  moreover have "of_int m * pow2 e = (of_int n :: rat)"
    using e by (cases "e = 0") (simp_all add: pow2_def m_def)
  ultimately show ?thesis
    using assms by (simp add: rval_def e_def)
qed

lemma rval_of_int:
  assumes "\<bar>n\<bar> \<le> 2 ^ 53"
  shows "rval (of_int n) = of_int n"
proof -
  consider "0 < n" | "n = 0" | "n < 0" by linarith
  then show ?thesis
  proof cases
    case 1
    then show ?thesis using assms rval_of_int_pos [of n] by simp
  next
    case 3
    then have "rval (of_int (- n)) = of_int (- n)"
      using assms by (intro rval_of_int_pos) auto
    then show ?thesis by simp
  qed simp
qed

lemma rval_le_of_int: "x \<le> of_int n \<Longrightarrow> \<bar>n\<bar> \<le> 2 ^ 53 \<Longrightarrow> rval x \<le> of_int n"
  using rval_mono [of x "of_int n"] by (simp add: rval_of_int)

lemma of_int_le_rval: "of_int n \<le> x \<Longrightarrow> \<bar>n\<bar> \<le> 2 ^ 53 \<Longrightarrow> of_int n \<le> rval x"
  using rval_mono [of "of_int n" x] by (simp add: rval_of_int)

lemma dbl_exact: "\<bar>n\<bar> \<le> 2 ^ 53 \<Longrightarrow> dbl n = Fin (of_int n)"
proof -
  assume n: "\<bar>n\<bar> \<le> 2 ^ 53"
  have "\<bar>of_int n :: rat\<bar> \<le> of_int (2 ^ 53)"
    using n by (metis of_int_abs of_int_le_iff)
  also have "\<dots> < pow2 1024" by (simp add: pow2_def)
  finally show ?thesis
    by (simp add: dbl_def rnd_def rval_of_int [OF n])
qed

end
