(* ===== verification/Chain_Env.thy ===== *)
theory Chain_Env
  imports Multi_Index Binary64
begin

text \<open>
  What every contract sees of the chain and of eosiolib: account names, token symbols,
  assets, permission levels, the actions one contract sends to another, and the record
  \<open>env\<close> of an action's execution context.

  eosiolib and the chain's intrinsics are not part of the repository. Their functions are
  fields of \<open>env\<close>, so that every operation takes them as an argument; what the contracts
  rely on is stated once, in \<open>asset_laws\<close>, from the documented behaviour of
  \<open>eosio::asset\<close>.
\<close>

section \<open>Names, symbols, assets\<close>

type_synonym name = "64 word"

datatype symbol = Symbol (sym_code: "64 word") (sym_precision: nat)

record asset =
  amount :: int
  symbol :: symbol

definition mk_asset :: "int \<Rightarrow> symbol \<Rightarrow> asset" where
  "mk_asset a s = \<lparr>amount = a, symbol = s\<rparr>"

lemma mk_asset_simps [simp]: "amount (mk_asset a s) = a" "symbol (mk_asset a s) = s"
  by (simp_all add: mk_asset_def)

text \<open>Symbols are ordered by code, then by precision, as their raw values are.\<close>

instantiation symbol :: linorder
begin

definition less_eq_symbol :: "symbol \<Rightarrow> symbol \<Rightarrow> bool" where
  "less_eq_symbol s t \<longleftrightarrow> (sym_code s, sym_precision s) \<le> (sym_code t, sym_precision t)"

definition less_symbol :: "symbol \<Rightarrow> symbol \<Rightarrow> bool" where
  "less_symbol s t \<longleftrightarrow> (sym_code s, sym_precision s) < (sym_code t, sym_precision t)"

instance
  by standard (auto simp: less_eq_symbol_def less_symbol_def intro: symbol.expand)

end

datatype permission_level = PermissionLevel (actor: name) (permission: name)

text \<open>The accounts the contracts name, by their 64-bit values.\<close>

definition eosio_account :: name where "eosio_account = 6138663577826885632"
definition token_account :: name where "token_account = 6138663591592764928"
definition ram_account :: name where "ram_account = 6138663590285017088"
definition ramfee_account :: name where "ramfee_account = 6138663590285202592"
definition stake_account :: name where "stake_account = 6138663591134630912"
definition bpay_account :: name where "bpay_account = 6138663581940940800"
definition vpay_account :: name where "vpay_account = 6138663592678359040"
definition names_account :: name where "names_account = 6138663588137709568"
definition saving_account :: name where "saving_account = 6138663590826845888"
definition rex_account :: name where "rex_account = 6138663590357893120"
definition active_permission :: name where "active_permission = 3617214756542218240"
definition b1_account :: name where "b1_account = 4053239664633446400"

definition ramcore_symbol :: symbol where "ramcore_symbol = Symbol 19512273778065746 4"
definition ram_symbol :: symbol where "ram_symbol = Symbol 5062994 0"
definition rex_symbol :: symbol where "rex_symbol = Symbol 5784914 4"

lemmas account_defs = eosio_account_def token_account_def ram_account_def ramfee_account_def
  stake_account_def bpay_account_def vpay_account_def names_account_def saving_account_def
  rex_account_def b1_account_def

lemma rex_account_distinct [simp]:
  "rex_account \<noteq> stake_account" "stake_account \<noteq> rex_account"
  "rex_account \<noteq> ramfee_account" "ramfee_account \<noteq> rex_account"
  "rex_account \<noteq> ram_account" "ram_account \<noteq> rex_account"
  "rex_account \<noteq> names_account" "names_account \<noteq> rex_account"
  "ram_account \<noteq> ramfee_account" "ramfee_account \<noteq> ram_account"
  by (simp_all add: account_defs)

lemma symbols_distinct [simp]:
  "ramcore_symbol \<noteq> ram_symbol" "ram_symbol \<noteq> ramcore_symbol"
  "rex_symbol \<noteq> ram_symbol" "ram_symbol \<noteq> rex_symbol"
  by (simp_all add: ramcore_symbol_def ram_symbol_def rex_symbol_def)

section \<open>Actions sent to other contracts\<close>

text \<open>The actions of the token contract, with their arguments.\<close>

datatype token_action =
    Create name asset
  | Issue name asset string
  | Retire asset string
  | Transfer name name asset string
  | Open name symbol name
  | Close name symbol

datatype rex_result =
    BuyResult asset | SellResult asset | OrderResult name asset | RentResult asset

text \<open>
  An inline action runs after the action that sent it, in the same transaction and with
  the permissions it was sent with.
\<close>

datatype inline_action =
    TokenAction "permission_level list" token_action
  | RexResult rex_result

definition send_transfer ::
  "name list \<Rightarrow> name \<Rightarrow> name \<Rightarrow> asset \<Rightarrow> string \<Rightarrow> inline_action" where
  "send_transfer signers from to quantity memo =
     TokenAction (map (\<lambda>n. PermissionLevel n active_permission) signers)
       (Transfer from to quantity memo)"

section \<open>The execution context\<close>

record env =
  self :: name                                       \<comment> \<open>\<open>_self\<close>, the account of the contract\<close>
  has_auth :: "name \<Rightarrow> bool"                        \<comment> \<open>the accounts that authorized the action\<close>
  is_account :: "name \<Rightarrow> bool"
  current_time :: int                                \<comment> \<open>\<open>current_time_point()\<close>, microseconds\<close>
  current_sec :: int                                 \<comment> \<open>\<open>now()\<close>, \<open>current_time_point_sec()\<close>\<close>
  current_slot :: int                                \<comment> \<open>\<open>current_block_time().slot\<close>\<close>
  symbol_is_valid :: "symbol \<Rightarrow> bool"
  asset_is_valid :: "asset \<Rightarrow> bool"
  asset_ctor_ok :: "int \<Rightarrow> symbol \<Rightarrow> bool"            \<comment> \<open>does \<open>asset( amount, symbol )\<close> pass its assertions\<close>
  asset_plus :: "asset \<Rightarrow> asset \<Rightarrow> asset res"
  asset_minus :: "asset \<Rightarrow> asset \<Rightarrow> asset res"
  asset_neg :: "asset \<Rightarrow> asset"
  asset_le :: "asset \<Rightarrow> asset \<Rightarrow> bool res"
  name_suffix :: "name \<Rightarrow> name"                      \<comment> \<open>\<open>name::suffix()\<close>\<close>
  name_to_string :: "name \<Rightarrow> string"
  pow :: "double \<Rightarrow> double \<Rightarrow> double"               \<comment> \<open>\<open>std::pow\<close>\<close>

text \<open>The constructor of an asset, with the assertions eosiolib makes in it.\<close>

definition new_asset :: "'z env_scheme \<Rightarrow> int \<Rightarrow> symbol \<Rightarrow> asset res" where
  "new_asset e n s = guard (asset_ctor_ok e n s) LibraryAssert (Inr (mk_asset n s))"

lemma new_asset_eq_Inr [simp]: "new_asset e n s = Inr a \<longleftrightarrow> asset_ctor_ok e n s \<and> a = mk_asset n s"
  by (auto simp: new_asset_def)

definition require_auth :: "'z env_scheme \<Rightarrow> name \<Rightarrow> 'a res \<Rightarrow> 'a res" where
  "require_auth e n k = guard (has_auth e n) MissingAuthority k"

lemma require_auth_eq_Inr [simp]: "require_auth e n k = Inr x \<longleftrightarrow> has_auth e n \<and> k = Inr x"
  by (simp add: require_auth_def)

lemma require_auth_simps [simp]:
  "has_auth e n \<Longrightarrow> require_auth e n k = k"
  "\<not> has_auth e n \<Longrightarrow> require_auth e n k = Inl MissingAuthority"
  by (simp_all add: require_auth_def)

lemma require_auth_weak_cong [cong]:
  "e = e' \<Longrightarrow> n = n' \<Longrightarrow> require_auth e n k = require_auth e' n' k"
  by simp

section \<open>The laws of eosio::asset\<close>

definition max_amount :: int where "max_amount = 2 ^ 62 - 1"

lemma max_amount_code [code]: "max_amount = 4611686018427387903"
  by (simp add: max_amount_def)

definition in_range :: "asset \<Rightarrow> bool" where
  "in_range a \<longleftrightarrow> \<bar>amount a\<bar> \<le> max_amount"

text \<open>
  Documented behaviour of \<open>eosio::asset\<close>: addition and subtraction compute on the 64-bit
  amounts; they fail on different symbols and when the result leaves the range of amounts.
\<close>

definition asset_laws :: "'z env_scheme \<Rightarrow> bool" where
  "asset_laws e \<longleftrightarrow>
     (\<forall>a. asset_is_valid e a \<longleftrightarrow> in_range a \<and> symbol_is_valid e (symbol a)) \<and>
     (\<forall>n s. asset_ctor_ok e n s \<longleftrightarrow> \<bar>n\<bar> \<le> max_amount \<and> symbol_is_valid e s) \<and>
     (\<forall>a b. asset_plus e a b =
        (if symbol a = symbol b \<and> \<bar>i64 (amount a + amount b)\<bar> \<le> max_amount
         then Inr (mk_asset (i64 (amount a + amount b)) (symbol a)) else Inl LibraryAssert)) \<and>
     (\<forall>a b. asset_minus e a b =
        (if symbol a = symbol b \<and> \<bar>i64 (amount a - amount b)\<bar> \<le> max_amount
         then Inr (mk_asset (i64 (amount a - amount b)) (symbol a)) else Inl LibraryAssert)) \<and>
     (\<forall>a. asset_neg e a = mk_asset (i64 (- amount a)) (symbol a)) \<and>
     (\<forall>a b. asset_le e a b =
        (if symbol a = symbol b then Inr (amount a \<le> amount b) else Inl LibraryAssert))"

lemma asset_valid_law: "asset_laws e \<Longrightarrow> asset_is_valid e a \<longleftrightarrow> in_range a \<and> symbol_is_valid e (symbol a)"
  by (simp add: asset_laws_def)

lemma asset_ctor_law:
  "asset_laws e \<Longrightarrow> asset_ctor_ok e n s \<longleftrightarrow> \<bar>n\<bar> \<le> max_amount \<and> symbol_is_valid e s"
  by (simp add: asset_laws_def)

lemma asset_plus_i64: "asset_laws e \<Longrightarrow> asset_plus e a b =
    (if symbol a = symbol b \<and> \<bar>i64 (amount a + amount b)\<bar> \<le> max_amount
     then Inr (mk_asset (i64 (amount a + amount b)) (symbol a)) else Inl LibraryAssert)"
  by (simp add: asset_laws_def)

lemma asset_minus_i64: "asset_laws e \<Longrightarrow> asset_minus e a b =
    (if symbol a = symbol b \<and> \<bar>i64 (amount a - amount b)\<bar> \<le> max_amount
     then Inr (mk_asset (i64 (amount a - amount b)) (symbol a)) else Inl LibraryAssert)"
  by (simp add: asset_laws_def)

text \<open>On operands in range nothing wraps around.\<close>

lemma asset_plus_law: "asset_laws e \<Longrightarrow> in_range a \<Longrightarrow> in_range b \<Longrightarrow> asset_plus e a b =
    (if symbol a = symbol b \<and> \<bar>amount a + amount b\<bar> \<le> max_amount
     then Inr (mk_asset (amount a + amount b) (symbol a)) else Inl LibraryAssert)"
  by (simp add: asset_plus_i64 in_range_def max_amount_def i64_small)

lemma asset_minus_law: "asset_laws e \<Longrightarrow> in_range a \<Longrightarrow> in_range b \<Longrightarrow> asset_minus e a b =
    (if symbol a = symbol b \<and> \<bar>amount a - amount b\<bar> \<le> max_amount
     then Inr (mk_asset (amount a - amount b) (symbol a)) else Inl LibraryAssert)"
  by (simp add: asset_minus_i64 in_range_def max_amount_def i64_small)

lemma asset_neg_law: "asset_laws e \<Longrightarrow> asset_neg e a = mk_asset (i64 (- amount a)) (symbol a)"
  by (simp add: asset_laws_def)

lemma asset_le_law: "asset_laws e \<Longrightarrow> asset_le e a b =
    (if symbol a = symbol b then Inr (amount a \<le> amount b) else Inl LibraryAssert)"
  by (simp add: asset_laws_def)

section \<open>A concrete context\<close>

text \<open>
  A context whose parameters are concrete functions, for evaluating the model on inputs. It
  meets \<open>asset_laws\<close>, so the laws are consistent. \<open>pow\<close> is the linear approximation
  \<open>a ^ b = 1 + b * (a - 1)\<close>, which is enough for prices near the balance of a connector.
\<close>

definition ref_env :: "name \<Rightarrow> name list \<Rightarrow> name list \<Rightarrow> int \<Rightarrow> env" where
  "ref_env me signers accts t = \<lparr>
     self = me,
     has_auth = (\<lambda>n. n \<in> set signers),
     is_account = (\<lambda>n. n \<in> set accts),
     current_time = t,
     current_sec = t div 1000000,
     current_slot = (t div 1000 - 946684800000) div 500,
     symbol_is_valid = (\<lambda>s. sym_precision s \<le> 18),
     asset_is_valid = (\<lambda>a. \<bar>amount a\<bar> \<le> max_amount \<and> sym_precision (symbol a) \<le> 18),
     asset_ctor_ok = (\<lambda>n s. \<bar>n\<bar> \<le> max_amount \<and> sym_precision s \<le> 18),
     asset_plus = (\<lambda>a b. if symbol a = symbol b \<and> \<bar>i64 (amount a + amount b)\<bar> \<le> max_amount
                         then Inr (mk_asset (i64 (amount a + amount b)) (symbol a)) else Inl LibraryAssert),
     asset_minus = (\<lambda>a b. if symbol a = symbol b \<and> \<bar>i64 (amount a - amount b)\<bar> \<le> max_amount
                         then Inr (mk_asset (i64 (amount a - amount b)) (symbol a)) else Inl LibraryAssert),
     asset_neg = (\<lambda>a. mk_asset (i64 (- amount a)) (symbol a)),
     asset_le = (\<lambda>a b. if symbol a = symbol b then Inr (amount a \<le> amount b) else Inl LibraryAssert),
     name_suffix = (\<lambda>n. n),
     name_to_string = (\<lambda>n. []),
     pow = (\<lambda>a b. 1 + b * (a - 1)) \<rparr>"

lemma asset_laws_ref_env: "asset_laws (ref_env me signers accts t)"
  by (auto simp: asset_laws_def ref_env_def in_range_def)

lemma ref_env_simps [simp]:
  "self (ref_env me signers accts t) = me"
  "has_auth (ref_env me signers accts t) n \<longleftrightarrow> n \<in> set signers"
  "is_account (ref_env me signers accts t) n \<longleftrightarrow> n \<in> set accts"
  "current_time (ref_env me signers accts t) = t"
  "current_sec (ref_env me signers accts t) = t div 1000000"
  "current_slot (ref_env me signers accts t) = (t div 1000 - 946684800000) div 500"
  by (simp_all add: ref_env_def)

text \<open>Amounts and accounts of examples.\<close>

definition eos_symbol :: symbol where "eos_symbol = Symbol 5459781 4"
definition alice :: name where "alice = 3773036822876127232"
definition bob :: name where "bob = 4399453885987553280"

lemmas example_defs = eos_symbol_def alice_def bob_def

end
