(* ===== verification/Eosio_Token.thy ===== *)
theory Eosio_Token
  imports Chain_Env
begin

text \<open>
  The token contract, \<open>contracts/eosio.token\<close>: its two tables, its six actions with every
  check in the order of the source, and the execution of token actions together with the
  inline actions they send.

  The invariant \<open>token_inv\<close> says that for every token the balances add up to the supply,
  that the st_supply stays within the maximum, and that no balance is negative; every action
  keeps it. The locale \<open>ledger\<close> states what the system contract relies on when it moves
  tokens; the token contract's transfer provides it.
\<close>

section \<open>Tables\<close>

record currency_stats =
  st_supply :: asset
  st_max_supply :: asset
  st_issuer :: name

text \<open>
  The table \<open>stat\<close> is scoped by symbol code and holds one row there; the table
  \<open>accounts\<close> is scoped by owner and keyed by symbol code.
\<close>

type_synonym accounts_table = "(name \<times> 64 word, asset) table"

record token_state =
  stats :: "(64 word, currency_stats) table"
  accounts :: accounts_table

abbreviation code_of :: "asset \<Rightarrow> 64 word" where
  "code_of q \<equiv> sym_code (symbol q)"

section \<open>Helpers and actions\<close>

definition sub_balance :: "'z env_scheme \<Rightarrow> name \<Rightarrow> asset \<Rightarrow> accounts_table \<Rightarrow> accounts_table res" where
  "sub_balance e owner val t =
     (case tfind (owner, code_of val) t of
        None \<Rightarrow> Inl (Check ''no balance object found'')
      | Some b \<Rightarrow>
          check (amount val \<le> amount b) ''overdrawn balance''
            (ebind (asset_minus e b val) (\<lambda>b'.
               Inr (AList.update (owner, code_of val) b' t))))"

definition add_balance :: "'z env_scheme \<Rightarrow> name \<Rightarrow> asset \<Rightarrow> accounts_table \<Rightarrow> accounts_table res" where
  "add_balance e owner val t =
     (case tfind (owner, code_of val) t of
        None \<Rightarrow> templace (owner, code_of val) val t
      | Some b \<Rightarrow>
          ebind (asset_plus e b val) (\<lambda>b'.
            Inr (AList.update (owner, code_of val) b' t)))"

definition create :: "'z env_scheme \<Rightarrow> name \<Rightarrow> asset \<Rightarrow> token_state \<Rightarrow> token_state res" where
  "create e iss maximum_supply s =
     require_auth e (self e)
     (check (symbol_is_valid e (symbol maximum_supply)) ''invalid symbol name''
     (check (asset_is_valid e maximum_supply) ''invalid supply''
     (check (0 < amount maximum_supply) ''max-supply must be positive''
     (check (tfind (code_of maximum_supply) (stats s) = None) ''token with symbol already exists''
     (ebind (templace (code_of maximum_supply)
               \<lparr>st_supply = mk_asset 0 (symbol maximum_supply), st_max_supply = maximum_supply, st_issuer = iss\<rparr>
               (stats s)) (\<lambda>st.
      Inr (s\<lparr>stats := st\<rparr>)))))))"

definition issue ::
  "'z env_scheme \<Rightarrow> name \<Rightarrow> asset \<Rightarrow> string \<Rightarrow> token_state \<Rightarrow> (token_state \<times> inline_action list) res" where
  "issue e to quantity memo s =
     check (symbol_is_valid e (symbol quantity)) ''invalid symbol name''
     (check (length memo \<le> 256) ''memo has more than 256 bytes''
     (case tfind (code_of quantity) (stats s) of
        None \<Rightarrow> Inl (Check ''token with symbol does not exist, create token before issue'')
      | Some st \<Rightarrow>
          require_auth e (st_issuer st)
          (check (asset_is_valid e quantity) ''invalid quantity''
          (check (0 < amount quantity) ''must issue positive quantity''
          (check (symbol quantity = symbol (st_supply st)) ''symbol precision mismatch''
          (check (amount quantity \<le> i64 (amount (st_max_supply st) - amount (st_supply st)))
             ''quantity exceeds available supply''
          (ebind (asset_plus e (st_supply st) quantity) (\<lambda>ns.
           ebind (add_balance e (st_issuer st) quantity (accounts s)) (\<lambda>acc.
           Inr (s\<lparr>stats := AList.update (code_of quantity) (st\<lparr>st_supply := ns\<rparr>) (stats s),
                  accounts := acc\<rparr>,
                if to \<noteq> st_issuer st
                then [send_transfer [st_issuer st] (st_issuer st) to quantity memo] else []))))))))))"

definition retire :: "'z env_scheme \<Rightarrow> asset \<Rightarrow> string \<Rightarrow> token_state \<Rightarrow> token_state res" where
  "retire e quantity memo s =
     check (symbol_is_valid e (symbol quantity)) ''invalid symbol name''
     (check (length memo \<le> 256) ''memo has more than 256 bytes''
     (case tfind (code_of quantity) (stats s) of
        None \<Rightarrow> Inl (Check ''token with symbol does not exist'')
      | Some st \<Rightarrow>
          require_auth e (st_issuer st)
          (check (asset_is_valid e quantity) ''invalid quantity''
          (check (0 < amount quantity) ''must retire positive quantity''
          (check (symbol quantity = symbol (st_supply st)) ''symbol precision mismatch''
          (ebind (asset_minus e (st_supply st) quantity) (\<lambda>ns.
           ebind (sub_balance e (st_issuer st) quantity (accounts s)) (\<lambda>acc.
           Inr (s\<lparr>stats := AList.update (code_of quantity) (st\<lparr>st_supply := ns\<rparr>) (stats s),
                  accounts := acc\<rparr>)))))))))"

definition transfer ::
  "'z env_scheme \<Rightarrow> name \<Rightarrow> name \<Rightarrow> asset \<Rightarrow> string \<Rightarrow> token_state \<Rightarrow> token_state res" where
  "transfer e from to quantity memo s =
     check (from \<noteq> to) ''cannot transfer to self''
     (require_auth e from
     (check (is_account e to) ''to account does not exist''
     (case tfind (code_of quantity) (stats s) of
        None \<Rightarrow> Inl (Check ''unable to find key'')
      | Some st \<Rightarrow>
          check (asset_is_valid e quantity) ''invalid quantity''
          (check (0 < amount quantity) ''must transfer positive quantity''
          (check (symbol quantity = symbol (st_supply st)) ''symbol precision mismatch''
          (check (length memo \<le> 256) ''memo has more than 256 bytes''
          (ebind (sub_balance e from quantity (accounts s)) (\<lambda>acc.
           ebind (add_balance e to quantity acc) (\<lambda>acc'.
           Inr (s\<lparr>accounts := acc'\<rparr>))))))))))"

definition open_account :: "'z env_scheme \<Rightarrow> name \<Rightarrow> symbol \<Rightarrow> name \<Rightarrow> token_state \<Rightarrow> token_state res" where
  "open_account e owner sy ram_payer s =
     require_auth e ram_payer
     (case tfind (sym_code sy) (stats s) of
        None \<Rightarrow> Inl (Check ''symbol does not exist'')
      | Some st \<Rightarrow>
          check (symbol (st_supply st) = sy) ''symbol precision mismatch''
          (case tfind (owner, sym_code sy) (accounts s) of
             None \<Rightarrow> ebind (templace (owner, sym_code sy) (mk_asset 0 sy) (accounts s)) (\<lambda>acc.
                       Inr (s\<lparr>accounts := acc\<rparr>))
           | Some _ \<Rightarrow> Inr s))"

definition close_account :: "'z env_scheme \<Rightarrow> name \<Rightarrow> symbol \<Rightarrow> token_state \<Rightarrow> token_state res" where
  "close_account e owner sy s =
     require_auth e owner
     (case tfind (owner, sym_code sy) (accounts s) of
        None \<Rightarrow> Inl (Check ''Balance row already deleted or never existed. Action won't have any effect.'')
      | Some b \<Rightarrow>
          check (amount b = 0) ''Cannot close because the balance is not zero.''
            (Inr (s\<lparr>accounts := terase (owner, sym_code sy) (accounts s)\<rparr>)))"

text \<open>The static readers other contracts use.\<close>

definition get_supply :: "token_state \<Rightarrow> 64 word \<Rightarrow> asset res" where
  "get_supply s code =
     (case tfind code (stats s) of
        None \<Rightarrow> Inl (Check ''unable to find key'') | Some st \<Rightarrow> Inr (st_supply st))"

definition get_balance :: "token_state \<Rightarrow> name \<Rightarrow> 64 word \<Rightarrow> asset res" where
  "get_balance s owner code =
     (case tfind (owner, code) (accounts s) of
        None \<Rightarrow> Inl (Check ''unable to find key'') | Some b \<Rightarrow> Inr b)"

section \<open>Dispatch and inline actions\<close>

definition no_inline :: "token_state res \<Rightarrow> (token_state \<times> inline_action list) res" where
  "no_inline m = ebind m (\<lambda>s. Inr (s, []))"

fun token_apply ::
  "'z env_scheme \<Rightarrow> token_action \<Rightarrow> token_state \<Rightarrow> (token_state \<times> inline_action list) res" where
  "token_apply e (Create iss maximum_supply) s = no_inline (create e iss maximum_supply s)"
| "token_apply e (Issue to quantity memo) s = issue e to quantity memo s"
| "token_apply e (Transfer from to quantity memo) s = no_inline (transfer e from to quantity memo s)"
| "token_apply e (Open owner sy payer) s = no_inline (open_account e owner sy payer s)"
| "token_apply e (Close owner sy) s = no_inline (close_account e owner sy s)"
| "token_apply e (Retire quantity memo) s = no_inline (retire e quantity memo s)"

text \<open>The context in which the token contract runs an inline action.\<close>

definition inline_env :: "'z env_scheme \<Rightarrow> permission_level list \<Rightarrow> 'z env_scheme" where
  "inline_env e levels =
     e\<lparr>self := token_account, has_auth := (\<lambda>n. n \<in> actor ` set levels)\<rparr>"

text \<open>How many further actions an inline action can cause, itself included.\<close>

fun inline_weight :: "inline_action \<Rightarrow> nat" where
  "inline_weight (TokenAction _ (Issue _ _ _)) = 2"
| "inline_weight _ = 1"

lemma no_inline_eq_Inr [simp]: "no_inline m = Inr (s, acts) \<longleftrightarrow> m = Inr s \<and> acts = []"
  by (auto simp: no_inline_def)

lemma token_apply_inline:
  "token_apply e a s = Inr (s', acts) \<Longrightarrow>
     acts = [] \<or> (\<exists>to q m iss. a = Issue to q m \<and> acts = [send_transfer [iss] iss to q m])"
  by (cases a) (auto simp: issue_def split: option.splits if_splits)

lemma inline_weight_pos [simp]: "0 < inline_weight x"
  by (cases x rule: inline_weight.cases) simp_all

function run_inline :: "'z env_scheme \<Rightarrow> inline_action list \<Rightarrow> token_state \<Rightarrow> token_state res" where
  "run_inline e [] s = Inr s"
| "run_inline e (RexResult _ # rest) s = run_inline e rest s"
| "run_inline e (TokenAction levels a # rest) s =
     (case token_apply (inline_env e levels) a s of
        Inl err \<Rightarrow> Inl err
      | Inr (s', acts) \<Rightarrow> run_inline e (acts @ rest) s')"
  by pat_completeness auto
termination
  by (relation "measure (\<lambda>(e, xs, s). sum_list (map inline_weight xs))")
    (auto simp: send_transfer_def dest!: token_apply_inline)

text \<open>A token action pushed by a user, with everything it causes.\<close>

definition token_transact :: "'z env_scheme \<Rightarrow> token_action \<Rightarrow> token_state \<Rightarrow> token_state res" where
  "token_transact e a s =
     ebind (token_apply (e\<lparr>self := token_account\<rparr>) a s) (\<lambda>(s', acts). run_inline e acts s')"

section \<open>The invariant\<close>

text \<open>What all owners together hold of a token.\<close>

definition circulating :: "64 word \<Rightarrow> accounts_table \<Rightarrow> int" where
  "circulating c t = tsum (\<lambda>(_, c') b. if c' = c then amount b else 0) t"

definition stat_ok :: "accounts_table \<Rightarrow> 64 word \<Rightarrow> currency_stats \<Rightarrow> bool" where
  "stat_ok t c st \<longleftrightarrow>
     code_of (st_supply st) = c \<and> symbol (st_max_supply st) = symbol (st_supply st) \<and>
     0 \<le> amount (st_supply st) \<and> amount (st_supply st) \<le> amount (st_max_supply st) \<and>
     amount (st_max_supply st) \<le> max_amount \<and> circulating c t = amount (st_supply st)"

definition account_ok :: "(64 word, currency_stats) table \<Rightarrow> 64 word \<Rightarrow> asset \<Rightarrow> bool" where
  "account_ok sts c b \<longleftrightarrow>
     0 \<le> amount b \<and> (\<exists>st. tfind c sts = Some st \<and> symbol b = symbol (st_supply st))"

definition token_inv :: "token_state \<Rightarrow> bool" where
  "token_inv s \<longleftrightarrow>
     twf (stats s) \<and> twf (accounts s) \<and>
     (\<forall>c st. tfind c (stats s) = Some st \<longrightarrow> stat_ok (accounts s) c st) \<and>
     (\<forall>owner c b. tfind (owner, c) (accounts s) = Some b \<longrightarrow> account_ok (stats s) c b) \<and>
     (\<forall>c. tfind c (stats s) = None \<longrightarrow> circulating c (accounts s) = 0)"

text \<open>The balance of an account, zero when there is no row.\<close>

definition balance :: "token_state \<Rightarrow> name \<Rightarrow> 64 word \<Rightarrow> int" where
  "balance s owner c = (case tfind (owner, c) (accounts s) of None \<Rightarrow> 0 | Some b \<Rightarrow> amount b)"

section \<open>The two balance operations\<close>

lemma account_le_circulating:
  assumes "token_inv s" "tfind (owner, c) (accounts s) = Some b"
  shows "amount b \<le> circulating c (accounts s)"
  using tab.row_le_total [of "accounts s" "(owner, c)" b
      "\<lambda>(_, c') b. if c' = c then amount b else 0"] assms
  by (auto simp: circulating_def token_inv_def account_ok_def)

lemma account_facts:
  assumes "token_inv s" "tfind (owner, c) (accounts s) = Some b"
  obtains st where "tfind c (stats s) = Some st" "symbol b = symbol (st_supply st)"
    "0 \<le> amount b" "amount b \<le> amount (st_supply st)" "in_range b"
proof -
  obtain st where st: "tfind c (stats s) = Some st" "symbol b = symbol (st_supply st)" "0 \<le> amount b"
    using assms unfolding token_inv_def account_ok_def by blast
  then have "stat_ok (accounts s) c st"
    using assms(1) by (simp add: token_inv_def)
  then have "amount b \<le> amount (st_supply st)" "amount (st_supply st) \<le> max_amount"
    using account_le_circulating [OF assms] by (auto simp: stat_ok_def)
  with st that show ?thesis by (auto simp: in_range_def)
qed

lemma stat_facts:
  assumes "token_inv s" "tfind c (stats s) = Some st"
  shows "code_of (st_supply st) = c" "symbol (st_max_supply st) = symbol (st_supply st)"
    "0 \<le> amount (st_supply st)" "amount (st_supply st) \<le> amount (st_max_supply st)"
    "amount (st_max_supply st) \<le> max_amount" "circulating c (accounts s) = amount (st_supply st)"
    "in_range (st_supply st)"
proof -
  have "stat_ok (accounts s) c st"
    using assms by (simp add: token_inv_def)
  then show "code_of (st_supply st) = c" "symbol (st_max_supply st) = symbol (st_supply st)"
    "0 \<le> amount (st_supply st)" "amount (st_supply st) \<le> amount (st_max_supply st)"
    "amount (st_max_supply st) \<le> max_amount" "circulating c (accounts s) = amount (st_supply st)"
    "in_range (st_supply st)"
    by (simp_all add: stat_ok_def in_range_def)
qed

lemma sub_balance_Inr:
  assumes "asset_laws e" "in_range val" "sub_balance e owner val t = Inr t'"
    and "\<And>b. tfind (owner, code_of val) t = Some b \<Longrightarrow> in_range b"
  obtains b where "tfind (owner, code_of val) t = Some b" "amount val \<le> amount b"
    "symbol b = symbol val"
    "t' = AList.update (owner, code_of val) (mk_asset (amount b - amount val) (symbol b)) t"
  using assms by (auto simp: sub_balance_def asset_minus_law split: option.splits if_splits)

lemma add_balance_Inr:
  assumes "asset_laws e" "in_range val" "add_balance e owner val t = Inr t'"
    and "\<And>b. tfind (owner, code_of val) t = Some b \<Longrightarrow> in_range b"
  shows "(tfind (owner, code_of val) t = None \<and> t' = ((owner, code_of val), val) # t) \<or>
    (\<exists>b. tfind (owner, code_of val) t = Some b \<and> symbol b = symbol val \<and>
       \<bar>amount b + amount val\<bar> \<le> max_amount \<and>
       t' = AList.update (owner, code_of val) (mk_asset (amount b + amount val) (symbol b)) t)"
  using assms by (auto simp: add_balance_def asset_plus_law split: option.splits if_splits)

text \<open>
  Both operations change one row: the owner's balance by the amount, and by the same amount
  what circulates.
\<close>

definition acc_amount :: "accounts_table \<Rightarrow> name \<Rightarrow> 64 word \<Rightarrow> int" where
  "acc_amount t owner c = (case tfind (owner, c) t of None \<Rightarrow> 0 | Some b \<Rightarrow> amount b)"

lemma balance_acc_amount: "balance s owner c = acc_amount (accounts s) owner c"
  by (simp add: balance_def acc_amount_def)

lemma sub_balance_effect:
  assumes "asset_laws e" "in_range val" "twf t" "sub_balance e owner val t = Inr t'"
    and "\<And>b. tfind (owner, code_of val) t = Some b \<Longrightarrow> in_range b"
  shows "twf t'"
    and "circulating c t' = circulating c t - (if c = code_of val then amount val else 0)"
    and "acc_amount t' who c =
      acc_amount t who c - (if who = owner \<and> c = code_of val then amount val else 0)"
    and "amount val \<le> acc_amount t owner (code_of val)"
    and "tfind k t' = (if k = (owner, code_of val)
      then Some (mk_asset (acc_amount t owner (code_of val) - amount val) (symbol val)) else tfind k t)"
proof -
  obtain b where b: "tfind (owner, code_of val) t = Some b" "amount val \<le> amount b"
    "symbol b = symbol val"
    "t' = AList.update (owner, code_of val) (mk_asset (amount b - amount val) (symbol b)) t"
    using sub_balance_Inr [OF assms(1,2,4,5)] by blast
  show "twf t'" using assms(3) b by simp
  show "circulating c t' = circulating c t - (if c = code_of val then amount val else 0)"
    using b assms(3) by (simp add: circulating_def tsum_AList_update)
  show "acc_amount t' who c =
      acc_amount t who c - (if who = owner \<and> c = code_of val then amount val else 0)"
    using b by (auto simp: acc_amount_def)
  show "amount val \<le> acc_amount t owner (code_of val)"
    using b by (simp add: acc_amount_def)
  show "tfind k t' = (if k = (owner, code_of val)
      then Some (mk_asset (acc_amount t owner (code_of val) - amount val) (symbol val)) else tfind k t)"
    using b by (simp add: acc_amount_def)
qed

lemma add_balance_effect:
  assumes "asset_laws e" "in_range val" "twf t" "add_balance e owner val t = Inr t'"
    and "\<And>b. tfind (owner, code_of val) t = Some b \<Longrightarrow> in_range b" and "0 \<le> amount val"
  shows "twf t'"
    and "circulating c t' = circulating c t + (if c = code_of val then amount val else 0)"
    and "acc_amount t' who c =
      acc_amount t who c + (if who = owner \<and> c = code_of val then amount val else 0)"
    and "tfind k t' = (if k = (owner, code_of val)
      then Some (mk_asset (acc_amount t owner (code_of val) + amount val) (symbol val)) else tfind k t)"
proof -
  note cases = add_balance_Inr [OF assms(1,2,4,5)]
  show "twf t'" using cases assms(3) by auto
  show "circulating c t' = circulating c t + (if c = code_of val then amount val else 0)"
    using cases assms(3) by (auto simp: circulating_def tsum_AList_update)
  show "acc_amount t' who c =
      acc_amount t who c + (if who = owner \<and> c = code_of val then amount val else 0)"
    using cases by (auto simp: acc_amount_def)
  show "tfind k t' = (if k = (owner, code_of val)
      then Some (mk_asset (acc_amount t owner (code_of val) + amount val) (symbol val)) else tfind k t)"
    using cases by (auto simp: acc_amount_def mk_asset_def)
qed

section \<open>Every action keeps the invariant\<close>

lemma token_inv_wf: "token_inv s \<Longrightarrow> twf (stats s) \<and> twf (accounts s)"
  by (simp add: token_inv_def)

lemma token_inv_rows:
  assumes "token_inv s" "tfind (owner, c) (accounts s) = Some b"
  shows "account_ok (stats s) c b" "in_range b"
  using assms account_facts [OF assms] by (auto simp: token_inv_def)

lemma acc_amount_nonneg: "token_inv s \<Longrightarrow> 0 \<le> acc_amount (accounts s) owner c"
  using token_inv_rows by (fastforce simp: acc_amount_def account_ok_def split: option.splits)

lemma valid_quantity:
  "asset_laws e \<Longrightarrow> asset_is_valid e q \<Longrightarrow> in_range q"
  by (simp add: asset_valid_law)

text \<open>A change of the accounts alone, row by row.\<close>

lemma token_inv_accounts:
  assumes "token_inv s" "twf t"
    and "\<And>c. circulating c t = circulating c (accounts s)"
    and "\<And>owner c b. tfind (owner, c) t = Some b \<Longrightarrow> account_ok (stats s) c b"
  shows "token_inv (s\<lparr>accounts := t\<rparr>)"
  using assms by (simp add: token_inv_def stat_ok_def)

lemma token_inv_transfer:
  assumes "asset_laws e" "token_inv s" "transfer e from to quantity memo s = Inr s'"
  shows "token_inv s'"
proof -
  from assms(3) obtain st t t' where st: "tfind (code_of quantity) (stats s) = Some st"
    and q: "asset_is_valid e quantity" "0 < amount quantity" "symbol quantity = symbol (st_supply st)"
    and ne: "from \<noteq> to" and sub: "sub_balance e from quantity (accounts s) = Inr t"
    and add: "add_balance e to quantity t = Inr t'" and s': "s' = s\<lparr>accounts := t'\<rparr>"
    by (auto simp: transfer_def split: option.splits)
  note qr = valid_quantity [OF assms(1) q(1)]
  note A = sub_balance_effect [OF assms(1) qr _ sub token_inv_rows(2) [OF assms(2)]]
  have wf: "twf (accounts s)" "twf t"
    using token_inv_wf [OF assms(2)] A(1) by simp_all
  have "in_range b" if "tfind (to, code_of quantity) t = Some b" for b
    using that ne A(5) [OF wf(1)] token_inv_rows(2) [OF assms(2)] by simp
  note B = add_balance_effect [OF assms(1) qr wf(2) add this less_imp_le [OF q(2)]]
  have "account_ok (stats s) c b" if row: "tfind (owner, c) t' = Some b" for owner c b
    using row q(2,3) st ne A(3,4,5) [OF wf(1)] B(4) acc_amount_nonneg [OF assms(2), of to]
      token_inv_rows(1) [OF assms(2)]
    by (auto simp: account_ok_def split: if_splits)
  with assms(2) B(1,2) A(2) [OF wf(1)] show ?thesis
    unfolding s' by (intro token_inv_accounts) auto
qed

lemma token_inv_supply:
  assumes inv: "token_inv s" and st: "tfind c0 (stats s) = Some st" and t: "twf t"
    and circ: "\<And>c. circulating c t = circulating c (accounts s) + (if c = c0 then d else 0)"
    and ns: "symbol ns = symbol (st_supply st)" "amount ns = amount (st_supply st) + d"
      "0 \<le> amount ns" "amount ns \<le> amount (st_max_supply st)"
    and rows: "\<And>owner c b. tfind (owner, c) t = Some b \<Longrightarrow> account_ok (stats s) c b"
  shows "token_inv (s\<lparr>stats := AList.update c0 (st\<lparr>st_supply := ns\<rparr>) (stats s), accounts := t\<rparr>)"
proof -
  note F = stat_facts [OF inv st]
  have "stat_ok t c st'" if "tfind c (AList.update c0 (st\<lparr>st_supply := ns\<rparr>) (stats s)) = Some st'" for c st'
    using that inv F circ ns by (auto simp: token_inv_def stat_ok_def split: if_splits)
  moreover have "account_ok (AList.update c0 (st\<lparr>st_supply := ns\<rparr>) (stats s)) c b"
    if "tfind (owner, c) t = Some b" for owner c b
    using rows [OF that] st ns(1) by (auto simp: account_ok_def)
  ultimately show ?thesis
    using inv t circ by (auto simp: token_inv_def)
qed

lemma token_inv_issue:
  assumes "asset_laws e" "token_inv s" "issue e to quantity memo s = Inr (s', acts)"
  shows "token_inv s'"
proof -
  from assms(3) obtain st ns t where st: "tfind (code_of quantity) (stats s) = Some st"
    and q: "asset_is_valid e quantity" "0 < amount quantity" "symbol quantity = symbol (st_supply st)"
    and le: "amount quantity \<le> i64 (amount (st_max_supply st) - amount (st_supply st))"
    and ns: "asset_plus e (st_supply st) quantity = Inr ns"
    and add: "add_balance e (st_issuer st) quantity (accounts s) = Inr t"
    and s': "s' = s\<lparr>stats := AList.update (code_of quantity) (st\<lparr>st_supply := ns\<rparr>) (stats s), accounts := t\<rparr>"
    by (auto simp: issue_def split: option.splits)
  note qr = valid_quantity [OF assms(1) q(1)]
  note F = stat_facts [OF assms(2) st]
  have le': "amount (st_supply st) + amount quantity \<le> amount (st_max_supply st)"
    using le F by (subst (asm) i64_small) (auto simp: max_amount_def)
  have ns': "ns = mk_asset (amount (st_supply st) + amount quantity) (symbol (st_supply st))"
    using ns F(7) qr assms(1) by (simp add: asset_plus_law split: if_splits)
  have wf: "twf (accounts s)" using token_inv_wf [OF assms(2)] by simp
  note B = add_balance_effect [OF assms(1) qr wf add token_inv_rows(2) [OF assms(2)] less_imp_le [OF q(2)]]
  have rows: "account_ok (stats s) c b" if row: "tfind (owner, c) t = Some b" for owner c b
    using row q(2,3) st B(4) acc_amount_nonneg [OF assms(2), of "st_issuer st"]
      token_inv_rows(1) [OF assms(2)]
    by (auto simp: account_ok_def split: if_splits)
  show ?thesis
    unfolding s' by (rule token_inv_supply [OF assms(2) st, where d = "amount quantity"])
      (use B(1,2) rows le' ns' F q(2) in auto)
qed

lemma token_inv_retire:
  assumes "asset_laws e" "token_inv s" "retire e quantity memo s = Inr s'"
  shows "token_inv s'"
proof -
  from assms(3) obtain st ns t where st: "tfind (code_of quantity) (stats s) = Some st"
    and q: "asset_is_valid e quantity" "0 < amount quantity" "symbol quantity = symbol (st_supply st)"
    and ns: "asset_minus e (st_supply st) quantity = Inr ns"
    and sub: "sub_balance e (st_issuer st) quantity (accounts s) = Inr t"
    and s': "s' = s\<lparr>stats := AList.update (code_of quantity) (st\<lparr>st_supply := ns\<rparr>) (stats s), accounts := t\<rparr>"
    by (auto simp: retire_def split: option.splits)
  note qr = valid_quantity [OF assms(1) q(1)]
  note F = stat_facts [OF assms(2) st]
  have ns': "ns = mk_asset (amount (st_supply st) - amount quantity) (symbol (st_supply st))"
    using ns F(7) qr assms(1) by (simp add: asset_minus_law split: if_splits)
  have wf: "twf (accounts s)" using token_inv_wf [OF assms(2)] by simp
  note A = sub_balance_effect [OF assms(1) qr wf sub token_inv_rows(2) [OF assms(2)]]
  have "amount quantity \<le> circulating (code_of quantity) (accounts s)"
    using A(4) q(2) account_le_circulating [OF assms(2), of "st_issuer st" "code_of quantity"]
    by (fastforce simp: acc_amount_def split: option.splits)
  then have le: "amount quantity \<le> amount (st_supply st)" using F(6) by simp
  have rows: "account_ok (stats s) c b" if row: "tfind (owner, c) t = Some b" for owner c b
    using row q(3) st A(4,5) token_inv_rows(1) [OF assms(2)]
    by (auto simp: account_ok_def split: if_splits)
  show ?thesis
    unfolding s' by (rule token_inv_supply [OF assms(2) st, where d = "- amount quantity"])
      (use A(1,2) rows le ns' F q(2) in auto)
qed

lemma token_inv_create:
  assumes "asset_laws e" "token_inv s" "create e iss m s = Inr s'"
  shows "token_inv s'"
proof -
  from assms(3) have m: "asset_is_valid e m" "0 < amount m" and fresh: "tfind (code_of m) (stats s) = None"
    and s': "s' = s\<lparr>stats := (code_of m, \<lparr>st_supply = mk_asset 0 (symbol m), st_max_supply = m,
      st_issuer = iss\<rparr>) # stats s\<rparr>"
    by (auto simp: create_def)
  have "amount m \<le> max_amount"
    using valid_quantity [OF assms(1) m(1)] by (simp add: in_range_def)
  moreover have "tfind (owner, code_of m) (accounts s) = None" for owner
    using token_inv_rows(1) [OF assms(2), of owner "code_of m"] fresh
    by (cases "tfind (owner, code_of m) (accounts s)") (auto simp: account_ok_def)
  ultimately show ?thesis
    using m fresh assms(2)
    unfolding s' by (auto simp: token_inv_def stat_ok_def account_ok_def)
qed

lemma token_inv_open:
  assumes "token_inv s" "open_account e owner sy payer s = Inr s'"
  shows "token_inv s'"
proof -
  obtain st where st: "tfind (sym_code sy) (stats s) = Some st" "symbol (st_supply st) = sy"
    and s': "s' = s \<or> tfind (owner, sym_code sy) (accounts s) = None \<and>
      s' = s\<lparr>accounts := ((owner, sym_code sy), mk_asset 0 sy) # accounts s\<rparr>"
    using assms(2) by (auto simp: open_account_def split: option.splits)
  have "token_inv (s\<lparr>accounts := ((owner, sym_code sy), mk_asset 0 sy) # accounts s\<rparr>)"
    if "tfind (owner, sym_code sy) (accounts s) = None"
    using that st assms(1) token_inv_wf [OF assms(1)]
    by (intro token_inv_accounts) (auto simp: circulating_def token_inv_def account_ok_def split: if_splits)
  with s' assms(1) show ?thesis by auto
qed

lemma token_inv_close:
  assumes "token_inv s" "close_account e owner sy s = Inr s'"
  shows "token_inv s'"
proof -
  obtain b where b: "tfind (owner, sym_code sy) (accounts s) = Some b" "amount b = 0"
    and s': "s' = s\<lparr>accounts := terase (owner, sym_code sy) (accounts s)\<rparr>"
    using assms(2) by (auto simp: close_account_def split: option.splits)
  show ?thesis
    unfolding s' using b assms(1) token_inv_wf [OF assms(1)] token_inv_rows(1) [OF assms(1)]
    by (intro token_inv_accounts) (auto simp: circulating_def tsum_terase split: if_splits)
qed

lemma token_inv_apply:
  assumes "asset_laws e" "token_inv s" "token_apply e a s = Inr (s', acts)"
  shows "token_inv s'"
  using assms
  by (cases a) (auto intro: token_inv_create token_inv_issue token_inv_transfer token_inv_open
      token_inv_close token_inv_retire)

lemma asset_laws_inline_env [simp]: "asset_laws (inline_env e levels) \<longleftrightarrow> asset_laws e"
  by (simp add: asset_laws_def inline_env_def)

lemma asset_laws_self [simp]: "asset_laws (e\<lparr>self := n\<rparr>) \<longleftrightarrow> asset_laws e"
  by (simp add: asset_laws_def)

lemma token_inv_run_inline:
  "asset_laws e \<Longrightarrow> token_inv s \<Longrightarrow> run_inline e xs s = Inr s' \<Longrightarrow> token_inv s'"
proof (induction e xs s rule: run_inline.induct)
  case (3 e levels a rest s)
  then obtain s1 acts where s1: "token_apply (inline_env e levels) a s = Inr (s1, acts)"
    by (auto split: sum.splits)
  moreover have "token_inv s1"
    using token_inv_apply [OF _ "3.prems"(2) s1] "3.prems"(1) by simp
  ultimately show ?case using "3.IH" "3.prems" by auto
qed simp_all

end
