(* ===== verification/Token_Service.thy ===== *)
theory Token_Service
  imports Eosio_Token
begin

text \<open>
  What the token contract promises: conservation of every token over all reachable states,
  the exact conditions and effects of its actions, and the interface \<open>token_ledger\<close> through
  which the system contract's proofs see the transfers it sends.
\<close>

section \<open>Reachable states\<close>

text \<open>The contract starts with empty tables; a step is one action pushed by a user.\<close>

definition token_init :: token_state where
  "token_init = \<lparr>stats = [], accounts = []\<rparr>"

inductive token_reachable :: "token_state \<Rightarrow> bool" where
  start: "token_reachable token_init"
| step: "token_reachable s \<Longrightarrow> asset_laws (e :: env) \<Longrightarrow> token_transact e a s = Inr s' \<Longrightarrow>
     token_reachable s'"

lemma token_inv_init: "token_inv token_init"
  by (simp add: token_inv_def token_init_def circulating_def)

lemma token_inv_transact:
  assumes "asset_laws e" "token_inv s" "token_transact e a s = Inr s'"
  shows "token_inv s'"
proof -
  from assms(3) obtain s1 acts where a: "token_apply (e\<lparr>self := token_account\<rparr>) a s = Inr (s1, acts)"
    and r: "run_inline e acts s1 = Inr s'"
    by (auto simp: token_transact_def)
  have "token_inv s1"
    by (rule token_inv_apply [OF _ assms(2) a]) (simp add: assms(1))
  then show ?thesis by (rule token_inv_run_inline [OF assms(1) _ r])
qed

lemma reachable_token_inv: "token_reachable s \<Longrightarrow> token_inv s"
proof (induction rule: token_reachable.induct)
  case start
  show ?case by (rule token_inv_init)
next
  case (step s e a s')
  then show ?case by (blast intro: token_inv_transact)
qed

text \<open>
  C1. In every state the token contract can reach, through any sequence of actions by any
  users, for every token the sum of all balances is exactly the recorded supply, the supply
  lies between zero and the maximum supply, and no account holds a negative amount.
\<close>

theorem token_conservation:
  assumes "token_reachable s" and "tfind c (stats s) = Some st"
  shows "circulating c (accounts s) = amount (st_supply st) \<and>
    0 \<le> amount (st_supply st) \<and> amount (st_supply st) \<le> amount (st_max_supply st) \<and>
    (\<forall>owner. 0 \<le> balance s owner c)"
proof -
  have inv: "token_inv s" using assms(1) by (rule reachable_token_inv)
  show ?thesis
    using stat_facts [OF inv assms(2)] acc_amount_nonneg [OF inv] by (simp add: balance_acc_amount)
qed

text \<open>
  C2. Types of the token contract's rows, in every reachable state: the tables hold at most one
  row per key; a \<open>currency_stats\<close> row is filed under the code of its supply's symbol, its
  maximum has the same symbol, and both amounts are valid asset amounts; an \<open>account\<close>
  row belongs to an existing token, is denominated in the very symbol of that token (same
  precision) and holds a valid amount that is not more than the supply.
\<close>

theorem token_rows_typed:
  assumes "token_reachable s"
  shows "distinct (map fst (stats s)) \<and> distinct (map fst (accounts s)) \<and>
    (\<forall>(c, st) \<in> set (stats s).
       sym_code (symbol (st_supply st)) = c \<and> symbol (st_max_supply st) = symbol (st_supply st) \<and>
       in_range (st_supply st) \<and> in_range (st_max_supply st)) \<and>
    (\<forall>((owner, c), b) \<in> set (accounts s). \<exists>st. (c, st) \<in> set (stats s) \<and>
       symbol b = symbol (st_supply st) \<and> in_range b \<and> 0 \<le> amount b \<and>
       amount b \<le> amount (st_supply st))"
proof -
  have inv: "token_inv s" using assms by (rule reachable_token_inv)
  have d: "distinct (map fst (stats s))" "distinct (map fst (accounts s))"
    using token_inv_wf [OF inv] by (simp_all add: twf_def)
  have st: "sym_code (symbol (st_supply st)) = c \<and> symbol (st_max_supply st) = symbol (st_supply st) \<and>
      in_range (st_supply st) \<and> in_range (st_max_supply st)" if "(c, st) \<in> set (stats s)" for c st
    using stat_facts [OF inv, of c st] that d(1) by (simp add: in_range_def)
  have "\<exists>st. (c, st) \<in> set (stats s) \<and> symbol b = symbol (st_supply st) \<and> in_range b \<and>
      0 \<le> amount b \<and> amount b \<le> amount (st_supply st)"
    if "((owner, c), b) \<in> set (accounts s)" for owner c b
    using account_facts [OF inv, of owner c b] that d(2) by (metis map_of_SomeD map_of_is_SomeI)
  with d st show ?thesis by fastforce
qed

section \<open>Transfer\<close>

text \<open>When the balance covers the amount, taking it and adding it both succeed.\<close>

lemma sub_balance_ok:
  assumes "asset_laws e" "token_inv s" "in_range q" "0 < amount q"
    and "tfind (code_of q) (stats s) = Some st" "symbol q = symbol (st_supply st)"
    and "amount q \<le> balance s owner (code_of q)"
  shows "\<exists>t. sub_balance e owner q (accounts s) = Inr t"
proof -
  obtain b where b: "tfind (owner, code_of q) (accounts s) = Some b" "amount q \<le> amount b"
    using assms(4,7) by (auto simp: balance_def split: option.splits)
  obtain st' where "tfind (code_of q) (stats s) = Some st'" "symbol b = symbol (st_supply st')" "in_range b"
    using account_facts [OF assms(2) b(1)] by metis
  then have "symbol b = symbol q" "\<bar>amount b - amount q\<bar> \<le> max_amount" "in_range b"
    using assms(3-6) b(2) by (auto simp: in_range_def)
  then show ?thesis
    using b assms(3) by (simp add: sub_balance_def asset_minus_law [OF assms(1)])
qed

lemma add_balance_ok:
  assumes "asset_laws e" "in_range q"
    and "\<And>b. tfind (owner, code_of q) t = Some b \<Longrightarrow> symbol b = symbol q \<and> in_range b \<and>
      \<bar>amount b + amount q\<bar> \<le> max_amount"
  shows "\<exists>t'. add_balance e owner q t = Inr t'"
  using assms by (auto simp: add_balance_def asset_plus_law split: option.splits)

lemma two_balances_le_circulating:
  assumes inv: "token_inv s" and "a \<noteq> b"
  shows "balance s a c + balance s b c \<le> circulating c (accounts s)"
proof (cases "tfind (a, c) (accounts s)")
  case None
  then show ?thesis
    using account_le_circulating [OF inv] acc_amount_nonneg [OF inv] tab.total_nonneg
      [of "accounts s" "\<lambda>(_, c') b. if c' = c then amount b else 0"] token_inv_rows(1) [OF inv]
    by (fastforce simp: balance_def circulating_def token_inv_wf [OF inv] account_ok_def split: option.splits)
next
  case (Some x)
  define w where "w = (\<lambda>(_ :: name, c' :: 64 word) (b :: asset). if c' = c then amount b else 0)"
  define t where "t = terase (a, c) (accounts s)"
  have wf: "twf (accounts s)" "twf t"
    using token_inv_wf [OF inv] by (simp_all add: t_def)
  have t: "tsum w t = circulating c (accounts s) - amount x"
    using Some wf by (simp add: t_def tsum_terase circulating_def w_def)
  have pos: "0 \<le> w k v" if "tfind k t = Some v" for k v
    using that token_inv_rows(1) [OF inv, of "fst k" "snd k"]
    by (auto simp: t_def w_def account_ok_def split: if_splits prod.splits)
  have "balance s b c \<le> tsum w t"
  proof (cases "tfind (b, c) (accounts s)")
    case None
    then show ?thesis using tab.total_nonneg [OF wf(2), of w] pos by (simp add: balance_def)
  next
    case (Some y)
    then have "tfind (b, c) t = Some y" using assms(2) by (simp add: t_def)
    then show ?thesis
      using tab.row_le_total [where f = w, OF wf(2) _ pos] Some by (fastforce simp: balance_def w_def)
  qed
  with Some t show ?thesis by (simp add: balance_def)
qed

lemma transfer_goes_through:
  assumes "asset_laws e" and "token_inv s"
    and R: "from \<noteq> to" "has_auth e from" "is_account e to" "asset_is_valid e q" "0 < amount q" "length memo \<le> 256"
    and st: "tfind (code_of q) (stats s) = Some st" "symbol q = symbol (st_supply st)"
    and covered: "amount q \<le> balance s from (code_of q)"
  shows "\<exists>s'. transfer e from to q memo s = Inr s'"
proof -
  have qr: "in_range q" using R(4) valid_quantity [OF assms(1)] by blast
  obtain t where t: "sub_balance e from q (accounts s) = Inr t"
    using sub_balance_ok [OF assms(1,2) qr R(5) st covered] by blast
  have "in_range b" if "tfind (from, code_of q) (accounts s) = Some b" for b
    using that by (rule token_inv_rows(2) [OF assms(2)])
  moreover have "to \<noteq> from" using R(1) by blast
  ultimately have row: "tfind (to, code_of q) t = tfind (to, code_of q) (accounts s)"
    using sub_balance_effect(5) [OF assms(1) qr _ t, where k = "(to, code_of q)"]
      token_inv_wf [OF assms(2)] by simp
  have "balance s from (code_of q) + balance s to (code_of q) \<le> max_amount"
    using two_balances_le_circulating [OF assms(2), of "from" to "code_of q"] R(1)
      stat_facts(4-6) [OF assms(2) st(1)] by linarith
  then have sum: "amount q + balance s to (code_of q) \<le> max_amount"
    using covered by linarith
  have "symbol b = symbol q \<and> in_range b \<and> \<bar>amount b + amount q\<bar> \<le> max_amount"
    if "tfind (to, code_of q) t = Some b" for b
  proof -
    have b: "tfind (to, code_of q) (accounts s) = Some b" using that row by simp
    obtain st' where "tfind (code_of q) (stats s) = Some st'" "symbol b = symbol (st_supply st')"
      "0 \<le> amount b" "in_range b"
      using account_facts [OF assms(2) b] by metis
    moreover have "balance s to (code_of q) = amount b" using b by (simp add: balance_def)
    moreover have "0 < amount q" by (rule R(5))
    ultimately show ?thesis using st sum by simp
  qed
  then obtain t' where "add_balance e to q t = Inr t'"
    using add_balance_ok [OF assms(1) qr] by blast
  then show ?thesis
    using R st t by (simp add: transfer_def)
qed

text \<open>
  C3. A transfer succeeds exactly when all of its stated conditions hold: distinct accounts,
  the sender's authority, an existing receiver, an existing token of the same precision, a
  valid positive amount the sender's balance covers, and a memo of at most 256 bytes. In
  particular it never fails for an overflow of the receiver's balance.
\<close>

theorem transfer_succeeds_iff:
  assumes "asset_laws e" and "token_inv s"
  shows "(\<exists>s'. transfer e from to q memo s = Inr s') \<longleftrightarrow>
    from \<noteq> to \<and> has_auth e from \<and> is_account e to \<and> asset_is_valid e q \<and> 0 < amount q \<and>
    length memo \<le> 256 \<and>
    (\<exists>st. tfind (code_of q) (stats s) = Some st \<and> symbol q = symbol (st_supply st)) \<and>
    amount q \<le> balance s from (code_of q)"
    (is "?L \<longleftrightarrow> ?R")
proof
  assume ?L
  then show ?R
    using valid_quantity [OF assms(1)] sub_balance_effect(4) [OF assms(1)] token_inv_rows(2) [OF assms(2)]
      token_inv_wf [OF assms(2)]
    by (fastforce simp: transfer_def balance_acc_amount split: option.splits)
next
  assume ?R
  then show ?L using transfer_goes_through [OF assms] by blast
qed

text \<open>The abstract ledger: what each account holds of each token.\<close>

type_synonym ledger = "name \<Rightarrow> 64 word \<Rightarrow> int"

definition ledger_add :: "name \<Rightarrow> 64 word \<Rightarrow> int \<Rightarrow> ledger \<Rightarrow> ledger" where
  "ledger_add n c x L = (\<lambda>m d. L m d + (if m = n \<and> d = c then x else 0))"

lemma transfer_effect:
  assumes "asset_laws e" "token_inv s" "transfer e from to q memo s = Inr s'"
  shows "balance s' = ledger_add to (code_of q) (amount q) (ledger_add from (code_of q) (- amount q) (balance s))"
    and "stats s' = stats s"
proof -
  from assms(3) obtain t t' where q: "asset_is_valid e q" "0 < amount q"
    and ne: "from \<noteq> to" and sub: "sub_balance e from q (accounts s) = Inr t"
    and add: "add_balance e to q t = Inr t'" and s': "s' = s\<lparr>accounts := t'\<rparr>"
    by (auto simp: transfer_def split: option.splits)
  note qr = valid_quantity [OF assms(1) q(1)]
  note A = sub_balance_effect [OF assms(1) qr _ sub token_inv_rows(2) [OF assms(2)]]
  have wf: "twf (accounts s)" "twf t"
    using token_inv_wf [OF assms(2)] A(1) by simp_all
  have "in_range b" if "tfind (to, code_of q) t = Some b" for b
    using that ne A(5) [OF wf(1)] token_inv_rows(2) [OF assms(2)] by simp
  note B = add_balance_effect [OF assms(1) qr wf(2) add this less_imp_le [OF q(2)]]
  show "balance s' = ledger_add to (code_of q) (amount q) (ledger_add from (code_of q) (- amount q) (balance s))"
    using A(3) [OF wf(1)] B(3) s' by (auto simp: fun_eq_iff balance_acc_amount ledger_add_def)
  show "stats s' = stats s" using s' by simp
qed

text \<open>
  C4. A successful transfer refines the abstract ledger: it takes the amount from the sender,
  gives it to the receiver, leaves every other balance of every token as it was and does not
  touch any supply.
\<close>

theorem transfer_refines_ledger:
  assumes "asset_laws e" "token_inv s" "transfer e from to q memo s = Inr s'"
  shows "balance s' = ledger_add to (code_of q) (amount q)
      (ledger_add from (code_of q) (- amount q) (balance s)) \<and> stats s' = stats s"
  using transfer_effect [OF assms] by simp

section \<open>Issue and retire\<close>

lemma issue_effect:
  assumes "asset_laws e" "token_inv s" "issue e to q memo s = Inr (s', acts)"
  obtains st where "tfind (code_of q) (stats s) = Some st" "has_auth e (st_issuer st)"
    "balance s' = ledger_add (st_issuer st) (code_of q) (amount q) (balance s)"
    "acts = (if to = st_issuer st then [] else [send_transfer [st_issuer st] (st_issuer st) to q memo])"
    "stats s' = AList.update (code_of q)
       (st\<lparr>st_supply := mk_asset (amount (st_supply st) + amount q) (symbol q)\<rparr>) (stats s)"
proof -
  from assms(3) obtain st ns t where st: "tfind (code_of q) (stats s) = Some st"
    and auth: "has_auth e (st_issuer st)"
    and q: "asset_is_valid e q" "0 < amount q" "symbol q = symbol (st_supply st)"
    and ns: "asset_plus e (st_supply st) q = Inr ns"
    and add: "add_balance e (st_issuer st) q (accounts s) = Inr t"
    and s': "s' = s\<lparr>stats := AList.update (code_of q) (st\<lparr>st_supply := ns\<rparr>) (stats s), accounts := t\<rparr>"
    and acts: "acts = (if to \<noteq> st_issuer st
                then [send_transfer [st_issuer st] (st_issuer st) to q memo] else [])"
    by (auto simp: issue_def split: option.splits)
  note qr = valid_quantity [OF assms(1) q(1)]
  have ns': "ns = mk_asset (amount (st_supply st) + amount q) (symbol q)"
    using ns stat_facts(7) [OF assms(2) st] qr q(3) assms(1) by (simp add: asset_plus_law split: if_splits)
  note B = add_balance_effect [OF assms(1) qr _ add token_inv_rows(2) [OF assms(2)] less_imp_le [OF q(2)]]
  have "balance s' = ledger_add (st_issuer st) (code_of q) (amount q) (balance s)"
    using B(3) token_inv_wf [OF assms(2)] s' by (auto simp: fun_eq_iff balance_acc_amount ledger_add_def)
  with that [of st] st auth ns' s' acts show ?thesis by simp
qed

text \<open>
  C5. Issuing tokens, together with the inline transfer it sends, increases the supply and the
  receiver's balance by exactly the amount, and changes no other balance: the issuer only
  passes the new tokens on.
\<close>

theorem issue_transaction:
  assumes "asset_laws e" "token_inv s" "token_transact e (Issue to q memo) s = Inr s'"
  shows "balance s' = ledger_add to (code_of q) (amount q) (balance s) \<and>
    (\<exists>st st'. tfind (code_of q) (stats s) = Some st \<and> tfind (code_of q) (stats s') = Some st' \<and>
       has_auth e (st_issuer st) \<and> amount (st_supply st') = amount (st_supply st) + amount q)"
proof -
  let ?e = "e\<lparr>self := token_account\<rparr>"
  obtain s1 acts where i: "issue ?e to q memo s = Inr (s1, acts)" and r: "run_inline e acts s1 = Inr s'"
    using assms(3) by (auto simp: token_transact_def)
  have e: "asset_laws ?e" using assms(1) by simp
  obtain st where st: "tfind (code_of q) (stats s) = Some st" "has_auth ?e (st_issuer st)"
    and b1: "balance s1 = ledger_add (st_issuer st) (code_of q) (amount q) (balance s)"
    and acts: "acts = (if to = st_issuer st then [] else [send_transfer [st_issuer st] (st_issuer st) to q memo])"
    and st1: "stats s1 = AList.update (code_of q)
       (st\<lparr>st_supply := mk_asset (amount (st_supply st) + amount q) (symbol q)\<rparr>) (stats s)"
    using issue_effect [OF e assms(2) i] by metis
  have inv1: "token_inv s1" using token_inv_issue [OF e assms(2) i] .
  have "balance s' = ledger_add to (code_of q) (amount q) (balance s) \<and> stats s' = stats s1"
  proof (cases "to = st_issuer st")
    case True
    then show ?thesis using r b1 acts by simp
  next
    case False
    let ?e' = "inline_env e [PermissionLevel (st_issuer st) active_permission]"
    have e': "asset_laws ?e'" using assms(1) by simp
    have t: "transfer ?e' (st_issuer st) to q memo s1 = Inr s'"
      using False r acts by (auto simp: send_transfer_def split: sum.splits)
    show ?thesis
      using transfer_effect [OF e' inv1 t] b1 by (auto simp: fun_eq_iff ledger_add_def)
  qed
  with st st1 show ?thesis by auto
qed

section \<open>The interface to contracts that send token actions\<close>

text \<open>
  A contract that sends token actions relies on this: each of them changes every account's
  balance by a known flow, keeps the provider's invariant and never makes a balance negative.
  Then a list of them changes a balance by the sum of the flows, and a debt that is covered
  before stays covered when it grows by no more than what flows in.
\<close>

locale token_ledger =
  fixes inv :: "'s \<Rightarrow> bool" and bal :: "'s \<Rightarrow> 'n \<Rightarrow> int"
    and exec :: "'a \<Rightarrow> 's \<Rightarrow> 's res" and ok :: "'a \<Rightarrow> bool" and flow :: "'a \<Rightarrow> 'n \<Rightarrow> int"
  assumes exec_inv: "inv s \<Longrightarrow> ok a \<Longrightarrow> exec a s = Inr s' \<Longrightarrow> inv s'"
    and exec_flow: "inv s \<Longrightarrow> ok a \<Longrightarrow> exec a s = Inr s' \<Longrightarrow> bal s' n = bal s n + flow a n"
    and bal_nonneg: "inv s \<Longrightarrow> 0 \<le> bal s n"
begin

lemma run_flow:
  "inv s \<Longrightarrow> list_all ok xs \<Longrightarrow> efold exec xs s = Inr s' \<Longrightarrow>
     inv s' \<and> bal s' n = bal s n + (\<Sum>a\<leftarrow>xs. flow a n)"
proof (induction xs arbitrary: s)
  case (Cons a xs)
  then obtain s1 where s1: "exec a s = Inr s1" "efold exec xs s1 = Inr s'" by auto
  then show ?case
    using Cons.IH [of s1] Cons.prems exec_inv [OF _ _ s1(1)] exec_flow [OF _ _ s1(1), of n] by simp
qed simp

lemma run_covered:
  assumes "inv s" "list_all ok xs" "efold exec xs s = Inr s'"
    and "owed \<le> bal s n" "owed' \<le> owed + (\<Sum>a\<leftarrow>xs. flow a n)"
  shows "owed' \<le> bal s' n"
  using run_flow [OF assms(1-3), of n] assms(4,5) by simp

lemma outflow_bounded:
  assumes "inv s" "list_all ok xs" "efold exec xs s = Inr s'"
  shows "- (\<Sum>a\<leftarrow>xs. flow a n) \<le> bal s n"
  using run_flow [OF assms, of n] bal_nonneg [of s' n] by simp

end

fun inline_ok :: "inline_action \<Rightarrow> bool" where
  "inline_ok (TokenAction _ (Retire _ _)) = False"
| "inline_ok _ = True"

fun inline_flow :: "64 word \<Rightarrow> inline_action \<Rightarrow> name \<Rightarrow> int" where
  "inline_flow c (TokenAction _ (Transfer from to q _)) n =
     (if code_of q = c then (if n = to then amount q else 0) - (if n = from then amount q else 0) else 0)"
| "inline_flow c (TokenAction _ (Issue to q _)) n = (if code_of q = c \<and> n = to then amount q else 0)"
| "inline_flow c _ n = 0"

lemma run_inline_Cons:
  "run_inline e (x # xs) s = ebind (run_inline e [x] s) (run_inline e xs)"
proof -
  have "run_inline e (xs @ ys) s = ebind (run_inline e xs s) (run_inline e ys)" for xs ys
    by (induction e xs s rule: run_inline.induct) (auto split: sum.splits)
  from this [of "[x]" xs] show ?thesis by simp
qed

lemma run_inline_efold: "run_inline e xs s = efold (\<lambda>a. run_inline e [a]) xs s"
proof (induction xs arbitrary: s)
  case (Cons x xs)
  show ?case
    by (subst run_inline_Cons, cases "run_inline e [x] s") (simp_all add: Cons.IH del: run_inline.simps)
qed simp

lemma create_balance: "create e iss m s = Inr s' \<Longrightarrow> balance s' = balance s"
  by (auto simp: create_def balance_def fun_eq_iff)

lemma open_balance: "open_account e owner sy payer s = Inr s' \<Longrightarrow> balance s' = balance s"
  by (auto simp: open_account_def balance_def fun_eq_iff split: option.splits if_splits)

lemma close_balance: "token_inv s \<Longrightarrow> close_account e owner sy s = Inr s' \<Longrightarrow> balance s' = balance s"
  by (auto simp: close_account_def balance_def fun_eq_iff token_inv_wf split: option.splits if_splits)

lemma token_action_flow:
  assumes e: "asset_laws e'" "asset_laws e" and inv: "token_inv s" and nr: "inline_ok (TokenAction levels act)"
    and s1: "token_apply e' act s = Inr (s1, acts)" "run_inline e acts s1 = Inr s'"
  shows "balance s' n c = balance s n c + inline_flow c (TokenAction levels act) n"
proof (cases act)
  case (Issue to q memo)
  then have i: "issue e' to q memo s = Inr (s1, acts)" using s1(1) by simp
  obtain st :: currency_stats where b1: "balance s1 = ledger_add (st_issuer st) (code_of q) (amount q) (balance s)"
    and acts: "acts = (if to = st_issuer st then [] else [send_transfer [st_issuer st] (st_issuer st) to q memo])"
    by (rule issue_effect [OF e(1) inv i]) blast
  have inv1: "token_inv s1" using token_inv_apply [OF e(1) inv s1(1)] .
  have "balance s' = ledger_add to (code_of q) (amount q) (balance s)"
  proof (cases "to = st_issuer st")
    case True
    with s1(2) acts b1 show ?thesis by simp
  next
    case False
    let ?f = "inline_env e [PermissionLevel (st_issuer st) active_permission]"
    have f: "asset_laws ?f" using e(2) by simp
    have "transfer ?f (st_issuer st) to q memo s1 = Inr s'"
      using False s1(2) acts by (auto simp: send_transfer_def split: sum.splits)
    then show ?thesis
      using transfer_effect(1) [OF f inv1] b1 by (auto simp: fun_eq_iff ledger_add_def)
  qed
  then show ?thesis using Issue by (simp add: ledger_add_def)
next
  case (Transfer src to q memo)
  then have "transfer e' src to q memo s = Inr s'" using s1 by auto
  then show ?thesis
    using transfer_effect(1) [OF e(1) inv] Transfer by (simp add: ledger_add_def)
qed (use s1 inv nr in \<open>auto simp: create_balance open_balance close_balance\<close>)

lemma inline_flow_exact:
  assumes "asset_laws e" "token_inv s" "inline_ok a" "run_inline e [a] s = Inr s'"
  shows "balance s' n c = balance s n c + inline_flow c a n"
proof (cases a)
  case (RexResult r)
  with assms(4) show ?thesis by simp
next
  case (TokenAction levels act)
  obtain s1 acts where s1: "token_apply (inline_env e levels) act s = Inr (s1, acts)" "run_inline e acts s1 = Inr s'"
    using assms(4) TokenAction by (auto split: sum.splits)
  show ?thesis
    using token_action_flow [OF _ assms(1,2) _ s1, of levels n c] assms(1,3) TokenAction by simp
qed

interpretation ledger: token_ledger "\<lambda>s. token_inv s \<and> asset_laws e" "\<lambda>s n. balance s n c"
  "\<lambda>a. run_inline e [a]" inline_ok "inline_flow c" for e c
proof unfold_locales
  fix s s' :: token_state and a n
  assume "token_inv s \<and> asset_laws e"
  then show "0 \<le> balance s n c"
    by (simp add: acc_amount_nonneg balance_acc_amount)
next
  fix s s' :: token_state and a
  assume "token_inv s \<and> asset_laws e" "run_inline e [a] s = Inr s'"
  then show "token_inv s' \<and> asset_laws e" using token_inv_run_inline by blast
next
  fix s s' :: token_state and a n
  assume "token_inv s \<and> asset_laws e" "inline_ok a" "run_inline e [a] s = Inr s'"
  then show "balance s' n c = balance s n c + inline_flow c a n"
    using inline_flow_exact by blast
qed

section \<open>Positive amounts\<close>

text \<open>
  The token contract refuses a transfer whose amount is not positive, and then the whole
  transaction fails; so the sender may count on what it sends.
\<close>

fun positive :: "inline_action \<Rightarrow> bool" where
  "positive (TokenAction _ (Transfer from to q memo)) \<longleftrightarrow> 0 < amount q"
| "positive (TokenAction _ (Issue to q memo)) \<longleftrightarrow> 0 < amount q"
| "positive _ \<longleftrightarrow> True"

lemma applied_positive: "token_apply e a s = Inr (s', acts) \<Longrightarrow> positive (TokenAction levels a)"
  by (cases a) (auto simp: transfer_def issue_def split: option.splits)

lemma run_inline_positive: "run_inline e xs s = Inr s' \<Longrightarrow> list_all positive xs"
  by (induction e xs s rule: run_inline.induct) (auto simp: applied_positive split: sum.splits)

text \<open>The actions that take tokens from an account.\<close>

fun debits :: "name \<Rightarrow> inline_action \<Rightarrow> bool" where
  "debits n (TokenAction _ (Transfer from to q memo)) \<longleftrightarrow> from = n"
| "debits n (TokenAction _ (Retire q memo)) \<longleftrightarrow> True"
| "debits n _ \<longleftrightarrow> False"

lemma debits_send_transfer [simp]: "debits n (send_transfer signers from to q memo) \<longleftrightarrow> from = n"
  by (simp add: send_transfer_def)

lemma positive_flow:
  assumes "positive a" "\<not> debits n a"
  shows "inline_ok a" "0 \<le> inline_flow c a n"
  using assms by (induction n a rule: debits.induct) auto

text \<open>A list of actions none of which debits an account leaves it at least what it had.\<close>

lemma run_keeps_balance:
  assumes e: "asset_laws e" "token_inv s" and r: "run_inline e xs s = Inr s'"
    and d: "list_all (\<lambda>a. \<not> debits n a) xs"
  shows "balance s n c \<le> balance s' n c"
proof -
  have ok: "list_all inline_ok xs \<and> 0 \<le> (\<Sum>a\<leftarrow>xs. inline_flow c a n)"
    using d run_inline_positive [OF r] by (induction xs) (auto simp: positive_flow)
  show ?thesis
    using ledger.run_flow [OF _ _ r [unfolded run_inline_efold [of e xs s]], of n c] e ok by simp
qed

section \<open>What no action changes\<close>

text \<open>A token stays, and its maximum supply never changes.\<close>

lemma apply_keeps_max:
  assumes "token_apply e a s = Inr (s', acts)" "tfind c (stats s) = Some st"
  shows "\<exists>st'. tfind c (stats s') = Some st' \<and> st_max_supply st' = st_max_supply st"
  using assms
  by (cases a) (auto simp: create_def issue_def retire_def transfer_def open_account_def close_account_def Let_def
      split: option.splits if_split_asm)

lemma run_keeps_max:
  "run_inline e xs s = Inr s' \<Longrightarrow> tfind c (stats s) = Some st \<Longrightarrow>
     \<exists>st'. tfind c (stats s') = Some st' \<and> st_max_supply st' = st_max_supply st"
proof (induction e xs s arbitrary: st rule: run_inline.induct)
  case (3 e levels a rest s)
  then obtain s1 acts where s1: "token_apply (inline_env e levels) a s = Inr (s1, acts)"
    and r: "run_inline e (acts @ rest) s1 = Inr s'"
    by (auto split: sum.splits)
  obtain st1 where st1: "tfind c (stats s1) = Some st1" "st_max_supply st1 = st_max_supply st"
    using apply_keeps_max [OF s1 3(3)] by blast
  show ?case using 3(1) [OF s1 refl r st1(1)] st1(2) by simp
qed auto

lemma transact_keeps_max:
  assumes "token_transact e a s = Inr s'" "tfind c (stats s) = Some st"
  shows "\<exists>st'. tfind c (stats s') = Some st' \<and> st_max_supply st' = st_max_supply st"
proof -
  obtain s1 acts where s1: "token_apply (e\<lparr>self := token_account\<rparr>) a s = Inr (s1, acts)"
    and r: "run_inline e acts s1 = Inr s'"
    using assms(1) by (auto simp: token_transact_def)
  obtain st1 where "tfind c (stats s1) = Some st1" "st_max_supply st1 = st_max_supply st"
    using apply_keeps_max [OF s1 assms(2)] by blast
  with run_keeps_max [OF r] show ?thesis by metis
qed

text \<open>No balance is larger than the maximum supply of its token.\<close>

lemma balance_le_max:
  assumes inv: "token_inv s"
  shows "balance s n c \<le> (case tfind c (stats s) of None \<Rightarrow> 0 | Some st \<Rightarrow> amount (st_max_supply st))"
proof (cases "tfind (n, c) (accounts s)")
  case None
  then show ?thesis
    using stat_facts(3,4) [OF inv, of c] by (fastforce simp: balance_def split: option.splits)
next
  case (Some b)
  then obtain st where "tfind c (stats s) = Some st" "amount b \<le> amount (st_supply st)"
    using account_facts [OF inv Some] by metis
  with Some stat_facts(4) [OF inv] show ?thesis by (fastforce simp: balance_def)
qed

text \<open>Only its owner can make a balance smaller.\<close>

lemma unsigned_keeps_balance:
  assumes e: "asset_laws e" and inv: "token_inv s" and auth: "\<not> has_auth e n"
    and a: "token_transact e a s = Inr s'"
  shows "balance s n c \<le> balance s' n c"
proof -
  obtain s1 acts where s1: "token_apply (e\<lparr>self := token_account\<rparr>) a s = Inr (s1, acts)"
    and r: "run_inline e acts s1 = Inr s'"
    using a by (auto simp: token_transact_def)
  show ?thesis
  proof (cases a)
    case (Retire q memo)
    then have v: "asset_is_valid e q" using s1 by (auto simp: retire_def split: option.splits)
    obtain iss t where "has_auth e iss"
      and t: "sub_balance (e\<lparr>self := token_account\<rparr>) iss q (accounts s) = Inr t"
      and s1': "accounts s1 = t" "acts = []"
      using s1 Retire by (auto simp: retire_def split: option.splits)
    then have "n \<noteq> iss" "in_range q" using auth valid_quantity [OF e v] by auto
    then have "acc_amount t n c = acc_amount (accounts s) n c"
      using sub_balance_effect(3) [OF _ _ _ t token_inv_rows(2) [OF inv], where who = n and c = c] token_inv_wf [OF inv] e by simp
    then show ?thesis using s1' r by (simp add: balance_acc_amount)
  next
    case (Transfer src to q memo)
    then have "src \<noteq> n" "0 < amount q"
      using s1 auth by (auto simp: transfer_def split: option.splits)
    then show ?thesis
      using token_action_flow [OF _ e inv _ s1 r, of _ n c] e Transfer by simp
  next
    case (Issue to q memo)
    then have "0 < amount q" using s1 by (auto simp: issue_def split: option.splits)
    then show ?thesis
      using token_action_flow [OF _ e inv _ s1 r, of _ n c] e Issue by simp
  qed (use token_action_flow [OF _ e inv _ s1 r, of _ n c] e in simp_all)
qed

section \<open>Examples\<close>

text \<open>A token of 1000 units at most, 500 of them issued to alice by the system account.\<close>

definition eos :: "int \<Rightarrow> asset" where
  "eos n = mk_asset n eos_symbol"

definition demo_env :: "name list \<Rightarrow> env" where
  "demo_env signers = ref_env token_account signers [eosio_account, alice, bob] 0"

lemma asset_laws_demo_env: "asset_laws (demo_env signers)"
  by (simp add: demo_env_def asset_laws_ref_env)

definition demo_created :: token_state where
  "demo_created = \<lparr>
     stats = [(5459781, \<lparr>st_supply = eos 0, st_max_supply = eos 1000, st_issuer = eosio_account\<rparr>)],
     accounts = []\<rparr>"

definition demo_tokens :: token_state where
  "demo_tokens = \<lparr>
     stats = [(5459781, \<lparr>st_supply = eos 500, st_max_supply = eos 1000, st_issuer = eosio_account\<rparr>)],
     accounts = [((alice, 5459781), eos 500), ((eosio_account, 5459781), eos 0)]\<rparr>"

lemmas demo_token_defs = demo_env_def ref_env_def demo_created_def demo_tokens_def token_init_def
  eos_def mk_asset_def example_defs account_defs max_amount_def i64_def

lemma demo_create:
  "token_transact (demo_env [token_account]) (Create eosio_account (eos 1000)) token_init =
     Inr demo_created"
  by code_simp

lemma demo_issue:
  "token_transact (demo_env [eosio_account]) (Issue alice (eos 500) []) demo_created = Inr demo_tokens"
  by code_simp

lemma demo_reachable: "token_reachable demo_tokens"
  by (rule token_reachable.step [OF token_reachable.step [OF token_reachable.start
        asset_laws_demo_env demo_create] asset_laws_demo_env demo_issue])

lemma demo_token_inv: "token_inv demo_created" "token_inv demo_tokens"
  using token_inv_transact [OF asset_laws_demo_env token_inv_init demo_create]
    reachable_token_inv [OF demo_reachable] by simp_all

theorem token_conservation_witness:
  "circulating 5459781 (accounts demo_tokens) = 500 \<and> 0 \<le> balance demo_tokens bob 5459781"
proof -
  have "tfind 5459781 (stats demo_tokens) =
      Some \<lparr>st_supply = eos 500, st_max_supply = eos 1000, st_issuer = eosio_account\<rparr>"
    by (simp add: demo_tokens_def)
  from token_conservation [OF demo_reachable this] show ?thesis
    by (simp add: eos_def)
qed

theorem token_rows_typed_witness:
  "distinct (map fst (accounts demo_tokens)) \<and>
   (\<exists>st. (5459781, st) \<in> set (stats demo_tokens) \<and> symbol (eos 500) = symbol (st_supply st) \<and>
      amount (eos 500) \<le> amount (st_supply st))"
  using token_rows_typed [OF demo_reachable] by (fastforce simp: demo_tokens_def)

theorem transfer_succeeds_iff_witness:
  "(\<exists>s'. transfer (demo_env [alice]) alice bob (eos 200) [] demo_tokens = Inr s') \<and>
   \<not> (\<exists>s'. transfer (demo_env [alice]) alice bob (eos 501) [] demo_tokens = Inr s')"
  unfolding transfer_succeeds_iff [OF asset_laws_demo_env demo_token_inv(2)]
  by (simp add: demo_token_defs balance_def)

lemma demo_transfer:
  "transfer (demo_env [alice]) alice bob (eos 200) [] demo_tokens = Inr (demo_tokens\<lparr>accounts :=
     [((bob, 5459781), eos 200), ((alice, 5459781), eos 300), ((eosio_account, 5459781), eos 0)]\<rparr>)"
  by code_simp

theorem transfer_refines_ledger_witness:
  "\<exists>s'. transfer (demo_env [alice]) alice bob (eos 200) [] demo_tokens = Inr s' \<and>
     balance s' bob 5459781 = 200 \<and> balance s' alice 5459781 = 300"
proof -
  obtain s' where s': "transfer (demo_env [alice]) alice bob (eos 200) [] demo_tokens = Inr s'"
    using demo_transfer by blast
  note effect = transfer_refines_ledger [OF asset_laws_demo_env demo_token_inv(2) s', THEN conjunct1]
  have "balance s' bob 5459781 = 200" "balance s' alice 5459781 = 300"
    unfolding effect by (simp_all add: ledger_add_def demo_token_defs balance_def)
  with s' show ?thesis by blast
qed

theorem issue_transaction_witness:
  "balance demo_tokens alice 5459781 = balance demo_created alice 5459781 + 500"
  using issue_transaction [OF asset_laws_demo_env demo_token_inv(1) demo_issue]
  by (simp add: ledger_add_def demo_token_defs)

end
