(* ===== verification/System_State.thy ===== *)
theory System_State
  imports Token_Service
begin

unbundle bit_operations_syntax

text \<open>
  The state of the system contract, \<open>contracts/eosio.system\<close>: one record per table row or
  singleton of \<open>eosio.system.hpp\<close>, \<open>exchange_state.hpp\<close> and
  \<open>delegate_bandwidth.cpp\<close>, and the record \<open>sys\<close> of all tables together with the
  part of the chain's state the contract reads and writes. A row's primary key is the key of
  its table entry; a table scoped by an account is keyed by the scope as well.
\<close>

section \<open>Rows\<close>

record connector =
  c_balance :: asset
  c_weight :: double

record exchange_state =
  ex_supply :: asset
  ex_base :: connector
  ex_quote :: connector

record name_bid =
  high_bidder :: name
  high_bid :: int             \<comment> \<open>negative: closed auction waiting to be claimed\<close>
  last_bid_time :: int

type_synonym public_key = nat

record blockchain_parameters =
  max_authority_depth :: int
  other_parameters :: nat     \<comment> \<open>the remaining fields, which the contract only copies\<close>

record global_state =
  params :: blockchain_parameters
  max_ram_size :: int
  total_ram_bytes_reserved :: int
  total_ram_stake :: int
  last_producer_schedule_update :: int
  last_pervote_bucket_fill :: int
  pervote_bucket :: int
  perblock_bucket :: int
  total_unpaid_blocks :: int
  total_activated_stake :: int
  thresh_activated_stake_time :: int
  last_producer_schedule_size :: int
  total_producer_vote_weight :: double
  last_name_close :: int

definition default_global_state :: "blockchain_parameters \<Rightarrow> global_state" where
  "default_global_state p = \<lparr>
     params = p,
     max_ram_size = 64 * 1024 * 1024 * 1024,
     total_ram_bytes_reserved = 0,
     total_ram_stake = 0,
     last_producer_schedule_update = 0,
     last_pervote_bucket_fill = 0,
     pervote_bucket = 0,
     perblock_bucket = 0,
     total_unpaid_blocks = 0,
     total_activated_stake = 0,
     thresh_activated_stake_time = 0,
     last_producer_schedule_size = 0,
     total_producer_vote_weight = 0,
     last_name_close = 0\<rparr>"

definition free_ram :: "global_state \<Rightarrow> int" where
  "free_ram g = u64 (max_ram_size g - total_ram_bytes_reserved g)"

record global_state2 =
  new_ram_per_block :: int
  last_ram_increase :: int
  last_block_num :: int
  total_producer_votepay_share :: double
  revision :: int

definition default_global_state2 :: global_state2 where
  "default_global_state2 = \<lparr>
     new_ram_per_block = 0,
     last_ram_increase = 0,
     last_block_num = 0,
     total_producer_votepay_share = 0,
     revision = 0\<rparr>"

record global_state3 =
  last_vpay_state_update :: int
  total_vpay_share_change_rate :: double

definition default_global_state3 :: global_state3 where
  "default_global_state3 = \<lparr>last_vpay_state_update = 0, total_vpay_share_change_rate = 0\<rparr>"

record producer_info =
  total_votes :: double
  producer_key :: public_key
  is_active :: bool
  url :: string
  unpaid_blocks :: int
  last_claim_time :: int
  location :: int

definition deactivate :: "public_key \<Rightarrow> producer_info \<Rightarrow> producer_info" where
  "deactivate null_key p = p\<lparr>producer_key := null_key, is_active := False\<rparr>"

definition by_votes :: "producer_info \<Rightarrow> double" where
  "by_votes p = (if is_active p then - total_votes p else total_votes p)"

record producer_info2 =
  votepay_share :: double
  last_votepay_share_update :: int

record voter_info =
  proxy :: name
  voted_producers :: "name list"
  staked :: int
  last_vote_weight :: double
  proxied_vote_weight :: double
  is_proxy :: bool
  flags1 :: "32 word"

definition new_voter :: voter_info where
  "new_voter = \<lparr>
     proxy = 0,
     voted_producers = [],
     staked = 0,
     last_vote_weight = 0,
     proxied_vote_weight = 0,
     is_proxy = False,
     flags1 = 0\<rparr>"

definition ram_managed :: "32 word" where "ram_managed = 1"
definition net_managed :: "32 word" where "net_managed = 2"
definition cpu_managed :: "32 word" where "cpu_managed = 4"

definition has_field :: "32 word \<Rightarrow> 32 word \<Rightarrow> bool" where
  "has_field flags field \<longleftrightarrow> (flags AND field) \<noteq> 0"

definition set_field :: "32 word \<Rightarrow> 32 word \<Rightarrow> bool \<Rightarrow> 32 word" where
  "set_field flags field val = (if val then flags OR field else flags AND NOT field)"

record rex_pool =
  total_lent :: asset
  total_unlent :: asset
  total_rent :: asset
  total_lendable :: asset
  total_rex :: asset
  namebid_proceeds :: asset
  loan_num :: int

record rex_balance =
  vote_stake :: asset
  rex_held :: asset           \<comment> \<open>the field \<open>rex_balance\<close> of the struct \<open>rex_balance\<close>\<close>
  matured_rex :: int
  rex_maturities :: "(int \<times> int) list"

record rex_loan =
  loan_from :: name
  loan_receiver :: name
  loan_payment :: asset
  loan_balance :: asset
  loan_staked :: asset
  loan_expiration :: int

record rex_order =
  rex_requested :: asset
  order_proceeds :: asset
  order_stake_change :: asset
  order_time :: int
  is_open :: bool

text \<open>Filled orders come last in the index by time.\<close>

definition by_time :: "rex_order \<Rightarrow> int" where
  "by_time order = (if is_open order then u64 (order_time order) else 2 ^ 64 - 1)"

record user_resources =
  net_weight :: asset
  cpu_weight :: asset
  ram_bytes :: int

definition resources_empty :: "user_resources \<Rightarrow> bool" where
  "resources_empty r \<longleftrightarrow> amount (net_weight r) = 0 \<and> amount (cpu_weight r) = 0 \<and> ram_bytes r = 0"

record delegated_bandwidth =
  del_net :: asset
  del_cpu :: asset

definition delegation_empty :: "delegated_bandwidth \<Rightarrow> bool" where
  "delegation_empty d \<longleftrightarrow> amount (del_net d) = 0 \<and> amount (del_cpu d) = 0"

record refund_request =
  request_time :: int
  net_amount :: asset
  cpu_amount :: asset

definition refund_empty :: "refund_request \<Rightarrow> bool" where
  "refund_empty r \<longleftrightarrow> amount (net_amount r) = 0 \<and> amount (cpu_amount r) = 0"

text \<open>The two deferred transactions the contract schedules.\<close>

datatype deferred_trx =
    RefundTrx name int          \<comment> \<open>owner, delay in seconds\<close>
  | BidRefundTrx name name      \<comment> \<open>bidder, name bid on\<close>

section \<open>The contract's state\<close>

record sys =
  tokens :: token_state                                  \<comment> \<open>the token contract's tables\<close>
  gstate :: global_state
  gstate2 :: global_state2
  gstate3 :: global_state3
  voters :: "(name, voter_info) table"
  producers :: "(name, producer_info) table"
  producers2 :: "(name, producer_info2) table"
  rammarket :: "(symbol, exchange_state) table"
  rexpool :: "rex_pool option"                           \<comment> \<open>at most one row\<close>
  rexfunds :: "(name, asset) table"
  rexbalance :: "(name, rex_balance) table"
  rexorders :: "(name, rex_order) table"
  cpuloans :: "(int, rex_loan) table"
  netloans :: "(int, rex_loan) table"
  userres :: "(name, user_resources) table"
  delband :: "(name \<times> name, delegated_bandwidth) table"  \<comment> \<open>from, to\<close>
  refunds :: "(name, refund_request) table"
  namebids :: "(name, name_bid) table"
  bidrefunds :: "(name \<times> name, asset) table"              \<comment> \<open>name, bidder\<close>
  abihashes :: "(name, nat) table"
  limits :: "(name, int \<times> int \<times> int) table"             \<comment> \<open>the chain's RAM, NET, CPU limits\<close>
  privileged :: "(name, bool) table"
  chain_params :: blockchain_parameters
  proposed_schedule :: "(name \<times> public_key) list"
  deferred :: "(int, deferred_trx) table"
  outbox :: "inline_action list"                         \<comment> \<open>inline actions sent so far\<close>

text \<open>The chain's part of the context: what the system contract asks of it.\<close>

record sys_env = env +
  set_proposed_producers :: "(name \<times> public_key) list \<Rightarrow> int"
  sha256 :: "nat list \<Rightarrow> nat"
  default_key :: public_key
  ram_usage :: "name \<Rightarrow> int"   \<comment> \<open>the bytes an account's rows take up when the transaction ends\<close>

definition send_inline :: "inline_action \<Rightarrow> sys \<Rightarrow> sys" where
  "send_inline a s = s\<lparr>outbox := outbox s @ [a]\<rparr>"

definition get_limits :: "name \<Rightarrow> sys \<Rightarrow> (int \<times> int \<times> int) res" where
  "get_limits n s = of_option HostError (tfind n (limits s))"

text \<open>
  \<open>set_resource_limits\<close> asserts that every limit is \<open>- 1\<close>, for none, or more. That an
  account fits in a RAM limit that went down is checked when the transaction ends.
\<close>

definition set_limits :: "name \<Rightarrow> int \<Rightarrow> int \<Rightarrow> int \<Rightarrow> sys \<Rightarrow> sys res" where
  "set_limits n ram net cpu s =
     (case tfind n (limits s) of
        None \<Rightarrow> Inl HostError
      | Some _ \<Rightarrow>
          guard (- 1 \<le> ram \<and> - 1 \<le> net \<and> - 1 \<le> cpu) HostError
            (Inr (s\<lparr>limits := AList.update n (ram, net, cpu) (limits s)\<rparr>)))"

definition cancel_deferred :: "int \<Rightarrow> sys \<Rightarrow> sys" where
  "cancel_deferred i s = s\<lparr>deferred := terase i (deferred s)\<rparr>"

definition send_deferred :: "int \<Rightarrow> deferred_trx \<Rightarrow> sys \<Rightarrow> sys" where
  "send_deferred i t s = s\<lparr>deferred := AList.update i t (deferred s)\<rparr>"

text \<open>The core symbol is the quote symbol of the RAM market; there is none before \<open>init\<close>.\<close>

definition core_symbol :: "sys \<Rightarrow> symbol res" where
  "core_symbol s =
     (case tfind ramcore_symbol (rammarket s) of
        None \<Rightarrow> Inl (Check ''system contract must first be initialized'')
      | Some m \<Rightarrow> Inr (symbol (c_balance (ex_quote m))))"

lemma core_symbol_eq_Inr:
  "core_symbol s = Inr cs \<longleftrightarrow>
     (\<exists>m. tfind ramcore_symbol (rammarket s) = Some m \<and> cs = symbol (c_balance (ex_quote m)))"
  by (auto simp: core_symbol_def split: option.splits)

section \<open>Frames\<close>

text \<open>What the operations on the chain's part leave alone, as equations of the simplifier.\<close>

lemma core_symbol_cong: "rammarket s = rammarket s' \<Longrightarrow> core_symbol s = core_symbol s'"
  by (simp add: core_symbol_def)

lemma get_limits_eq_Inr [simp]: "get_limits n s = Inr l \<longleftrightarrow> tfind n (limits s) = Some l"
  by (simp add: get_limits_def)

lemma set_limits_eq_Inr:
  "set_limits n ram net cpu s = Inr s' \<longleftrightarrow>
     tfind n (limits s) \<noteq> None \<and> - 1 \<le> ram \<and> - 1 \<le> net \<and> - 1 \<le> cpu \<and>
     s' = s\<lparr>limits := AList.update n (ram, net, cpu) (limits s)\<rparr>"
  by (auto simp: set_limits_def split: option.splits)

section \<open>An initial state\<close>

text \<open>The system before \<open>init\<close>, over given token tables and chain limits.\<close>

definition genesis :: "token_state \<Rightarrow> blockchain_parameters \<Rightarrow> (name, int \<times> int \<times> int) table \<Rightarrow> sys" where
  "genesis t p l = \<lparr>
     tokens = t,
     gstate = default_global_state p,
     gstate2 = default_global_state2,
     gstate3 = default_global_state3,
     voters = [], producers = [], producers2 = [], rammarket = [], rexpool = None,
     rexfunds = [], rexbalance = [], rexorders = [], cpuloans = [], netloans = [],
     userres = [], delband = [], refunds = [], namebids = [], bidrefunds = [], abihashes = [],
     limits = l, privileged = [], chain_params = p, proposed_schedule = [], deferred = [],
     outbox = []\<rparr>"

end
