(* ===== verification/Exchange.thy ===== *)
theory Exchange
  imports System_State
begin

text \<open>
  The Bancor relay of \<open>exchange_state.cpp\<close>, which prices RAM: conversion of a connector's
  token into the relay's own token, back, and \<open>convert\<close>, which chains the two. All
  arithmetic is that of the source: doubles for the price, 64-bit integers for the balances,
  the conversion of the result to an integer traps when it does not fit.

  The lemmas give the effect of a conversion on the two connectors whatever the computed price
  is: what leaves one connector is what the caller gets, what the caller pays enters the other.
\<close>

section \<open>The conversions\<close>

text \<open>Both return the relay's supply, the connector and the converted asset.\<close>

definition convert_to_exchange ::
  "'z env_scheme \<Rightarrow> asset \<Rightarrow> connector \<Rightarrow> asset \<Rightarrow> (asset \<times> connector \<times> asset) res" where
  "convert_to_exchange e ex c inp =
     (let R = dbl (amount ex);
          C = dbl (i64 (amount (c_balance c) + amount inp));
          F = c_weight c;
          T = dbl (amount inp);
          E = (- R) * (1 - pow e (1 + T / C) F)
      in ebind (int64_of E) (\<lambda>issued.
         ebind (new_asset e issued (symbol ex)) (\<lambda>out.
         Inr (ex\<lparr>amount := i64 (amount ex + issued)\<rparr>,
              c\<lparr>c_balance := (c_balance c)\<lparr>amount := i64 (amount (c_balance c) + amount inp)\<rparr>\<rparr>,
              out))))"

definition convert_from_exchange ::
  "'z env_scheme \<Rightarrow> asset \<Rightarrow> connector \<Rightarrow> asset \<Rightarrow> (asset \<times> connector \<times> asset) res" where
  "convert_from_exchange e ex c inp =
     check (symbol inp = symbol ex) ''unexpected asset symbol input''
     (let R = dbl (i64 (amount ex - amount inp));
          C = dbl (amount (c_balance c));
          F = 1 / c_weight c;
          E = dbl (amount inp);
          T = C * (pow e (1 + E / R) F - 1)
      in ebind (int64_of T) (\<lambda>out.
         ebind (new_asset e out (symbol (c_balance c))) (\<lambda>res.
         Inr (ex\<lparr>amount := i64 (amount ex - amount inp)\<rparr>,
              c\<lparr>c_balance := (c_balance c)\<lparr>amount := i64 (amount (c_balance c) - out)\<rparr>\<rparr>,
              res))))"

definition put_base :: "exchange_state \<Rightarrow> (asset \<times> connector \<times> asset) \<Rightarrow> exchange_state \<times> asset" where
  "put_base m r = (case r of (ex, c, out) \<Rightarrow> (m\<lparr>ex_supply := ex, ex_base := c\<rparr>, out))"

definition put_quote :: "exchange_state \<Rightarrow> (asset \<times> connector \<times> asset) \<Rightarrow> exchange_state \<times> asset" where
  "put_quote m r = (case r of (ex, c, out) \<Rightarrow> (m\<lparr>ex_supply := ex, ex_quote := c\<rparr>, out))"

text \<open>One round of \<open>convert\<close>, up to its recursive call.\<close>

definition convert_step ::
  "'z env_scheme \<Rightarrow> exchange_state \<Rightarrow> asset \<Rightarrow> symbol \<Rightarrow> (exchange_state \<times> asset) res" where
  "convert_step e m from to =
     (if symbol from \<noteq> symbol (ex_supply m)
      then if symbol from = symbol (c_balance (ex_base m))
           then ebind (convert_to_exchange e (ex_supply m) (ex_base m) from) (\<lambda>r. Inr (put_base m r))
           else if symbol from = symbol (c_balance (ex_quote m))
           then ebind (convert_to_exchange e (ex_supply m) (ex_quote m) from) (\<lambda>r. Inr (put_quote m r))
           else Inl (Check ''invalid sell'')
      else if to = symbol (c_balance (ex_base m))
           then ebind (convert_from_exchange e (ex_supply m) (ex_base m) from) (\<lambda>r. Inr (put_base m r))
           else if to = symbol (c_balance (ex_quote m))
           then ebind (convert_from_exchange e (ex_supply m) (ex_quote m) from) (\<lambda>r. Inr (put_quote m r))
           else Inl (Check ''invalid conversion''))"

lemma convert_to_exchange_Inr:
  assumes "convert_to_exchange e ex c inp = Inr (ex', c', out)"
  obtains issued where "out = mk_asset issued (symbol ex)"
    "ex' = ex\<lparr>amount := i64 (amount ex + issued)\<rparr>"
    "c' = c\<lparr>c_balance := (c_balance c)\<lparr>amount := i64 (amount (c_balance c) + amount inp)\<rparr>\<rparr>"
  using assms by (auto simp: convert_to_exchange_def Let_def)

lemma convert_from_exchange_Inr:
  assumes "convert_from_exchange e ex c inp = Inr (ex', c', out)"
  obtains r where "out = mk_asset r (symbol (c_balance c))"
    "ex' = ex\<lparr>amount := i64 (amount ex - amount inp)\<rparr>"
    "c' = c\<lparr>c_balance := (c_balance c)\<lparr>amount := i64 (amount (c_balance c) - r)\<rparr>\<rparr>"
  using assms by (auto simp: convert_from_exchange_def Let_def)

text \<open>
  A round that sells a connector's token yields the relay's token; a round that sells the
  relay's token yields the token asked for. So \<open>convert\<close> calls itself at most once.
\<close>

lemma convert_step_symbol:
  assumes "convert_step e m from to = Inr (m', out)"
  shows "symbol (ex_supply m') = symbol (ex_supply m)"
    and "symbol from \<noteq> symbol (ex_supply m) \<Longrightarrow> symbol out = symbol (ex_supply m)"
    and "symbol from = symbol (ex_supply m) \<Longrightarrow> symbol out = to"
  using assms
  by (auto simp: convert_step_def put_base_def put_quote_def split: if_splits prod.splits
      elim!: convert_to_exchange_Inr convert_from_exchange_Inr)

lemma convert_step_continues:
  assumes "convert_step e m from to = Inr (m', out)" "to \<noteq> symbol out"
  shows "symbol out = symbol (ex_supply m') \<and> symbol from \<noteq> symbol (ex_supply m)"
  using convert_step_symbol [OF assms(1)] assms(2) by metis

function convert ::
  "'z env_scheme \<Rightarrow> exchange_state \<Rightarrow> asset \<Rightarrow> symbol \<Rightarrow> (exchange_state \<times> asset) res" where
  "convert e m from to =
     (case convert_step e m from to of
        Inl err \<Rightarrow> Inl err
      | Inr (m', from') \<Rightarrow>
          if to \<noteq> symbol from' then convert e m' from' to else Inr (m', from'))"
  by pat_completeness auto
termination
  by (relation "measure (\<lambda>(e, m, from, to). if symbol from = symbol (ex_supply m) then 0 else 1)")
    (auto dest: convert_step_continues)

declare convert.simps [simp del]

section \<open>What a conversion does to the connectors\<close>

abbreviation base_amount :: "exchange_state \<Rightarrow> int" where
  "base_amount m \<equiv> amount (c_balance (ex_base m))"

abbreviation quote_amount :: "exchange_state \<Rightarrow> int" where
  "quote_amount m \<equiv> amount (c_balance (ex_quote m))"

text \<open>The market of the chain: RAM against the core token, with the relay token RAMCORE.\<close>

definition market_ok :: "symbol \<Rightarrow> exchange_state \<Rightarrow> bool" where
  "market_ok core m \<longleftrightarrow>
     symbol (ex_supply m) = ramcore_symbol \<and> symbol (c_balance (ex_base m)) = ram_symbol \<and>
     symbol (c_balance (ex_quote m)) = core \<and> core \<noteq> ram_symbol \<and> core \<noteq> ramcore_symbol"

lemma convert_buy:
  assumes ok: "market_ok core m" and inp: "symbol inp = core"
    and "convert e m inp ram_symbol = Inr (m', out)"
  shows "symbol out = ram_symbol" "market_ok core m'"
    "base_amount m' = i64 (base_amount m - amount out)"
    "quote_amount m' = i64 (quote_amount m + amount inp)"
proof -
  obtain ex c mid where to: "convert_to_exchange e (ex_supply m) (ex_quote m) inp = Inr (ex, c, mid)"
    and rest: "convert e (m\<lparr>ex_supply := ex, ex_quote := c\<rparr>) mid ram_symbol = Inr (m', out)"
    using assms(3) ok inp
    by (subst (asm) convert.simps)
      (auto simp: convert_step_def market_ok_def put_quote_def convert_to_exchange_def Let_def
        split: sum.splits if_splits)
  obtain issued where a: "mid = mk_asset issued ramcore_symbol"
    "ex = (ex_supply m)\<lparr>amount := i64 (amount (ex_supply m) + issued)\<rparr>"
    "c = (ex_quote m)\<lparr>c_balance := (c_balance (ex_quote m))\<lparr>amount := i64 (quote_amount m + amount inp)\<rparr>\<rparr>"
    using convert_to_exchange_Inr [OF to] ok by (auto simp: market_ok_def)
  obtain ex2 c2 where fr: "convert_from_exchange e ex (ex_base m) mid = Inr (ex2, c2, out)"
    and m': "m' = m\<lparr>ex_supply := ex2, ex_quote := c, ex_base := c2\<rparr>"
    using rest ok a
    by (subst (asm) convert.simps)
      (auto simp: convert_step_def market_ok_def put_base_def convert_from_exchange_def Let_def
        split: sum.splits if_splits)
  obtain r where b: "out = mk_asset r (symbol (c_balance (ex_base m)))"
    "ex2 = ex\<lparr>amount := i64 (amount ex - amount mid)\<rparr>"
    "c2 = (ex_base m)\<lparr>c_balance := (c_balance (ex_base m))\<lparr>amount := i64 (base_amount m - r)\<rparr>\<rparr>"
    using convert_from_exchange_Inr [OF fr] by blast
  from ok show "symbol out = ram_symbol" using b by (simp add: market_ok_def)
  show "market_ok core m'" using ok a b m' by (simp add: market_ok_def)
  show "base_amount m' = i64 (base_amount m - amount out)" using b m' by simp
  show "quote_amount m' = i64 (quote_amount m + amount inp)" using a m' by simp
qed

lemma convert_sell:
  assumes ok: "market_ok core m" and inp: "symbol inp = ram_symbol"
    and "convert e m inp core = Inr (m', out)"
  shows "symbol out = core" "market_ok core m'"
    "base_amount m' = i64 (base_amount m + amount inp)"
    "quote_amount m' = i64 (quote_amount m - amount out)"
proof -
  obtain ex c mid where to: "convert_to_exchange e (ex_supply m) (ex_base m) inp = Inr (ex, c, mid)"
    and rest: "convert e (m\<lparr>ex_supply := ex, ex_base := c\<rparr>) mid core = Inr (m', out)"
    using assms(3) ok inp
    by (subst (asm) convert.simps)
      (auto simp: convert_step_def market_ok_def put_base_def convert_to_exchange_def Let_def
        split: sum.splits if_splits)
  obtain issued where a: "mid = mk_asset issued ramcore_symbol"
    "ex = (ex_supply m)\<lparr>amount := i64 (amount (ex_supply m) + issued)\<rparr>"
    "c = (ex_base m)\<lparr>c_balance := (c_balance (ex_base m))\<lparr>amount := i64 (base_amount m + amount inp)\<rparr>\<rparr>"
    using convert_to_exchange_Inr [OF to] ok by (auto simp: market_ok_def)
  obtain ex2 c2 where fr: "convert_from_exchange e ex (ex_quote m) mid = Inr (ex2, c2, out)"
    and m': "m' = m\<lparr>ex_supply := ex2, ex_base := c, ex_quote := c2\<rparr>"
    using rest ok a
    by (subst (asm) convert.simps)
      (auto simp: convert_step_def market_ok_def put_quote_def convert_from_exchange_def Let_def
        split: sum.splits if_splits)
  obtain r where b: "out = mk_asset r (symbol (c_balance (ex_quote m)))"
    "ex2 = ex\<lparr>amount := i64 (amount ex - amount mid)\<rparr>"
    "c2 = (ex_quote m)\<lparr>c_balance := (c_balance (ex_quote m))\<lparr>amount := i64 (quote_amount m - r)\<rparr>\<rparr>"
    using convert_from_exchange_Inr [OF fr] by blast
  from ok show "symbol out = core" using b by (simp add: market_ok_def)
  show "market_ok core m'" using ok a b m' by (simp add: market_ok_def)
  show "base_amount m' = i64 (base_amount m + amount inp)" using a m' by simp
  show "quote_amount m' = i64 (quote_amount m - amount out)" using b m' by simp
qed

end
