(* ===== verification/Rex_Pool.thy ===== *)
theory Rex_Pool
  imports Exchange
begin

text \<open>
  The resource exchange, lower half of \<open>rex.cpp\<close>: the pool's arithmetic, the users' REX
  funds and balances with their maturity buckets, loans, sell orders, and \<open>runrex\<close>, the
  maintenance that every REX action starts with. Everything here is independent of voting.

  Operations on one row take and return the row; operations on tables take and return the
  state. The C++ templates over the two loan tables are functions of a \<open>resource\<close>.
\<close>

section \<open>Amounts\<close>

text \<open>\<open>a.amount += x\<close> on the raw 64-bit field, without the checks of \<open>asset::operator+=\<close>.\<close>

definition add_amount :: "int \<Rightarrow> asset \<Rightarrow> asset" where
  "add_amount x a = a\<lparr>amount := i64 (amount a + x)\<rparr>"

definition set_amount :: "int \<Rightarrow> asset \<Rightarrow> asset" where
  "set_amount x a = a\<lparr>amount := x\<rparr>"

lemma add_amount_simps [simp]:
  "amount (add_amount x a) = i64 (amount a + x)" "symbol (add_amount x a) = symbol a"
  "amount (set_amount x a) = x" "symbol (set_amount x a) = symbol a"
  by (simp_all add: add_amount_def set_amount_def)

definition get_bancor_output :: "int \<Rightarrow> int \<Rightarrow> int \<Rightarrow> int res" where
  "get_bancor_output conin conout inp =
     (let F0 = dbl conin;
          T0 = dbl conout;
          I = dbl inp
      in ebind (int64_of ((I * T0) / (I + F0))) (\<lambda>out.
         Inr (if out < 0 then 0 else out)))"

section \<open>The pool\<close>

definition rex_system_initialized :: "sys \<Rightarrow> bool" where
  "rex_system_initialized s \<longleftrightarrow> rexpool s \<noteq> None"

definition rex_available :: "sys \<Rightarrow> bool" where
  "rex_available s \<longleftrightarrow> (case rexpool s of None \<Rightarrow> False | Some p \<Rightarrow> 0 < amount (total_rex p))"

text \<open>\<open>_rexpool.begin()\<close>, which must exist when it is dereferenced.\<close>

definition the_pool :: "sys \<Rightarrow> rex_pool res" where
  "the_pool s = of_option MissingRow (rexpool s)"

definition rex_loans_available :: "sys \<Rightarrow> bool" where
  "rex_loans_available s \<longleftrightarrow>
     rex_available s \<and>
     (case tindex by_time (rexorders s) of
        [] \<Rightarrow> True
      | (_, order) # _ \<Rightarrow> \<not> is_open order)"

definition add_loan_to_rex_pool :: "asset \<Rightarrow> int \<Rightarrow> bool \<Rightarrow> rex_pool \<Rightarrow> rex_pool" where
  "add_loan_to_rex_pool payment rented_tokens new_loan p =
     (let rent = add_amount (amount payment) (total_rent p);
          unlent1 = add_amount (- rented_tokens) (total_unlent p);
          lent = add_amount rented_tokens (total_lent p);
          unlent = add_amount (amount payment) unlent1
      in p\<lparr>total_rent := rent,
           total_unlent := unlent,
           total_lent := lent,
           total_lendable := set_amount (i64 (amount unlent + amount lent)) (total_lendable p),
           loan_num := (if new_loan then u64 (loan_num p + 1) else loan_num p)\<rparr>)"

definition remove_loan_from_rex_pool :: "rex_loan \<Rightarrow> rex_pool \<Rightarrow> rex_pool res" where
  "remove_loan_from_rex_pool loan p =
     ebind (get_bancor_output (amount (total_unlent p)) (amount (total_rent p)) (amount (loan_staked loan)))
       (\<lambda>delta_total_rent.
     let rent = add_amount (- delta_total_rent) (total_rent p);
         unlent = add_amount (amount (loan_staked loan)) (total_unlent p);
         lent = add_amount (- amount (loan_staked loan)) (total_lent p)
     in Inr (p\<lparr>total_rent := rent,
               total_unlent := unlent,
               total_lent := lent,
               total_lendable := set_amount (i64 (amount unlent + amount lent)) (total_lendable p)\<rparr>))"

definition channel_to_rex :: "'z sys_env_scheme \<Rightarrow> name \<Rightarrow> asset \<Rightarrow> sys \<Rightarrow> sys" where
  "channel_to_rex e from q s =
     (case rexpool s of
        None \<Rightarrow> s
      | Some p \<Rightarrow>
          if 0 < amount (total_rex p)
          then send_inline
                 (send_transfer [from] from rex_account q
                    (''transfer from '' @ name_to_string e from @ '' to eosio.rex''))
                 (s\<lparr>rexpool := Some (p\<lparr>total_unlent := add_amount (amount q) (total_unlent p),
                                       total_lendable := add_amount (amount q) (total_lendable p)\<rparr>)\<rparr>)
          else s)"

definition channel_namebid_to_rex :: "int \<Rightarrow> sys \<Rightarrow> sys" where
  "channel_namebid_to_rex highest_bid s =
     (case rexpool s of
        None \<Rightarrow> s
      | Some p \<Rightarrow>
          if 0 < amount (total_rex p)
          then s\<lparr>rexpool := Some (p\<lparr>namebid_proceeds := add_amount highest_bid (namebid_proceeds p)\<rparr>)\<rparr>
          else s)"

definition rex_ratio :: int where "rex_ratio = 10000"
definition init_total_rent :: int where "init_total_rent = 200000000"

text \<open>REX received for a payment, and the pool with the payment in it.\<close>

definition add_to_rex_pool ::
  "'z sys_env_scheme \<Rightarrow> asset \<Rightarrow> sys \<Rightarrow> (asset \<times> sys) res" where
  "add_to_rex_pool e payment s =
     ebind (core_symbol s) (\<lambda>cs.
     case rexpool s of
       None \<Rightarrow>
         let received = mk_asset (i64 (amount payment * rex_ratio)) rex_symbol
         in ebind (asset_minus e payment (mk_asset 0 cs)) (\<lambda>unlent.
            Inr (received,
                 s\<lparr>rexpool := Some \<lparr>total_lent = mk_asset 0 cs,
                                     total_unlent = unlent,
                                     total_rent = mk_asset init_total_rent cs,
                                     total_lendable = payment,
                                     total_rex = received,
                                     namebid_proceeds = mk_asset 0 cs,
                                     loan_num = 0\<rparr>\<rparr>))
     | Some p \<Rightarrow>
         if \<not> 0 < amount (total_rex p)
         then let received = mk_asset (i64 (amount payment * rex_ratio)) rex_symbol
              in Inr (received,
                      s\<lparr>rexpool := Some (p\<lparr>total_lendable := set_amount (amount payment) (total_lendable p),
                                            total_lent := set_amount 0 (total_lent p),
                                            total_unlent := set_amount (amount payment) (total_unlent p),
                                            total_rent := set_amount init_total_rent (total_rent p),
                                            total_rex := set_amount (amount received) (total_rex p)\<rparr>)\<rparr>)
         else
           check (0 < amount (total_lendable p)) ''lendable REX pool is empty''
           (let S0 = amount (total_lendable p);
                S1 = i64 (S0 + amount payment);
                R0 = amount (total_rex p)
            in ebind (muldiv128 S1 R0 S0) (\<lambda>R1.
               let unlent = i64 (S1 - amount (total_lent p))
               in check (0 \<le> unlent) ''programmer error, this should never go negative''
                  (Inr (mk_asset (i64 (R1 - R0)) rex_symbol,
                        s\<lparr>rexpool := Some (p\<lparr>total_lendable := set_amount S1 (total_lendable p),
                                              total_rex := set_amount R1 (total_rex p),
                                              total_unlent := set_amount unlent (total_unlent p)\<rparr>)\<rparr>)))))"

section \<open>REX funds\<close>

definition transfer_from_fund :: "'z sys_env_scheme \<Rightarrow> name \<Rightarrow> asset \<Rightarrow> sys \<Rightarrow> sys res" where
  "transfer_from_fund e owner q s =
     check (0 < amount q) ''must transfer positive amount from REX fund''
     (ebind (core_symbol s) (\<lambda>cs.
      check (symbol q = cs) ''must transfer positive amount from REX fund''
      (case tfind owner (rexfunds s) of
         None \<Rightarrow> Inl (Check ''must deposit to REX fund first'')
       | Some bal \<Rightarrow>
           ebind (asset_le e q bal) (\<lambda>enough.
           check enough ''insufficient funds''
             (Inr (s\<lparr>rexfunds := AList.update owner (add_amount (- amount q) bal) (rexfunds s)\<rparr>))))))"

definition transfer_to_fund :: "name \<Rightarrow> asset \<Rightarrow> sys \<Rightarrow> sys res" where
  "transfer_to_fund owner q s =
     check (0 < amount q) ''must transfer positive amount to REX fund''
     (ebind (core_symbol s) (\<lambda>cs.
      check (symbol q = cs) ''must transfer positive amount to REX fund''
      (case tfind owner (rexfunds s) of
         None \<Rightarrow> ebind (templace owner q (rexfunds s)) (\<lambda>t. Inr (s\<lparr>rexfunds := t\<rparr>))
       | Some bal \<Rightarrow>
           Inr (s\<lparr>rexfunds := AList.update owner (add_amount (amount q) bal) (rexfunds s)\<rparr>))))"

section \<open>Maturity buckets\<close>

definition seconds_per_day :: int where "seconds_per_day = 24 * 3600"

text \<open>\<open>time_point_sec::maximum()\<close>, the time of the savings bucket.\<close>

definition end_of_days :: int where "end_of_days = 2 ^ 32 - 1"

definition get_rex_maturity :: "'z sys_env_scheme \<Rightarrow> int" where
  "get_rex_maturity e =
     (let num_of_maturity_buckets = 5;
          now = current_sec e;
          r = now mod seconds_per_day
      in u32 (now - r + num_of_maturity_buckets * seconds_per_day))"

text \<open>The loop that pops matured buckets from the front.\<close>

fun pop_matured :: "int \<Rightarrow> int \<Rightarrow> (int \<times> int) list \<Rightarrow> int \<times> (int \<times> int) list" where
  "pop_matured now matured [] = (matured, [])"
| "pop_matured now matured ((t, rex) # rest) =
     (if t \<le> now then pop_matured now (i64 (matured + rex)) rest else (matured, (t, rex) # rest))"

definition process_rex_maturities :: "'z sys_env_scheme \<Rightarrow> rex_balance \<Rightarrow> rex_balance" where
  "process_rex_maturities e rb =
     (case pop_matured (current_sec e) (matured_rex rb) (rex_maturities rb) of
        (m, buckets) \<Rightarrow> rb\<lparr>matured_rex := m, rex_maturities := buckets\<rparr>)"

text \<open>Adding to the last bucket when it has the given time, else appending a bucket.\<close>

definition add_to_bucket :: "int \<Rightarrow> int \<Rightarrow> (int \<times> int) list \<Rightarrow> (int \<times> int) list" where
  "add_to_bucket t rex buckets =
     (if buckets \<noteq> [] \<and> fst (last buckets) = t
      then butlast buckets @ [(t, i64 (snd (last buckets) + rex))]
      else buckets @ [(t, rex)])"

definition read_rex_savings :: "rex_balance \<Rightarrow> int \<times> rex_balance" where
  "read_rex_savings rb =
     (if rex_maturities rb \<noteq> [] \<and> fst (last (rex_maturities rb)) = end_of_days
      then (snd (last (rex_maturities rb)), rb\<lparr>rex_maturities := butlast (rex_maturities rb)\<rparr>)
      else (0, rb))"

definition put_rex_savings :: "int \<Rightarrow> rex_balance \<Rightarrow> rex_balance" where
  "put_rex_savings rex rb =
     (if rex = 0 then rb
      else rb\<lparr>rex_maturities := add_to_bucket end_of_days rex (rex_maturities rb)\<rparr>)"

text \<open>The wrapped sum of all buckets, added to a start value in order.\<close>

fun sum_buckets :: "int \<Rightarrow> (int \<times> int) list \<Rightarrow> int" where
  "sum_buckets tot [] = tot"
| "sum_buckets tot ((_, rex) # rest) = sum_buckets (i64 (tot + rex)) rest"

definition consolidate_rex_balance ::
  "'z sys_env_scheme \<Rightarrow> asset \<Rightarrow> rex_balance \<Rightarrow> rex_balance" where
  "consolidate_rex_balance e rex_in_sell_order rb =
     (case read_rex_savings rb of
        (rex_in_savings, rb1) \<Rightarrow>
          let tot = sum_buckets (i64 (matured_rex rb1 - amount rex_in_sell_order)) (rex_maturities rb1);
              rb2 = rb1\<lparr>matured_rex := amount rex_in_sell_order,
                        rex_maturities := (if 0 < tot then [(get_rex_maturity e, tot)] else [])\<rparr>
          in put_rex_savings rex_in_savings rb2)"

section \<open>REX balances\<close>

definition add_rex_bucket :: "'z sys_env_scheme \<Rightarrow> int \<Rightarrow> rex_balance \<Rightarrow> rex_balance" where
  "add_rex_bucket e rex rb =
     rb\<lparr>rex_maturities := add_to_bucket (get_rex_maturity e) rex (rex_maturities rb)\<rparr>"

text \<open>The part of \<open>add_to_rex_balance\<close> after the balance itself has changed.\<close>

definition add_maturing_rex :: "'z sys_env_scheme \<Rightarrow> int \<Rightarrow> rex_balance \<Rightarrow> rex_balance" where
  "add_maturing_rex e rex rb =
     (case read_rex_savings rb of
        (rex_in_savings, rb1) \<Rightarrow>
          put_rex_savings rex_in_savings (add_rex_bucket e rex (process_rex_maturities e rb1)))"

definition add_to_rex_balance ::
  "'z sys_env_scheme \<Rightarrow> name \<Rightarrow> asset \<Rightarrow> asset \<Rightarrow> sys \<Rightarrow> (asset \<times> sys) res" where
  "add_to_rex_balance e owner payment rex_received s =
     ebind (core_symbol s) (\<lambda>cs.
     ebind (case tfind owner (rexbalance s) of
              None \<Rightarrow>
                Inr (\<lparr>vote_stake = payment, rex_held = rex_received,
                      matured_rex = 0, rex_maturities = []\<rparr>, 0, amount payment)
            | Some rb \<Rightarrow>
                ebind (the_pool s) (\<lambda>p.
                let held = add_amount (amount rex_received) (rex_held rb)
                in ebind (muldiv128 (amount held) (amount (total_lendable p)) (amount (total_rex p))) (\<lambda>stake.
                   Inr (rb\<lparr>rex_held := held, vote_stake := set_amount stake (vote_stake rb)\<rparr>,
                        amount (vote_stake rb), stake))))
       (\<lambda>(rb1, init_stake, current_stake).
     ebind (asset_minus e (mk_asset current_stake cs) (mk_asset init_stake cs)) (\<lambda>delta.
     Inr (delta,
          s\<lparr>rexbalance := AList.update owner (add_maturing_rex e (amount rex_received) rb1) (rexbalance s)\<rparr>))))"

definition update_rex_stake :: "name \<Rightarrow> sys \<Rightarrow> sys res" where
  "update_rex_stake voter s =
     ebind (case tfind voter (rexbalance s) of
              None \<Rightarrow> Inr (0, s)
            | Some rb \<Rightarrow>
                if rex_available s
                then ebind (core_symbol s) (\<lambda>cs.
                     ebind (the_pool s) (\<lambda>p.
                     ebind (muldiv128 (amount (rex_held rb)) (amount (total_lendable p)) (amount (total_rex p))) (\<lambda>stake.
                     Inr (i64 (stake - amount (vote_stake rb)),
                          s\<lparr>rexbalance := AList.update voter (rb\<lparr>vote_stake := set_amount stake (vote_stake rb)\<rparr>)
                                            (rexbalance s)\<rparr>))))
                else Inr (0, s))
       (\<lambda>(delta_stake, s1).
     Inr (if delta_stake \<noteq> 0
          then (case tfind voter (voters s1) of
                  None \<Rightarrow> s1
                | Some v \<Rightarrow> s1\<lparr>voters := AList.update voter (v\<lparr>staked := i64 (staked v + delta_stake)\<rparr>) (voters s1)\<rparr>)
          else s1))"

section \<open>Sell orders\<close>

record rex_order_outcome =
  success :: bool
  proceeds :: asset
  stake_change :: asset

definition unlent_lower_bound :: "rex_pool \<Rightarrow> int" where
  "unlent_lower_bound p = i64 (u128 (u128 2 * u128 (amount (total_lent p))) div 10)"

text \<open>The outcome of an order, the pool and the seller's row after it.\<close>

definition fill_rex_order ::
  "'z sys_env_scheme \<Rightarrow> symbol \<Rightarrow> asset \<Rightarrow> rex_pool \<Rightarrow> rex_balance \<Rightarrow>
     (rex_order_outcome \<times> rex_pool \<times> rex_balance) res" where
  "fill_rex_order e cs rex p rb =
     (let S0 = amount (total_lendable p);
          R0 = amount (total_rex p)
      in ebind (muldiv128 (amount rex) S0 R0) (\<lambda>pr.
         let R1 = i64 (R0 - amount rex);
             S1 = i64 (S0 - pr)
         in ebind (new_asset e pr cs) (\<lambda>_.
            let available_unlent = i64 (amount (total_unlent p) - unlent_lower_bound p)
            in if pr \<le> available_unlent
               then ebind (muldiv128 (amount (rex_held rb)) S0 R0) (\<lambda>current_stake_value.
                    let p' = p\<lparr>total_rex := set_amount R1 (total_rex p),
                               total_lendable := set_amount S1 (total_lendable p),
                               total_unlent := set_amount (i64 (S1 - amount (total_lent p))) (total_unlent p)\<rparr>;
                        rb' = rb\<lparr>vote_stake := set_amount (i64 (current_stake_value - pr)) (vote_stake rb),
                                 rex_held := add_amount (- amount rex) (rex_held rb),
                                 matured_rex := i64 (matured_rex rb - amount rex)\<rparr>
                    in Inr (\<lparr>success = True, proceeds = mk_asset pr cs,
                             stake_change = mk_asset (i64 (amount (vote_stake rb') - amount (vote_stake rb))) cs\<rparr>,
                            p', rb'))
               else Inr (\<lparr>success = False, proceeds = mk_asset 0 cs, stake_change = mk_asset 0 cs\<rparr>, p, rb))))"

text \<open>\<open>fill_rex_order\<close> on the state, for the row of \<open>owner\<close>.\<close>

definition fill_order_of ::
  "'z sys_env_scheme \<Rightarrow> name \<Rightarrow> rex_balance \<Rightarrow> asset \<Rightarrow> sys \<Rightarrow> (rex_order_outcome \<times> sys) res" where
  "fill_order_of e owner rb rex s =
     ebind (core_symbol s) (\<lambda>cs.
     ebind (the_pool s) (\<lambda>p.
     ebind (fill_rex_order e cs rex p rb) (\<lambda>(outcome, p', rb').
     Inr (outcome, s\<lparr>rexpool := Some p', rexbalance := AList.update owner rb' (rexbalance s)\<rparr>))))"

end
