(* ===== verification/Rex_Run.thy ===== *)
theory Rex_Run
  imports Rex_Pool
begin

text \<open>
  The resource exchange, middle part of \<open>rex.cpp\<close>: resource limits, the loans on the two
  loan tables, and the maintenance \<open>runrex\<close> with its three bounded loops. A loop of the
  source that handles at most \<open>max\<close> entries is a recursion on \<open>max\<close>.
\<close>

section \<open>Resource limits\<close>

definition managed :: "name \<Rightarrow> 32 word \<Rightarrow> sys \<Rightarrow> bool" where
  "managed n field s = (case tfind n (voters s) of None \<Rightarrow> False | Some v \<Rightarrow> has_field (flags1 v) field)"

text \<open>The receiver's totals after a change; a new row when there is none.\<close>

definition changed_resources ::
  "'z sys_env_scheme \<Rightarrow> name \<Rightarrow> int \<Rightarrow> int \<Rightarrow> sys \<Rightarrow> user_resources res" where
  "changed_resources e receiver delta_net delta_cpu s =
     (case tfind receiver (userres s) of
        None \<Rightarrow>
          check (0 \<le> delta_net \<and> 0 \<le> delta_cpu) ''logic error, should not occur''
          (ebind (core_symbol s) (\<lambda>cs.
           ebind (new_asset e delta_net cs) (\<lambda>net.
           ebind (new_asset e delta_cpu cs) (\<lambda>cpu.
           Inr \<lparr>net_weight = net, cpu_weight = cpu, ram_bytes = 0\<rparr>))))
      | Some r \<Rightarrow>
          Inr (r\<lparr>net_weight := add_amount delta_net (net_weight r),
                 cpu_weight := add_amount delta_cpu (cpu_weight r)\<rparr>))"

text \<open>The chain's limits follow the totals, unless the system account manages them.\<close>

definition limits_follow :: "name \<Rightarrow> (int \<Rightarrow> int) \<Rightarrow> user_resources \<Rightarrow> sys \<Rightarrow> sys res" where
  "limits_follow receiver new_ram_limit tot s =
     (if managed receiver net_managed s \<and> managed receiver cpu_managed s then Inr s
      else ebind (get_limits receiver s) (\<lambda>(ram, net, cpu).
           set_limits receiver (new_ram_limit ram)
             (if managed receiver net_managed s then net else amount (net_weight tot))
             (if managed receiver cpu_managed s then cpu else amount (cpu_weight tot)) s))"

definition put_resources :: "name \<Rightarrow> user_resources \<Rightarrow> sys \<Rightarrow> sys" where
  "put_resources receiver tot s = s\<lparr>userres :=
     (if resources_empty tot then terase receiver (userres s) else AList.update receiver tot (userres s))\<rparr>"

definition update_resource_limits ::
  "'z sys_env_scheme \<Rightarrow> name \<Rightarrow> int \<Rightarrow> int \<Rightarrow> sys \<Rightarrow> sys res" where
  "update_resource_limits e receiver delta_net delta_cpu s =
     (if delta_cpu = 0 \<and> delta_net = 0 then Inr s
      else
        ebind (changed_resources e receiver delta_net delta_cpu s) (\<lambda>tot.
        check (0 \<le> amount (net_weight tot)) ''insufficient staked total net bandwidth''
        (check (0 \<le> amount (cpu_weight tot)) ''insufficient staked total cpu bandwidth''
        (ebind (limits_follow receiver (\<lambda>ram. ram) tot s) (\<lambda>s1.
         Inr (put_resources receiver tot s1))))))"

section \<open>The loan tables\<close>

datatype resource = CPU | NET

fun loans :: "resource \<Rightarrow> sys \<Rightarrow> (int, rex_loan) table" where
  "loans CPU s = cpuloans s"
| "loans NET s = netloans s"

fun put_loans :: "resource \<Rightarrow> (int, rex_loan) table \<Rightarrow> sys \<Rightarrow> sys" where
  "put_loans CPU t s = s\<lparr>cpuloans := t\<rparr>"
| "put_loans NET t s = s\<lparr>netloans := t\<rparr>"

text \<open>The stake change of a loan goes to the resource the loan is for.\<close>

fun limits_for_loan ::
  "resource \<Rightarrow> 'z sys_env_scheme \<Rightarrow> name \<Rightarrow> int \<Rightarrow> sys \<Rightarrow> sys res" where
  "limits_for_loan CPU e receiver delta s = update_resource_limits e receiver 0 delta s"
| "limits_for_loan NET e receiver delta s = update_resource_limits e receiver delta 0 s"

definition days_30 :: int where "days_30 = 30 * 24 * 3600 * 1000000"

definition by_expr :: "rex_loan \<Rightarrow> int" where
  "by_expr l = u64 (loan_expiration l)"

text \<open>The loan after renewal and the change of its stake.\<close>

definition update_renewed_loan :: "int \<Rightarrow> rex_loan \<Rightarrow> int \<times> rex_loan" where
  "update_renewed_loan rented_tokens l =
     (i64 (rented_tokens - amount (loan_staked l)),
      l\<lparr>loan_staked := set_amount rented_tokens (loan_staked l),
        loan_expiration := i64 (loan_expiration l + days_30),
        loan_balance := add_amount (- amount (loan_payment l)) (loan_balance l)\<rparr>)"

text \<open>
  \<open>process_expired_loan\<close>: whether to delete the loan, the change of its stake, and the
  state, in which a renewed loan is already updated.
\<close>

definition process_expired_loan ::
  "resource \<Rightarrow> 'z sys_env_scheme \<Rightarrow> int \<Rightarrow> rex_loan \<Rightarrow> sys \<Rightarrow> (bool \<times> int \<times> sys) res" where
  "process_expired_loan r e k l s =
     ebind (the_pool s) (\<lambda>p.
     ebind (remove_loan_from_rex_pool l p) (\<lambda>p1.
     ebind (get_bancor_output (amount (total_rent p1)) (amount (total_unlent p1)) (amount (loan_payment l)))
       (\<lambda>rented_tokens.
     ebind (asset_le e (loan_payment l) (loan_balance l)) (\<lambda>funded.
     let s1 = s\<lparr>rexpool := Some p1\<rparr>
     in if funded \<and> amount (loan_payment l) < rented_tokens \<and> rex_loans_available s1
        then case update_renewed_loan rented_tokens l of
               (delta_stake, l') \<Rightarrow>
                 Inr (False, delta_stake,
                      put_loans r (AList.update k l' (loans r s1))
                        (s1\<lparr>rexpool := Some (add_loan_to_rex_pool (loan_payment l) rented_tokens False p1)\<rparr>))
        else ebind (if 0 < amount (loan_balance l)
                    then transfer_to_fund (loan_from l) (loan_balance l) s1 else Inr s1) (\<lambda>s2.
             Inr (True, i64 (- amount (loan_staked l)), s2))))))"

text \<open>One round of the loop over a loan table; \<open>None\<close> says that the loop breaks.\<close>

definition expired_loan_round ::
  "resource \<Rightarrow> 'z sys_env_scheme \<Rightarrow> sys \<Rightarrow> sys option res" where
  "expired_loan_round r e s =
     (case tindex by_expr (loans r s) of
        [] \<Rightarrow> Inr None
      | (k, l) # _ \<Rightarrow>
          if current_time e < loan_expiration l then Inr None
          else
            ebind (process_expired_loan r e k l s) (\<lambda>(delete_loan, delta_stake, s1).
            ebind (if delta_stake \<noteq> 0 then limits_for_loan r e (loan_receiver l) delta_stake s1 else Inr s1)
              (\<lambda>s2.
            Inr (Some (if delete_loan then put_loans r (terase k (loans r s2)) s2 else s2)))))"

fun process_loans :: "resource \<Rightarrow> 'z sys_env_scheme \<Rightarrow> nat \<Rightarrow> sys \<Rightarrow> sys res" where
  "process_loans r e 0 s = Inr s"
| "process_loans r e (Suc n) s =
     ebind (expired_loan_round r e s) (\<lambda>next.
     case next of None \<Rightarrow> Inr s | Some s' \<Rightarrow> process_loans r e n s')"

section \<open>Queued sell orders\<close>

text \<open>
  The loop reads the next iterator before it closes the order it is at, so it walks the
  open orders of the index as it was at the start.
\<close>

definition fill_queued_order :: "'z sys_env_scheme \<Rightarrow> (name \<times> rex_order) \<Rightarrow> sys \<Rightarrow> sys res" where
  "fill_queued_order e entry s =
     (case entry of (owner, order) \<Rightarrow>
        case tfind owner (rexbalance s) of
          None \<Rightarrow> Inr s
        | Some rb \<Rightarrow>
            ebind (fill_order_of e owner rb (rex_requested order) s) (\<lambda>(result, s1).
            Inr (if success result
                 then send_inline (RexResult (OrderResult owner (proceeds result)))
                        (s1\<lparr>rexorders := AList.update owner
                           (order\<lparr>order_proceeds := set_amount (amount (proceeds result)) (order_proceeds order),
                                  order_stake_change :=
                                    set_amount (amount (stake_change result)) (order_stake_change order),
                                  is_open := False\<rparr>) (rexorders s1)\<rparr>)
                 else s1)))"

definition process_orders :: "'z sys_env_scheme \<Rightarrow> nat \<Rightarrow> sys \<Rightarrow> sys res" where
  "process_orders e n s =
     efold (fill_queued_order e)
       (takeWhile (\<lambda>(_, order). is_open order) (take n (tindex by_time (rexorders s)))) s"

section \<open>Maintenance\<close>

definition channel_proceeds :: "'z sys_env_scheme \<Rightarrow> sys \<Rightarrow> sys res" where
  "channel_proceeds e s =
     ebind (the_pool s) (\<lambda>p.
     if 0 < amount (namebid_proceeds p)
     then let s1 = channel_to_rex e names_account (namebid_proceeds p) s
          in ebind (the_pool s1) (\<lambda>p1.
             Inr (s1\<lparr>rexpool := Some (p1\<lparr>namebid_proceeds := set_amount 0 (namebid_proceeds p1)\<rparr>)\<rparr>))
     else Inr s)"

definition runrex :: "'z sys_env_scheme \<Rightarrow> nat \<Rightarrow> sys \<Rightarrow> sys res" where
  "runrex e max_entries s =
     check (rex_system_initialized s) ''rex system not initialized yet''
     (ebind (channel_proceeds e s) (\<lambda>s1.
      ebind (process_loans CPU e max_entries s1) (\<lambda>s2.
      ebind (process_loans NET e max_entries s2) (\<lambda>s3.
      process_orders e max_entries s3))))"

section \<open>Loans of a user\<close>

definition rent_rex ::
  "resource \<Rightarrow> 'z sys_env_scheme \<Rightarrow> name \<Rightarrow> name \<Rightarrow> asset \<Rightarrow> asset \<Rightarrow> sys \<Rightarrow> (int \<times> sys) res" where
  "rent_rex r e from receiver payment fund s0 =
     ebind (runrex e 2 s0) (\<lambda>s.
     check (rex_loans_available s) ''rex loans are currently not available''
     (ebind (core_symbol s) (\<lambda>cs.
      check (symbol payment = cs \<and> symbol fund = cs) ''must use core token''
      (check (0 < amount payment \<and> 0 \<le> amount fund) ''must use positive asset amount''
      (ebind (asset_plus e payment fund) (\<lambda>sum.
       ebind (transfer_from_fund e from sum s) (\<lambda>s1.
       ebind (the_pool s1) (\<lambda>p.
       ebind (get_bancor_output (amount (total_rent p)) (amount (total_unlent p)) (amount payment))
         (\<lambda>rented_tokens.
       check (amount payment < rented_tokens) ''loan price does not favor renting''
       (let p' = add_loan_to_rex_pool payment rented_tokens True p
        in ebind (new_asset e rented_tokens cs) (\<lambda>staked_tokens.
           ebind (templace (loan_num p')
                    \<lparr>loan_from = from, loan_receiver = receiver, loan_payment = payment,
                     loan_balance = fund, loan_staked = staked_tokens,
                     loan_expiration = i64 (current_time e + days_30)\<rparr> (loans r s1)) (\<lambda>t.
           Inr (rented_tokens,
                send_inline (RexResult (RentResult staked_tokens))
                  (put_loans r t (s1\<lparr>rexpool := Some p'\<rparr>)))))))))))))))"

definition fund_rex_loan ::
  "resource \<Rightarrow> 'z sys_env_scheme \<Rightarrow> name \<Rightarrow> int \<Rightarrow> asset \<Rightarrow> sys \<Rightarrow> sys res" where
  "fund_rex_loan r e from num payment s =
     ebind (core_symbol s) (\<lambda>cs.
     check (symbol payment = cs) ''must use core token''
     (ebind (transfer_from_fund e from payment s) (\<lambda>s1.
      case tfind num (loans r s1) of
        None \<Rightarrow> Inl (Check ''loan not found'')
      | Some l \<Rightarrow>
          check (loan_from l = from) ''user must be loan creator''
          (check (current_time e < loan_expiration l) ''loan has already expired''
          (Inr (put_loans r
                  (AList.update num (l\<lparr>loan_balance := add_amount (amount payment) (loan_balance l)\<rparr>) (loans r s1))
                  s1))))))"

definition defund_rex_loan ::
  "resource \<Rightarrow> 'z sys_env_scheme \<Rightarrow> name \<Rightarrow> int \<Rightarrow> asset \<Rightarrow> sys \<Rightarrow> sys res" where
  "defund_rex_loan r e from num q s =
     ebind (core_symbol s) (\<lambda>cs.
     check (symbol q = cs) ''must use core token''
     (case tfind num (loans r s) of
        None \<Rightarrow> Inl (Check ''loan not found'')
      | Some l \<Rightarrow>
          check (loan_from l = from) ''user must be loan creator''
          (check (current_time e < loan_expiration l) ''loan has already expired''
          (ebind (asset_le e q (loan_balance l)) (\<lambda>enough.
           check enough ''insufficent loan balance''
           (transfer_to_fund from q
              (put_loans r
                 (AList.update num (l\<lparr>loan_balance := add_amount (- amount q) (loan_balance l)\<rparr>) (loans r s))
                 s)))))))"

end
