(* ===== verification/Voting.thy ===== *)
theory Voting
  imports Rex_Run
begin

text \<open>
  Producer registration and voting, \<open>voting.cpp\<close>: the tallies of votes and of vote-pay
  shares, in double arithmetic as in the source, votes and proxies, and the election of the
  schedule.

  \<open>propagate_weight_change\<close> follows a chain of proxies recursively; here it takes the number
  of further calls it may make. \<open>proxy_fuel\<close> is the bound every caller passes; the theory
  \<open>Proxy_Chains\<close> shows that it is always enough.
\<close>

section \<open>Constants\<close>

definition useconds_per_day :: int where "useconds_per_day = 24 * 3600 * 1000000"
definition seconds_per_year :: int where "seconds_per_year = 52 * 7 * 24 * 3600"
definition useconds_per_year :: int where "useconds_per_year = 52 * 7 * 24 * 3600 * 1000000"
definition min_activated_stake :: int where "min_activated_stake = 1500000000000"
definition block_timestamp_epoch :: int where "block_timestamp_epoch = 946684800000"

section \<open>Weights and shares\<close>

definition stake2vote :: "'z sys_env_scheme \<Rightarrow> int \<Rightarrow> double" where
  "stake2vote e st =
     (let weight = dbl (tdiv (i64 (current_sec e - tdiv block_timestamp_epoch 1000)) (seconds_per_day * 7)) / dbl 52
      in dbl st * pow e (dbl 2) weight)"

text \<open>Elapsed time in seconds, as a double.\<close>

definition elapsed :: "int \<Rightarrow> int \<Rightarrow> double" where
  "elapsed from until = dbl (i64 (until - from)) / dbl 1000000"

definition update_total_votepay_share ::
  "int \<Rightarrow> double \<Rightarrow> double \<Rightarrow> sys \<Rightarrow> double \<times> sys" where
  "update_total_votepay_share ct additional_shares_delta shares_rate_delta s =
     (let g2 = gstate2 s;
          g3 = gstate3 s;
          delta0 = (if last_vpay_state_update g3 < ct
                    then total_vpay_share_change_rate g3 * elapsed (last_vpay_state_update g3) ct
                    else 0);
          delta = delta0 + additional_shares_delta;
          tot = (if delta < 0 \<and> total_producer_votepay_share g2 < - delta then 0
                 else total_producer_votepay_share g2 + delta);
          rate = (if shares_rate_delta < 0 \<and> total_vpay_share_change_rate g3 < - shares_rate_delta then 0
                  else total_vpay_share_change_rate g3 + shares_rate_delta)
      in (tot, s\<lparr>gstate2 := g2\<lparr>total_producer_votepay_share := tot\<rparr>,
                 gstate3 := g3\<lparr>total_vpay_share_change_rate := rate, last_vpay_state_update := ct\<rparr>\<rparr>))"

definition update_producer_votepay_share ::
  "int \<Rightarrow> double \<Rightarrow> bool \<Rightarrow> producer_info2 \<Rightarrow> double \<times> producer_info2" where
  "update_producer_votepay_share ct shares_rate reset_to_zero p =
     (let delta = (if 0 < shares_rate \<and> last_votepay_share_update p < ct
                   then shares_rate * elapsed (last_votepay_share_update p) ct else 0);
          new_share = votepay_share p + delta
      in (new_share, p\<lparr>votepay_share := (if reset_to_zero then 0 else new_share),
                       last_votepay_share_update := ct\<rparr>))"

text \<open>
  The block that follows a change of a producer's votes, the same in \<open>update_votes\<close> and in
  \<open>propagate_weight_change\<close>: the producer's share is brought up to date, and the change of
  the global rate and the shares of producers that no longer claim are collected.
\<close>

record vpay_acc =
  delta_change_rate :: double
  total_inactive_vpay_share :: double

definition track_votepay ::
  "int \<Rightarrow> name \<Rightarrow> int \<Rightarrow> double \<Rightarrow> double \<Rightarrow> vpay_acc \<times> sys \<Rightarrow> vpay_acc \<times> sys" where
  "track_votepay ct n last_claim init_total_votes delta st =
     (case st of (acc, s) \<Rightarrow>
        case tfind n (producers2 s) of
          None \<Rightarrow> (acc, s)
        | Some p2 \<Rightarrow>
            let last_claim_plus_3days = i64 (last_claim + 3 * useconds_per_day);
                crossed_threshold = (last_claim_plus_3days \<le> ct);
                updated_after_threshold = (last_claim_plus_3days \<le> last_votepay_share_update p2)
            in case update_producer_votepay_share ct
                      (if updated_after_threshold then 0 else init_total_votes)
                      (crossed_threshold \<and> \<not> updated_after_threshold) p2 of
                 (new_share, p2') \<Rightarrow>
                   (if \<not> crossed_threshold
                    then acc\<lparr>delta_change_rate := delta_change_rate acc + delta\<rparr>
                    else if \<not> updated_after_threshold
                    then acc\<lparr>total_inactive_vpay_share := total_inactive_vpay_share acc + new_share,
                              delta_change_rate := delta_change_rate acc - init_total_votes\<rparr>
                    else acc,
                    s\<lparr>producers2 := AList.update n p2' (producers2 s)\<rparr>))"

definition vpay_acc0 :: vpay_acc where
  "vpay_acc0 = \<lparr>delta_change_rate = 0, total_inactive_vpay_share = 0\<rparr>"

section \<open>Proxies\<close>

definition has_proxy :: "voter_info \<Rightarrow> bool" where
  "has_proxy v \<longleftrightarrow> proxy v \<noteq> 0"

definition set_voter :: "name \<Rightarrow> (voter_info \<Rightarrow> voter_info) \<Rightarrow> sys \<Rightarrow> sys res" where
  "set_voter n f s = ebind (tmodify n f (voters s)) (\<lambda>t. Inr (s\<lparr>voters := t\<rparr>))"

text \<open>A change of a voter's weight reaches one of the producers it votes for.\<close>

definition propagate_to_producer ::
  "int \<Rightarrow> double \<Rightarrow> name \<Rightarrow> vpay_acc \<times> sys \<Rightarrow> (vpay_acc \<times> sys) res" where
  "propagate_to_producer ct delta acnt st =
     (case st of (acc, s) \<Rightarrow>
        case tfind acnt (producers s) of
          None \<Rightarrow> Inl (Check ''producer not found'')
        | Some pr \<Rightarrow>
            let g = gstate s;
                s1 = s\<lparr>producers := AList.update acnt (pr\<lparr>total_votes := total_votes pr + delta\<rparr>) (producers s),
                       gstate := g\<lparr>total_producer_vote_weight := total_producer_vote_weight g + delta\<rparr>\<rparr>
            in Inr (track_votepay ct acnt (last_claim_time pr) (total_votes pr) delta (acc, s1)))"

definition propagate_to_producers :: "int \<Rightarrow> double \<Rightarrow> name list \<Rightarrow> sys \<Rightarrow> sys res" where
  "propagate_to_producers ct delta accts s =
     ebind (efold (propagate_to_producer ct delta) accts (vpay_acc0, s)) (\<lambda>(acc, s1).
     Inr (snd (update_total_votepay_share ct (- total_inactive_vpay_share acc) (delta_change_rate acc) s1)))"

fun propagate_weight_change :: "nat \<Rightarrow> 'z sys_env_scheme \<Rightarrow> name \<Rightarrow> sys \<Rightarrow> sys res" where
  "propagate_weight_change 0 e voter s = Inl OutOfFuel"
| "propagate_weight_change (Suc fuel) e voter s =
     (case tfind voter (voters s) of
        None \<Rightarrow> Inl MissingRow
      | Some v \<Rightarrow>
          check (\<not> has_proxy v \<or> \<not> is_proxy v) ''account registered as a proxy is not allowed to use a proxy''
          (let own_weight = stake2vote e (staked v);
               new_weight = (if is_proxy v then own_weight + proxied_vote_weight v else own_weight)
           in ebind (if 1 < abs (new_weight - last_vote_weight v)
                     then if has_proxy v
                          then case tfind (proxy v) (voters s) of
                                 None \<Rightarrow> Inl (Check ''proxy not found'')
                               | Some p \<Rightarrow>
                                   ebind (set_voter (proxy v) (\<lambda>p. p\<lparr>proxied_vote_weight :=
                                            proxied_vote_weight p + (new_weight - last_vote_weight v)\<rparr>) s) (\<lambda>s1.
                                   propagate_weight_change fuel e (proxy v) s1)
                          else propagate_to_producers (current_time e) (new_weight - last_vote_weight v)
                                 (voted_producers v) s
                     else Inr s) (\<lambda>s2.
              set_voter voter (\<lambda>v. v\<lparr>last_vote_weight := new_weight\<rparr>) s2)))"

definition proxy_fuel :: "sys \<Rightarrow> nat" where
  "proxy_fuel s = Suc (length (voters s))"

definition propagate :: "'z sys_env_scheme \<Rightarrow> name \<Rightarrow> sys \<Rightarrow> sys res" where
  "propagate e voter s = propagate_weight_change (proxy_fuel s) e voter s"

section \<open>Casting votes\<close>

fun strictly_sorted :: "name list \<Rightarrow> bool" where
  "strictly_sorted (a # b # rest) = (a < b \<and> strictly_sorted (b # rest))"
| "strictly_sorted _ = True"

text \<open>The map from producers to the change of their votes and whether they are voted for now.\<close>

type_synonym deltas = "(name, double \<times> bool) table"

definition delta_at :: "deltas \<Rightarrow> name \<Rightarrow> double" where
  "delta_at d p = (case tfind p d of None \<Rightarrow> 0 | Some (x, _) \<Rightarrow> x)"

definition subtract_votes :: "double \<Rightarrow> name list \<Rightarrow> deltas \<Rightarrow> deltas" where
  "subtract_votes w ps d = fold (\<lambda>p d. AList.update p (delta_at d p - w, False) d) ps d"

definition add_votes :: "double \<Rightarrow> name list \<Rightarrow> deltas \<Rightarrow> deltas" where
  "add_votes w ps d = fold (\<lambda>p d. AList.update p (delta_at d p + w, True) d) ps d"

text \<open>One producer of the map.\<close>

definition apply_delta ::
  "int \<Rightarrow> bool \<Rightarrow> (name \<times> double \<times> bool) \<Rightarrow> vpay_acc \<times> sys \<Rightarrow> (vpay_acc \<times> sys) res" where
  "apply_delta ct voting pd st =
     (case (pd, st) of ((n, delta, is_new), (acc, s)) \<Rightarrow>
        case tfind n (producers s) of
          None \<Rightarrow> check (\<not> is_new) ''producer is not registered'' (Inr (acc, s))
        | Some pr \<Rightarrow>
            check (\<not> voting \<or> is_active pr \<or> \<not> is_new) ''producer is not currently registered''
            (let votes = total_votes pr + delta;
                 g = gstate s;
                 s1 = s\<lparr>producers := AList.update n (pr\<lparr>total_votes := (if votes < 0 then 0 else votes)\<rparr>) (producers s),
                        gstate := g\<lparr>total_producer_vote_weight := total_producer_vote_weight g + delta\<rparr>\<rparr>
             in Inr (track_votepay ct n (last_claim_time pr) (total_votes pr) delta (acc, s1))))"

text \<open>The input validation at the head of \<open>update_votes\<close>.\<close>

definition valid_vote :: "name \<Rightarrow> name \<Rightarrow> name list \<Rightarrow> 'a res \<Rightarrow> 'a res" where
  "valid_vote voter_name prx prods k =
     (if prx \<noteq> 0
      then check (prods = []) ''cannot vote for producers and proxy at same time''
           (check (voter_name \<noteq> prx) ''cannot proxy to self'' k)
      else check (length prods \<le> 30) ''attempt to vote for too many producers''
           (check (strictly_sorted prods) ''producer votes must be unique and sorted'' k))"

definition activate_stake :: "'z sys_env_scheme \<Rightarrow> voter_info \<Rightarrow> sys \<Rightarrow> sys" where
  "activate_stake e v s =
     (if last_vote_weight v \<le> 0
      then let g = gstate s;
               act = i64 (total_activated_stake g + staked v)
           in s\<lparr>gstate := g\<lparr>total_activated_stake := act,
                  thresh_activated_stake_time :=
                    (if min_activated_stake \<le> act \<and> thresh_activated_stake_time g = 0
                     then current_time e else thresh_activated_stake_time g)\<rparr>\<rparr>
      else s)"

text \<open>The old vote is withdrawn: from the old proxy, or from the map of producers.\<close>

definition withdraw_vote ::
  "'z sys_env_scheme \<Rightarrow> voter_info \<Rightarrow> sys \<Rightarrow> (deltas \<times> sys) res" where
  "withdraw_vote e v s =
     (if 0 < last_vote_weight v
      then if has_proxy v
           then case tfind (proxy v) (voters s) of
                  None \<Rightarrow> Inl (Check ''old proxy not found'')
                | Some _ \<Rightarrow>
                    ebind (set_voter (proxy v) (\<lambda>vp. vp\<lparr>proxied_vote_weight :=
                             proxied_vote_weight vp - last_vote_weight v\<rparr>) s) (\<lambda>s1.
                    ebind (propagate e (proxy v) s1) (\<lambda>s2. Inr ([], s2)))
           else Inr (subtract_votes (last_vote_weight v) (voted_producers v) [], s)
      else Inr ([], s))"

text \<open>The new vote is cast: to the new proxy, or into the map of producers.\<close>

definition cast_vote ::
  "'z sys_env_scheme \<Rightarrow> double \<Rightarrow> name \<Rightarrow> name list \<Rightarrow> bool \<Rightarrow> deltas \<times> sys \<Rightarrow> (deltas \<times> sys) res" where
  "cast_vote e new_vote_weight prx prods voting st =
     (case st of (d, s) \<Rightarrow>
        if prx \<noteq> 0
        then case tfind prx (voters s) of
               None \<Rightarrow> Inl (Check ''invalid proxy specified'')
             | Some np \<Rightarrow>
                 check (\<not> voting \<or> is_proxy np) ''proxy not found''
                 (if 0 \<le> new_vote_weight
                  then ebind (set_voter prx (\<lambda>vp. vp\<lparr>proxied_vote_weight :=
                                proxied_vote_weight vp + new_vote_weight\<rparr>) s) (\<lambda>s1.
                       ebind (propagate e prx s1) (\<lambda>s2. Inr (d, s2)))
                  else Inr (d, s))
        else Inr (if 0 \<le> new_vote_weight then add_votes new_vote_weight prods d else d, s))"

definition update_votes ::
  "'z sys_env_scheme \<Rightarrow> name \<Rightarrow> name \<Rightarrow> name list \<Rightarrow> bool \<Rightarrow> sys \<Rightarrow> sys res" where
  "update_votes e voter_name prx prods voting s =
     valid_vote voter_name prx prods
     (case tfind voter_name (voters s) of
        None \<Rightarrow> Inl (Check ''user must stake before they can vote'')
      | Some v \<Rightarrow>
          check (prx = 0 \<or> \<not> is_proxy v) ''account registered as a proxy is not allowed to use a proxy''
          (let new_vote_weight = (if is_proxy v then stake2vote e (staked v) + proxied_vote_weight v
                                  else stake2vote e (staked v))
           in ebind (withdraw_vote e v (activate_stake e v s)) (\<lambda>st.
              ebind (cast_vote e new_vote_weight prx prods voting st) (\<lambda>(d, s2).
              ebind (efold (apply_delta (current_time e) voting) (sort_key fst d) (vpay_acc0, s2)) (\<lambda>(acc, s3).
              set_voter voter_name
                (\<lambda>v. v\<lparr>last_vote_weight := new_vote_weight, voted_producers := prods, proxy := prx\<rparr>)
                (snd (update_total_votepay_share (current_time e)
                        (- total_inactive_vpay_share acc) (delta_change_rate acc) s3)))))))"

definition check_voting_requirement :: "name \<Rightarrow> string \<Rightarrow> sys \<Rightarrow> 'a res \<Rightarrow> 'a res" where
  "check_voting_requirement owner error_msg s k =
     check (case tfind owner (voters s) of
              None \<Rightarrow> False
            | Some v \<Rightarrow> has_proxy v \<or> 21 \<le> length (voted_producers v)) error_msg k"

definition voteproducer ::
  "'z sys_env_scheme \<Rightarrow> name \<Rightarrow> name \<Rightarrow> name list \<Rightarrow> sys \<Rightarrow> sys res" where
  "voteproducer e voter_name prx prods s =
     require_auth e voter_name
     (ebind (update_rex_stake voter_name s) (\<lambda>s1.
      ebind (update_votes e voter_name prx prods True s1) (\<lambda>s2.
      case tfind voter_name (rexbalance s2) of
        None \<Rightarrow> Inr s2
      | Some rb \<Rightarrow>
          if 0 < amount (rex_held rb)
          then check_voting_requirement voter_name
                 ''voter holding REX tokens must vote for at least 21 producers or for a proxy'' s2 (Inr s2)
          else Inr s2)))"

definition regproxy :: "'z sys_env_scheme \<Rightarrow> name \<Rightarrow> bool \<Rightarrow> sys \<Rightarrow> sys res" where
  "regproxy e prx isproxy s =
     require_auth e prx
     (case tfind prx (voters s) of
        Some v \<Rightarrow>
          check (isproxy \<noteq> is_proxy v) ''action has no effect''
          (check (\<not> isproxy \<or> \<not> has_proxy v) ''account that uses a proxy is not allowed to become a proxy''
          (ebind (set_voter prx (\<lambda>v. v\<lparr>is_proxy := isproxy\<rparr>) s) (\<lambda>s1.
           propagate e prx s1)))
      | None \<Rightarrow>
          ebind (templace prx (new_voter\<lparr>is_proxy := isproxy\<rparr>) (voters s)) (\<lambda>t.
          Inr (s\<lparr>voters := t\<rparr>)))"

section \<open>Producers\<close>

definition new_producer2 :: "int \<Rightarrow> producer_info2" where
  "new_producer2 ct = \<lparr>votepay_share = 0, last_votepay_share_update = ct\<rparr>"

definition regproducer ::
  "'z sys_env_scheme \<Rightarrow> name \<Rightarrow> public_key \<Rightarrow> string \<Rightarrow> int \<Rightarrow> sys \<Rightarrow> sys res" where
  "regproducer e producer key link loc s =
     check (length link < 512) ''url too long''
     (check (key \<noteq> default_key e) ''public key should not be the default value''
     (require_auth e producer
     (let ct = current_time e
      in case tfind producer (producers s) of
           Some info \<Rightarrow>
             let s1 = s\<lparr>producers := AList.update producer
                   (info\<lparr>producer_key := key, is_active := True, url := link, location := loc,
                         last_claim_time := (if last_claim_time info = 0 then ct else last_claim_time info)\<rparr>)
                   (producers s)\<rparr>
             in (case tfind producer (producers2 s1) of
                   Some _ \<Rightarrow> Inr s1
                 | None \<Rightarrow>
                     ebind (templace producer (new_producer2 ct) (producers2 s1)) (\<lambda>t.
                     Inr (snd (update_total_votepay_share ct 0 (total_votes info) (s1\<lparr>producers2 := t\<rparr>)))))
         | None \<Rightarrow>
             ebind (templace producer
                      \<lparr>total_votes = 0, producer_key = key, is_active = True, url = link,
                       unpaid_blocks = 0, last_claim_time = ct, location = loc\<rparr> (producers s)) (\<lambda>t.
             ebind (templace producer (new_producer2 ct) (producers2 s)) (\<lambda>t2.
             Inr (s\<lparr>producers := t, producers2 := t2\<rparr>))))))"

definition unregprod :: "'z sys_env_scheme \<Rightarrow> name \<Rightarrow> sys \<Rightarrow> sys res" where
  "unregprod e producer s =
     require_auth e producer
     (case tfind producer (producers s) of
        None \<Rightarrow> Inl (Check ''producer not found'')
      | Some p \<Rightarrow> Inr (s\<lparr>producers := AList.update producer (deactivate (default_key e) p) (producers s)\<rparr>))"

text \<open>The order of the index by votes; there is no NaN in a secondary index.\<close>

fun double_key :: "double \<Rightarrow> int \<times> rat" where
  "double_key NInf = (- 1, 0)"
| "double_key (Fin x) = (0, x)"
| "double_key PInf = (1, 0)"
| "double_key NaN = (2, 0)"

definition top_producers :: "sys \<Rightarrow> (name \<times> producer_info) list" where
  "top_producers s =
     take 21 (takeWhile (\<lambda>(_, p). 0 < total_votes p \<and> is_active p)
       (tindex (\<lambda>p. double_key (by_votes p)) (producers s)))"

definition schedule_of :: "(name \<times> producer_info) list \<Rightarrow> (name \<times> public_key) list" where
  "schedule_of best = map (\<lambda>(n, p). (n, producer_key p)) (sort_key fst best)"

definition update_elected_producers :: "'z sys_env_scheme \<Rightarrow> int \<Rightarrow> sys \<Rightarrow> sys" where
  "update_elected_producers e block_time s0 =
     (let s = s0\<lparr>gstate := (gstate s0)\<lparr>last_producer_schedule_update := block_time\<rparr>\<rparr>;
          best = top_producers s
      in if int (length best) < last_producer_schedule_size (gstate s) then s
         else if 0 \<le> set_proposed_producers e (schedule_of best)
         then s\<lparr>proposed_schedule := schedule_of best,
                gstate := (gstate s)\<lparr>last_producer_schedule_size := u16 (int (length best))\<rparr>\<rparr>
         else s)"

end
