(* ===== verification/Ram_Market.thy ===== *)
theory Ram_Market
  imports Rex_Run
begin

text \<open>
  RAM: its supply, \<open>setram\<close>, \<open>setramrate\<close> and \<open>update_ram_supply\<close> of
  \<open>eosio.system.cpp\<close>, and its trade, \<open>buyrambytes\<close>, \<open>buyram\<close> and \<open>sellram\<close> of
  \<open>delegate_bandwidth.cpp\<close>.

  The invariant \<open>ram_inv\<close> is the conservation of RAM: what the market still offers and what
  users have reserved add up to the maximum supply.
\<close>

section \<open>Supply\<close>

text \<open>\<open>_rammarket.modify\<close> of the base balance; there must be a market.\<close>

definition grow_market :: "int \<Rightarrow> sys \<Rightarrow> sys res" where
  "grow_market delta s =
     ebind (tmodify ramcore_symbol
              (\<lambda>m. m\<lparr>ex_base := (ex_base m)\<lparr>c_balance := add_amount delta (c_balance (ex_base m))\<rparr>\<rparr>)
              (rammarket s)) (\<lambda>t.
     Inr (s\<lparr>rammarket := t\<rparr>))"

definition setram :: "'z sys_env_scheme \<Rightarrow> int \<Rightarrow> sys \<Rightarrow> sys res" where
  "setram e new_max s =
     require_auth e (self e)
     (check (max_ram_size (gstate s) < new_max) ''ram may only be increased''
     (check (new_max < 1024 * 1024 * 1024 * 1024 * 1024) ''ram size is unrealistic''
     (check (total_ram_bytes_reserved (gstate s) < new_max) ''attempt to set max below reserved''
     (ebind (grow_market (i64 (i64 new_max - i64 (max_ram_size (gstate s)))) s) (\<lambda>s1.
      Inr (s1\<lparr>gstate := (gstate s1)\<lparr>max_ram_size := new_max\<rparr>\<rparr>))))))"

text \<open>The product of two unsigned factors is computed in 32 bits.\<close>

definition new_ram :: "int \<Rightarrow> int \<Rightarrow> int \<Rightarrow> int" where
  "new_ram slot last_slot rate = u32 (u32 (slot - last_slot) * rate)"

definition update_ram_supply :: "'z sys_env_scheme \<Rightarrow> sys \<Rightarrow> sys res" where
  "update_ram_supply e s =
     (let cbt = current_slot e
      in if cbt \<le> last_ram_increase (gstate2 s) then Inr s
         else
           let r = new_ram cbt (last_ram_increase (gstate2 s)) (new_ram_per_block (gstate2 s))
           in ebind (grow_market r s) (\<lambda>s1.
              Inr (s1\<lparr>gstate := (gstate s1)\<lparr>max_ram_size := u64 (max_ram_size (gstate s1) + r)\<rparr>,
                      gstate2 := (gstate2 s1)\<lparr>last_ram_increase := cbt\<rparr>\<rparr>)))"

definition setramrate :: "'z sys_env_scheme \<Rightarrow> int \<Rightarrow> sys \<Rightarrow> sys res" where
  "setramrate e bytes_per_block s =
     require_auth e (self e)
     (ebind (update_ram_supply e s) (\<lambda>s1.
      Inr (s1\<lparr>gstate2 := (gstate2 s1)\<lparr>new_ram_per_block := bytes_per_block\<rparr>\<rparr>)))"

section \<open>Trade\<close>

definition ram_gift_bytes :: int where "ram_gift_bytes = 1400"

text \<open>The fee is half a percent, rounded up.\<close>

definition ram_fee :: "int \<Rightarrow> int" where
  "ram_fee x = tdiv (i64 (x + 199)) 200"

text \<open>The RAM limit of an account whose RAM is not managed follows its quota.\<close>

definition set_ram_limit :: "name \<Rightarrow> int \<Rightarrow> sys \<Rightarrow> sys res" where
  "set_ram_limit n bytes s =
     (if managed n ram_managed s then Inr s
      else ebind (get_limits n s) (\<lambda>(ram, net, cpu). set_limits n (i64 (bytes + ram_gift_bytes)) net cpu s))"

text \<open>A conversion on the stored market.\<close>

definition convert_market ::
  "'z sys_env_scheme \<Rightarrow> asset \<Rightarrow> symbol \<Rightarrow> error \<Rightarrow> sys \<Rightarrow> (asset \<times> sys) res" where
  "convert_market e from to missing s =
     (case tfind ramcore_symbol (rammarket s) of
        None \<Rightarrow> Inl missing
      | Some m \<Rightarrow>
          ebind (convert e m from to) (\<lambda>(m', out).
          Inr (out, s\<lparr>rammarket := AList.update ramcore_symbol m' (rammarket s)\<rparr>)))"

text \<open>The receiver's row after buying: a new one, or the old one with more bytes.\<close>

definition credit_ram :: "name \<Rightarrow> int \<Rightarrow> sys \<Rightarrow> sys res" where
  "credit_ram receiver bytes_out s =
     ebind (core_symbol s) (\<lambda>cs.
     let r = (case tfind receiver (userres s) of
                None \<Rightarrow> \<lparr>net_weight = mk_asset 0 cs, cpu_weight = mk_asset 0 cs, ram_bytes = bytes_out\<rparr>
              | Some r \<Rightarrow> r\<lparr>ram_bytes := i64 (ram_bytes r + bytes_out)\<rparr>)
     in set_ram_limit receiver (ram_bytes r) (s\<lparr>userres := AList.update receiver r (userres s)\<rparr>))"

definition buyram ::
  "'z sys_env_scheme \<Rightarrow> name \<Rightarrow> name \<Rightarrow> asset \<Rightarrow> sys \<Rightarrow> sys res" where
  "buyram e payer receiver quant s0 =
     require_auth e payer
     (ebind (update_ram_supply e s0) (\<lambda>s.
      ebind (core_symbol s) (\<lambda>cs.
      check (symbol quant = cs) ''must buy ram with core token''
      (check (0 < amount quant) ''must purchase a positive amount''
      (let fee = set_amount (ram_fee (amount quant)) quant;
           quant_after_fee = add_amount (- amount fee) quant;
           s1 = send_inline (send_transfer [payer, ram_account] payer ram_account quant_after_fee ''buy ram'') s;
           s2 = (if 0 < amount fee
                 then channel_to_rex e ramfee_account fee
                        (send_inline (send_transfer [payer] payer ramfee_account fee ''ram fee'') s1)
                 else s1)
       in ebind (convert_market e quant_after_fee ram_symbol (Check ''ram market does not exist'') s2)
            (\<lambda>(out, s3).
          check (0 < amount out) ''must reserve a positive amount''
          (credit_ram receiver (amount out)
             (s3\<lparr>gstate := (gstate s3)\<lparr>
                    total_ram_bytes_reserved := u64 (total_ram_bytes_reserved (gstate s3) + amount out),
                    total_ram_stake := i64 (total_ram_stake (gstate s3) + amount quant_after_fee)\<rparr>\<rparr>))))))))"

definition buyrambytes ::
  "'z sys_env_scheme \<Rightarrow> name \<Rightarrow> name \<Rightarrow> int \<Rightarrow> sys \<Rightarrow> sys res" where
  "buyrambytes e payer receiver bytes s =
     (case tfind ramcore_symbol (rammarket s) of
        None \<Rightarrow> Inl MissingRow
      | Some tmp \<Rightarrow>
          ebind (core_symbol s) (\<lambda>cs.
          ebind (convert e tmp (mk_asset bytes ram_symbol) cs) (\<lambda>(_, eosout).
          buyram e payer receiver eosout s)))"

definition sellram :: "'z sys_env_scheme \<Rightarrow> name \<Rightarrow> int \<Rightarrow> sys \<Rightarrow> sys res" where
  "sellram e account bytes s0 =
     require_auth e account
     (ebind (update_ram_supply e s0) (\<lambda>s.
      check (0 < bytes) ''cannot sell negative byte''
      (case tfind account (userres s) of
         None \<Rightarrow> Inl (Check ''no resource row'')
       | Some r \<Rightarrow>
           check (bytes \<le> ram_bytes r) ''insufficient quota''
           (ebind (core_symbol s) (\<lambda>cs.
            ebind (new_asset e bytes ram_symbol) (\<lambda>sold.
            ebind (convert_market e sold cs MissingRow s) (\<lambda>(tokens_out, s1).
            check (1 < amount tokens_out) ''token amount received from selling ram is too low''
            (let stake_left = i64 (total_ram_stake (gstate s1) - amount tokens_out)
             in check (0 \<le> stake_left) ''error, attempt to unstake more tokens than previously staked''
                (let s2 = s1\<lparr>gstate := (gstate s1)\<lparr>
                        total_ram_bytes_reserved := u64 (total_ram_bytes_reserved (gstate s1) - bytes),
                        total_ram_stake := stake_left\<rparr>,
                      userres := AList.update account (r\<lparr>ram_bytes := i64 (ram_bytes r - bytes)\<rparr>) (userres s1)\<rparr>
                 in ebind (set_ram_limit account (i64 (ram_bytes r - bytes)) s2) (\<lambda>s3.
                    let s4 = send_inline (send_transfer [ram_account, account] ram_account account
                                tokens_out ''sell ram'') s3;
                        fee = ram_fee (amount tokens_out)
                    in if 0 < fee
                       then ebind (new_asset e fee cs) (\<lambda>fee_asset.
                            Inr (channel_to_rex e ramfee_account fee_asset
                                   (send_inline (send_transfer [account] account ramfee_account
                                      fee_asset ''sell ram fee'') s4)))
                       else Inr s4))))))))))"

end
