(* ===== verification/Bandwidth.thy ===== *)
theory Bandwidth
  imports Voting Ram_Market
begin

text \<open>
  Staking, \<open>delegate_bandwidth.cpp\<close>: \<open>changebw\<close> with its four parts in the order of the
  source (the delegation, the receiver's totals, the refund request with its deferred
  transaction and the transfer, the voting power), the actions \<open>delegatebw\<close>,
  \<open>undelegatebw\<close> and \<open>refund\<close>, and \<open>update_voting_power\<close>, which the resource
  exchange uses too.
\<close>

section \<open>Voting power\<close>

definition b1_base_time :: int where "b1_base_time = 1527811200"
definition b1_max_claimable :: int where "b1_max_claimable = 1000000000000"

definition validate_b1_vesting :: "'z sys_env_scheme \<Rightarrow> int \<Rightarrow> unit res" where
  "validate_b1_vesting e stake =
     ebind (int64_of ((dbl b1_max_claimable * dbl (i64 (current_sec e - b1_base_time)))
                      / dbl (u32 (10 * seconds_per_year)))) (\<lambda>claimable.
     check (i64 (b1_max_claimable - claimable) \<le> stake) ''b1 can only claim their tokens over 10 years'' (Inr ()))"

definition update_voting_power :: "'z sys_env_scheme \<Rightarrow> name \<Rightarrow> asset \<Rightarrow> sys \<Rightarrow> sys res" where
  "update_voting_power e voter total_update s =
     (let v = (case tfind voter (voters s) of
                 None \<Rightarrow> new_voter\<lparr>staked := amount total_update\<rparr>
               | Some v \<Rightarrow> v\<lparr>staked := i64 (staked v + amount total_update)\<rparr>);
          s1 = s\<lparr>voters := AList.update voter v (voters s)\<rparr>
      in check (0 \<le> staked v) ''stake for voting cannot be negative''
         (ebind (if voter = b1_account then validate_b1_vesting e (staked v) else Inr ()) (\<lambda>_.
          if voted_producers v \<noteq> [] \<or> has_proxy v
          then update_votes e voter (proxy v) (voted_producers v) False s1
          else Inr s1)))"

section \<open>The parts of changebw\<close>

text \<open>The delegation from \<open>from\<close> to \<open>receiver\<close>.\<close>

definition change_delegation ::
  "'z sys_env_scheme \<Rightarrow> name \<Rightarrow> name \<Rightarrow> asset \<Rightarrow> asset \<Rightarrow> sys \<Rightarrow> sys res" where
  "change_delegation e from receiver net cpu s =
     ebind (case tfind (from, receiver) (delband s) of
              None \<Rightarrow> Inr \<lparr>del_net = net, del_cpu = cpu\<rparr>
            | Some d \<Rightarrow>
                ebind (asset_plus e (del_net d) net) (\<lambda>n.
                ebind (asset_plus e (del_cpu d) cpu) (\<lambda>c.
                Inr \<lparr>del_net = n, del_cpu = c\<rparr>)))
     (\<lambda>d.
     check (0 \<le> amount (del_net d)) ''insufficient staked net bandwidth''
     (check (0 \<le> amount (del_cpu d)) ''insufficient staked cpu bandwidth''
     (Inr (s\<lparr>delband :=
        (if delegation_empty d then terase (from, receiver) (delband s)
         else AList.update (from, receiver) d (delband s))\<rparr>))))"

text \<open>The totals of \<open>receiver\<close> and the chain's limits for it.\<close>

definition staked_resources ::
  "'z sys_env_scheme \<Rightarrow> name \<Rightarrow> asset \<Rightarrow> asset \<Rightarrow> sys \<Rightarrow> user_resources res" where
  "staked_resources e receiver net cpu s =
     (case tfind receiver (userres s) of
        None \<Rightarrow> Inr \<lparr>net_weight = net, cpu_weight = cpu, ram_bytes = 0\<rparr>
      | Some r \<Rightarrow>
          ebind (asset_plus e (net_weight r) net) (\<lambda>n.
          ebind (asset_plus e (cpu_weight r) cpu) (\<lambda>c.
          Inr (r\<lparr>net_weight := n, cpu_weight := c\<rparr>))))"

definition change_totals ::
  "'z sys_env_scheme \<Rightarrow> name \<Rightarrow> asset \<Rightarrow> asset \<Rightarrow> sys \<Rightarrow> sys res" where
  "change_totals e receiver net cpu s =
     ebind (staked_resources e receiver net cpu s) (\<lambda>tot.
     check (0 \<le> amount (net_weight tot)) ''insufficient staked total net bandwidth''
     (check (0 \<le> amount (cpu_weight tot)) ''insufficient staked total cpu bandwidth''
     (ebind (limits_follow receiver
               (\<lambda>ram. if managed receiver ram_managed s then ram else max (i64 (ram_bytes tot + ram_gift_bytes)) ram)
               tot s) (\<lambda>s1.
      Inr (put_resources receiver tot s1)))))"

text \<open>
  One side, NET or CPU, of an existing refund request: the amount still to refund and what is
  left of the balance.
\<close>

definition settle_refund :: "'z sys_env_scheme \<Rightarrow> asset \<Rightarrow> asset \<Rightarrow> (asset \<times> asset) res" where
  "settle_refund e requested delta =
     ebind (asset_minus e requested delta) (\<lambda>r.
     Inr (if amount r < 0 then (set_amount 0 r, asset_neg e r) else (r, set_amount 0 delta)))"

text \<open>One side of a new refund request.\<close>

definition open_refund :: "'z sys_env_scheme \<Rightarrow> symbol \<Rightarrow> asset \<Rightarrow> asset \<times> asset" where
  "open_refund e cs delta =
     (if amount delta < 0 then (asset_neg e delta, set_amount 0 delta) else (mk_asset 0 cs, delta))"

definition refund_delay_sec :: int where "refund_delay_sec = 3 * 24 * 3600"

text \<open>The refund table; whether a deferred refund is needed, and the balances left to transfer.\<close>

definition change_refund ::
  "'z sys_env_scheme \<Rightarrow> name \<Rightarrow> asset \<Rightarrow> asset \<Rightarrow> sys \<Rightarrow> (bool \<times> asset \<times> asset \<times> sys) res" where
  "change_refund e from net cpu s =
     (case tfind from (refunds s) of
        Some r \<Rightarrow>
          ebind (settle_refund e (net_amount r) net) (\<lambda>(net_left, net_balance).
          ebind (settle_refund e (cpu_amount r) cpu) (\<lambda>(cpu_left, cpu_balance).
          let r' = r\<lparr>request_time := (if amount net < 0 \<or> amount cpu < 0 then current_sec e else request_time r),
                     net_amount := net_left, cpu_amount := cpu_left\<rparr>
          in check (0 \<le> amount (net_amount r')) ''negative net refund amount''
             (check (0 \<le> amount (cpu_amount r')) ''negative cpu refund amount''
             (Inr (if refund_empty r'
                   then (False, net_balance, cpu_balance, s\<lparr>refunds := terase from (refunds s)\<rparr>)
                   else (True, net_balance, cpu_balance, s\<lparr>refunds := AList.update from r' (refunds s)\<rparr>))))))
      | None \<Rightarrow>
          if amount net < 0 \<or> amount cpu < 0
          then ebind (core_symbol s) (\<lambda>cs.
               case (open_refund e cs net, open_refund e cs cpu) of
                 ((net_left, net_balance), (cpu_left, cpu_balance)) \<Rightarrow>
                   ebind (templace from
                            \<lparr>request_time = current_sec e, net_amount = net_left, cpu_amount = cpu_left\<rparr>
                            (refunds s)) (\<lambda>t.
                   Inr (True, net_balance, cpu_balance, s\<lparr>refunds := t\<rparr>)))
          else Inr (False, net, cpu, s))"

definition refund_id :: "name \<Rightarrow> int" where "refund_id n = uint n"

definition schedule_refund :: "bool \<Rightarrow> name \<Rightarrow> sys \<Rightarrow> sys" where
  "schedule_refund needed from s =
     (let s1 = cancel_deferred (refund_id from) s
      in if needed then send_deferred (refund_id from) (RefundTrx from refund_delay_sec) s1 else s1)"

definition transfer_stake ::
  "'z sys_env_scheme \<Rightarrow> bool \<Rightarrow> name \<Rightarrow> name \<Rightarrow> name \<Rightarrow> asset \<Rightarrow> asset \<Rightarrow> sys \<Rightarrow> sys res" where
  "transfer_stake e transfer_flag source_stake_from from receiver net cpu s =
     (if stake_account = source_stake_from then Inr s
      else
        let is_undelegating = i64 (amount net + amount cpu) < 0;
            is_delegating_to_self = (\<not> transfer_flag \<and> from = receiver)
        in ebind (if is_delegating_to_self \<or> is_undelegating
                  then change_refund e from net cpu s else Inr (False, net, cpu, s))
           (\<lambda>(need_deferred_trx, net_balance, cpu_balance, s1).
           let s2 = schedule_refund need_deferred_trx from s1
           in ebind (asset_plus e net_balance cpu_balance) (\<lambda>transfer_amount.
              Inr (if 0 < amount transfer_amount
                   then send_inline (send_transfer [source_stake_from] source_stake_from stake_account
                          transfer_amount ''stake bandwidth'') s2
                   else s2))))"

definition changebw ::
  "'z sys_env_scheme \<Rightarrow> name \<Rightarrow> name \<Rightarrow> asset \<Rightarrow> asset \<Rightarrow> bool \<Rightarrow> sys \<Rightarrow> sys res" where
  "changebw e source_stake_from receiver net cpu transfer_flag s =
     require_auth e source_stake_from
     (check (amount net \<noteq> 0 \<or> amount cpu \<noteq> 0) ''should stake non-zero amount''
     (ebind (asset_plus e net cpu) (\<lambda>both.
      check (max (i64 \<bar>amount net\<bar>) (i64 \<bar>amount cpu\<bar>) \<le> i64 \<bar>amount both\<bar>) ''net and cpu deltas cannot be opposite signs''
      (let from = (if transfer_flag then receiver else source_stake_from)
       in ebind (change_delegation e from receiver net cpu s) (\<lambda>s1.
          ebind (change_totals e receiver net cpu s1) (\<lambda>s2.
          ebind (transfer_stake e transfer_flag source_stake_from from receiver net cpu s2) (\<lambda>s3.
          ebind (update_rex_stake from s3) (\<lambda>s4.
          update_voting_power e from both s4))))))))"

section \<open>The actions\<close>

definition delegatebw ::
  "'z sys_env_scheme \<Rightarrow> name \<Rightarrow> name \<Rightarrow> asset \<Rightarrow> asset \<Rightarrow> bool \<Rightarrow> sys \<Rightarrow> sys res" where
  "delegatebw e from receiver net cpu transfer_flag s =
     ebind (core_symbol s) (\<lambda>cs.
     ebind (asset_le e (mk_asset 0 cs) cpu) (\<lambda>cpu_ok.
     check cpu_ok ''must stake a positive amount''
     (ebind (asset_le e (mk_asset 0 cs) net) (\<lambda>net_ok.
      check net_ok ''must stake a positive amount''
      (check (0 < i64 (amount net + amount cpu)) ''must stake a positive amount''
      (check (\<not> transfer_flag \<or> from \<noteq> receiver) ''cannot use transfer flag if delegating to self''
      (changebw e from receiver net cpu transfer_flag s)))))))"

definition undelegatebw ::
  "'z sys_env_scheme \<Rightarrow> name \<Rightarrow> name \<Rightarrow> asset \<Rightarrow> asset \<Rightarrow> sys \<Rightarrow> sys res" where
  "undelegatebw e from receiver net cpu s =
     ebind (core_symbol s) (\<lambda>cs.
     ebind (asset_le e (mk_asset 0 cs) cpu) (\<lambda>cpu_ok.
     check cpu_ok ''must unstake a positive amount''
     (ebind (asset_le e (mk_asset 0 cs) net) (\<lambda>net_ok.
      check net_ok ''must unstake a positive amount''
      (check (0 < i64 (amount cpu + amount net)) ''must unstake a positive amount''
      (check (min_activated_stake \<le> total_activated_stake (gstate s))
         ''cannot undelegate bandwidth until the chain is activated (at least 15% of all tokens participate in voting)''
      (changebw e from receiver (asset_neg e net) (asset_neg e cpu) False s)))))))"

definition refund :: "'z sys_env_scheme \<Rightarrow> name \<Rightarrow> sys \<Rightarrow> sys res" where
  "refund e owner s =
     require_auth e owner
     (case tfind owner (refunds s) of
        None \<Rightarrow> Inl (Check ''refund request not found'')
      | Some r \<Rightarrow>
          check ((request_time r + refund_delay_sec) * 1000000 \<le> current_time e) ''refund is not available yet''
          (ebind (asset_plus e (net_amount r) (cpu_amount r)) (\<lambda>both.
           Inr (send_inline (send_transfer [stake_account, owner] stake_account owner both ''unstake'')
                  (s\<lparr>refunds := terase owner (refunds s)\<rparr>)))))"

end
