(* ===== verification/Rex.thy ===== *)
theory Rex
  imports Bandwidth
begin

text \<open>
  The actions of the resource exchange, upper half of \<open>rex.cpp\<close>: deposits, buying and
  selling REX, renting, and the maintenance of a user's REX balance. They combine the pool
  operations of \<open>Rex_Pool\<close> and \<open>Rex_Run\<close> with the voting power of \<open>Bandwidth\<close>.
\<close>

section \<open>Settling a filled order\<close>

text \<open>Returns the REX in the owner's open sell order, if there is one.\<close>

definition update_rex_account ::
  "'z sys_env_scheme \<Rightarrow> name \<Rightarrow> asset \<Rightarrow> asset \<Rightarrow> bool \<Rightarrow> sys \<Rightarrow> (asset \<times> sys) res" where
  "update_rex_account e owner pr delta_stake force_vote_update s =
     (case (case tfind owner (rexorders s) of
              None \<Rightarrow> (pr, delta_stake, mk_asset 0 rex_symbol, s)
            | Some order \<Rightarrow>
                if is_open order
                then (pr, delta_stake, mk_asset (amount (rex_requested order)) rex_symbol, s)
                else (add_amount (amount (order_proceeds order)) pr,
                      add_amount (amount (order_stake_change order)) delta_stake,
                      mk_asset 0 rex_symbol,
                      s\<lparr>rexorders := terase owner (rexorders s)\<rparr>)) of
        (to_fund, to_stake, rex_in_sell_order, s1) \<Rightarrow>
          ebind (if 0 < amount to_fund then transfer_to_fund owner to_fund s1 else Inr s1) (\<lambda>s2.
          ebind (if force_vote_update \<or> amount to_stake \<noteq> 0
                 then update_voting_power e owner to_stake s2 else Inr s2) (\<lambda>s3.
          Inr (rex_in_sell_order, s3))))"

text \<open>\<open>update_rex_account\<close> with nothing to add, as most actions call it.\<close>

definition settle_account :: "'z sys_env_scheme \<Rightarrow> name \<Rightarrow> bool \<Rightarrow> sys \<Rightarrow> (asset \<times> sys) res" where
  "settle_account e owner force s =
     ebind (core_symbol s) (\<lambda>cs.
     update_rex_account e owner (mk_asset 0 cs) (mk_asset 0 cs) force s)"

text \<open>The owner's REX balance, which must exist.\<close>

definition the_rex_balance :: "name \<Rightarrow> string \<Rightarrow> sys \<Rightarrow> rex_balance res" where
  "the_rex_balance owner msg s = of_option (Check msg) (tfind owner (rexbalance s))"

definition put_rex_balance :: "name \<Rightarrow> rex_balance \<Rightarrow> sys \<Rightarrow> sys" where
  "put_rex_balance owner rb s = s\<lparr>rexbalance := AList.update owner rb (rexbalance s)\<rparr>"

section \<open>Funds\<close>

definition deposit :: "'z sys_env_scheme \<Rightarrow> name \<Rightarrow> asset \<Rightarrow> sys \<Rightarrow> sys res" where
  "deposit e owner q s =
     require_auth e owner
     (ebind (core_symbol s) (\<lambda>cs.
      check (symbol q = cs) ''must deposit core token''
      (check (0 < amount q) ''must deposit a positive amount''
      (transfer_to_fund owner q
         (send_inline (send_transfer [owner] owner rex_account q ''deposit to REX fund'') s)))))"

definition withdraw :: "'z sys_env_scheme \<Rightarrow> name \<Rightarrow> asset \<Rightarrow> sys \<Rightarrow> sys res" where
  "withdraw e owner q s =
     require_auth e owner
     (ebind (core_symbol s) (\<lambda>cs.
      check (symbol q = cs) ''must withdraw core token''
      (check (0 < amount q) ''must withdraw a positive amount''
      (ebind (settle_account e owner False s) (\<lambda>(_, s1).
       ebind (transfer_from_fund e owner q s1) (\<lambda>s2.
       Inr (send_inline (send_transfer [rex_account] rex_account owner q ''withdraw from REX fund'') s2)))))))"

section \<open>Buying and selling\<close>

definition must_vote_msg :: string where
  "must_vote_msg = ''must vote for at least 21 producers or for a proxy before buying REX''"

definition buyrex :: "'z sys_env_scheme \<Rightarrow> name \<Rightarrow> asset \<Rightarrow> sys \<Rightarrow> sys res" where
  "buyrex e from q s =
     require_auth e from
     (ebind (core_symbol s) (\<lambda>cs.
      check (symbol q = cs) ''asset must be core token''
      (check (0 < amount q) ''must use positive amount''
      (check_voting_requirement from must_vote_msg s
      (ebind (transfer_from_fund e from q s) (\<lambda>s1.
       ebind (add_to_rex_pool e q s1) (\<lambda>(rex_received, s2).
       ebind (add_to_rex_balance e from q rex_received s2) (\<lambda>(delta_rex_stake, s3).
       ebind (runrex e 2 s3) (\<lambda>s4.
       ebind (update_rex_account e from (mk_asset 0 cs) delta_rex_stake False s4) (\<lambda>(_, s5).
       Inr (send_inline (RexResult (BuyResult rex_received)) s5)))))))))))"

text \<open>The delegation that pays for REX shrinks, and disappears when nothing is left.\<close>

definition unstake_for_rex :: "name \<Rightarrow> name \<Rightarrow> asset \<Rightarrow> asset \<Rightarrow> sys \<Rightarrow> sys res" where
  "unstake_for_rex owner receiver from_net from_cpu s =
     (case tfind (owner, receiver) (delband s) of
        None \<Rightarrow> Inl (Check ''delegated bandwidth record does not exist'')
      | Some d \<Rightarrow>
          check (amount from_net \<le> amount (del_net d)) ''amount exceeds tokens staked for net''
          (check (amount from_cpu \<le> amount (del_cpu d)) ''amount exceeds tokens staked for cpu''
          (let d' = d\<lparr>del_net := add_amount (- amount from_net) (del_net d),
                      del_cpu := add_amount (- amount from_cpu) (del_cpu d)\<rparr>
           in Inr (s\<lparr>delband := (if delegation_empty d' then terase (owner, receiver) (delband s)
                                 else AList.update (owner, receiver) d' (delband s))\<rparr>))))"

definition unstaketorex ::
  "'z sys_env_scheme \<Rightarrow> name \<Rightarrow> name \<Rightarrow> asset \<Rightarrow> asset \<Rightarrow> sys \<Rightarrow> sys res" where
  "unstaketorex e owner receiver from_net from_cpu s =
     require_auth e owner
     (ebind (core_symbol s) (\<lambda>cs.
      check (symbol from_net = cs \<and> symbol from_cpu = cs) ''asset must be core token''
      (check (0 \<le> amount from_net \<and> 0 \<le> amount from_cpu \<and> (0 < amount from_net \<or> 0 < amount from_cpu))
         ''must unstake a positive amount to buy rex''
      (check_voting_requirement owner must_vote_msg s
      (ebind (unstake_for_rex owner receiver from_net from_cpu s) (\<lambda>s1.
       ebind (update_resource_limits e receiver (i64 (- amount from_net)) (i64 (- amount from_cpu)) s1) (\<lambda>s2.
       ebind (asset_plus e from_net from_cpu) (\<lambda>payment.
       let s3 = send_inline (send_transfer [stake_account] stake_account rex_account payment
                  ''buy REX with staked tokens'') s2
       in ebind (add_to_rex_pool e payment s3) (\<lambda>(rex_received, s4).
          ebind (add_to_rex_balance e owner payment rex_received s4) (\<lambda>(_, s5).
          ebind (runrex e 2 s5) (\<lambda>s6.
          ebind (update_rex_account e owner (mk_asset 0 cs) (mk_asset 0 cs) True s6) (\<lambda>(_, s7).
          Inr (send_inline (RexResult (BuyResult rex_received)) s7)))))))))))))"

text \<open>An order that cannot be filled is queued, or added to the order already queued.\<close>

definition queue_order :: "'z sys_env_scheme \<Rightarrow> name \<Rightarrow> asset \<Rightarrow> sys \<Rightarrow> (rex_order \<times> sys) res" where
  "queue_order e from rex s =
     (case tfind from (rexorders s) of
        None \<Rightarrow>
          ebind (core_symbol s) (\<lambda>cs.
          let order = \<lparr>rex_requested = rex, order_proceeds = mk_asset 0 cs, order_stake_change = mk_asset 0 cs,
                       order_time = current_time e, is_open = True\<rparr>
          in ebind (templace from order (rexorders s)) (\<lambda>t.
             Inr (order, s\<lparr>rexorders := t\<rparr>)))
      | Some order \<Rightarrow>
          let order' = order\<lparr>rex_requested := add_amount (amount rex) (rex_requested order)\<rparr>
          in Inr (order', s\<lparr>rexorders := AList.update from order' (rexorders s)\<rparr>))"

text \<open>
  The second half of \<open>sellrex\<close>, after the order was tried: the account is settled, an
  order that was not filled is queued, and what is in the queue must be covered.
\<close>

definition finish_sell ::
  "'z sys_env_scheme \<Rightarrow> name \<Rightarrow> asset \<Rightarrow> rex_order_outcome \<Rightarrow> sys \<Rightarrow> sys res" where
  "finish_sell e from rex current_order s =
     ebind (update_rex_account e from (proceeds current_order) (stake_change current_order) False s)
       (\<lambda>(pending, s1).
     ebind (if success current_order then Inr (amount pending, s1)
            else check (from \<noteq> b1_account) ''b1 sellrex orders should not be queued''
                 (ebind (queue_order e from rex s1) (\<lambda>(order, s2).
                  Inr (amount (rex_requested order), s2)))) (\<lambda>(pending_sell_order, s3).
     ebind (the_rex_balance from ''user must first buyrex'' s3) (\<lambda>rb.
     check (pending_sell_order \<le> matured_rex rb) ''insufficient funds for current and scheduled orders''
     (Inr (if success current_order
           then send_inline (RexResult (SellResult (proceeds current_order))) s3
           else s3)))))"

definition sellrex :: "'z sys_env_scheme \<Rightarrow> name \<Rightarrow> asset \<Rightarrow> sys \<Rightarrow> sys res" where
  "sellrex e from rex s =
     require_auth e from
     (ebind (runrex e 2 s) (\<lambda>s1.
      ebind (the_rex_balance from ''user must first buyrex'' s1) (\<lambda>rb0.
      check (0 < amount rex \<and> symbol rex = symbol (rex_held rb0)) ''asset must be a positive amount of (REX, 4)''
      (let rb = process_rex_maturities e rb0;
           s2 = put_rex_balance from rb s1
       in check (amount rex \<le> matured_rex rb) ''insufficient available rex''
          (ebind (fill_order_of e from rb rex s2) (\<lambda>(current_order, s3).
           check (\<not> (success current_order \<and> amount (proceeds current_order) = 0)) ''proceeds are negligible''
           (finish_sell e from rex current_order s3)))))))"

definition cnclrexorder :: "'z sys_env_scheme \<Rightarrow> name \<Rightarrow> sys \<Rightarrow> sys res" where
  "cnclrexorder e owner s =
     require_auth e owner
     (case tfind owner (rexorders s) of
        None \<Rightarrow> Inl (Check ''no sellrex order is scheduled'')
      | Some order \<Rightarrow>
          check (is_open order) ''sellrex order has been filled and cannot be canceled''
            (Inr (s\<lparr>rexorders := terase owner (rexorders s)\<rparr>)))"

section \<open>Loans\<close>

definition rentcpu :: "'z sys_env_scheme \<Rightarrow> name \<Rightarrow> name \<Rightarrow> asset \<Rightarrow> asset \<Rightarrow> sys \<Rightarrow> sys res" where
  "rentcpu e from receiver loan_payment_q loan_fund s =
     require_auth e from
     (ebind (rent_rex CPU e from receiver loan_payment_q loan_fund s) (\<lambda>(rented_tokens, s1).
      update_resource_limits e receiver 0 rented_tokens s1))"

definition rentnet :: "'z sys_env_scheme \<Rightarrow> name \<Rightarrow> name \<Rightarrow> asset \<Rightarrow> asset \<Rightarrow> sys \<Rightarrow> sys res" where
  "rentnet e from receiver loan_payment_q loan_fund s =
     require_auth e from
     (ebind (rent_rex NET e from receiver loan_payment_q loan_fund s) (\<lambda>(rented_tokens, s1).
      update_resource_limits e receiver rented_tokens 0 s1))"

definition fundcpuloan :: "'z sys_env_scheme \<Rightarrow> name \<Rightarrow> int \<Rightarrow> asset \<Rightarrow> sys \<Rightarrow> sys res" where
  "fundcpuloan e from num payment s = require_auth e from (fund_rex_loan CPU e from num payment s)"

definition fundnetloan :: "'z sys_env_scheme \<Rightarrow> name \<Rightarrow> int \<Rightarrow> asset \<Rightarrow> sys \<Rightarrow> sys res" where
  "fundnetloan e from num payment s = require_auth e from (fund_rex_loan NET e from num payment s)"

definition defcpuloan :: "'z sys_env_scheme \<Rightarrow> name \<Rightarrow> int \<Rightarrow> asset \<Rightarrow> sys \<Rightarrow> sys res" where
  "defcpuloan e from num q s = require_auth e from (defund_rex_loan CPU e from num q s)"

definition defnetloan :: "'z sys_env_scheme \<Rightarrow> name \<Rightarrow> int \<Rightarrow> asset \<Rightarrow> sys \<Rightarrow> sys res" where
  "defnetloan e from num q s = require_auth e from (defund_rex_loan NET e from num q s)"

section \<open>Maintenance of a balance\<close>

definition updaterex :: "'z sys_env_scheme \<Rightarrow> name \<Rightarrow> sys \<Rightarrow> sys res" where
  "updaterex e owner s =
     require_auth e owner
     (ebind (runrex e 2 s) (\<lambda>s1.
      ebind (the_rex_balance owner ''account has no REX balance'' s1) (\<lambda>rb.
      ebind (the_pool s1) (\<lambda>p.
      ebind (core_symbol s1) (\<lambda>cs.
      ebind (if 0 < amount (total_rex p)
             then muldiv128 (amount (rex_held rb)) (amount (total_lendable p)) (amount (total_rex p))
             else Inr 0) (\<lambda>stake.
      let current_stake = mk_asset stake cs
      in ebind (asset_minus e current_stake (vote_stake rb)) (\<lambda>delta.
         ebind (update_rex_account e owner (mk_asset 0 cs) delta True
                  (put_rex_balance owner (rb\<lparr>vote_stake := current_stake\<rparr>) s1)) (\<lambda>(_, s2).
         ebind (the_rex_balance owner ''account has no REX balance'' s2) (\<lambda>rb2.
         Inr (put_rex_balance owner (process_rex_maturities e rb2) s2))))))))))"

definition setrex :: "'z sys_env_scheme \<Rightarrow> asset \<Rightarrow> sys \<Rightarrow> sys res" where
  "setrex e bal s =
     require_auth e eosio_account
     (check (0 < amount bal) ''balance must be set to have a positive amount''
     (ebind (core_symbol s) (\<lambda>cs.
      check (symbol bal = cs) ''balance symbol must be core symbol''
      (case rexpool s of
         None \<Rightarrow> Inl (Check ''rex system is not initialized'')
       | Some p \<Rightarrow> Inr (s\<lparr>rexpool := Some (p\<lparr>total_rent := bal\<rparr>)\<rparr>)))))"

definition rexexec :: "'z sys_env_scheme \<Rightarrow> name \<Rightarrow> nat \<Rightarrow> sys \<Rightarrow> sys res" where
  "rexexec e user max_entries s = require_auth e user (runrex e max_entries s)"

definition consolidate :: "'z sys_env_scheme \<Rightarrow> name \<Rightarrow> sys \<Rightarrow> sys res" where
  "consolidate e owner s =
     require_auth e owner
     (ebind (runrex e 2 s) (\<lambda>s1.
      ebind (the_rex_balance owner ''account has no REX balance'' s1) (\<lambda>_.
      ebind (settle_account e owner False s1) (\<lambda>(rex_in_sell_order, s2).
      ebind (the_rex_balance owner ''account has no REX balance'' s2) (\<lambda>rb.
      Inr (put_rex_balance owner (consolidate_rex_balance e rex_in_sell_order rb) s2))))))"

text \<open>
  The loop that takes REX from the buckets, the last one first; the list is in reverse. A
  bucket that is not emptied covers the rest of the amount, so the loop stops there.
\<close>

fun take_from_buckets :: "int \<Rightarrow> int \<Rightarrow> (int \<times> int) list \<Rightarrow> int \<times> (int \<times> int) list" where
  "take_from_buckets rex moved [] = (moved, [])"
| "take_from_buckets rex moved ((t, x) # rest) =
     (if moved < rex
      then let drex = min (i64 (rex - moved)) x
           in if i64 (x - drex) = 0 then take_from_buckets rex (i64 (moved + drex)) rest
              else (i64 (moved + drex), (t, i64 (x - drex)) # rest)
      else (moved, (t, x) # rest))"

definition move_to_savings :: "asset \<Rightarrow> asset \<Rightarrow> rex_balance \<Rightarrow> rex_balance res" where
  "move_to_savings rex rex_in_sell_order rb =
     (case take_from_buckets (amount rex) 0 (rev (rex_maturities rb)) of
        (moved_rex, buckets) \<Rightarrow>
          ebind (if moved_rex < amount rex
                 then let drex = i64 (amount rex - moved_rex);
                          matured = i64 (matured_rex rb - drex)
                      in check (amount rex_in_sell_order \<le> matured) ''logic error in mvtosavings''
                         (Inr (i64 (moved_rex + drex), matured))
                 else Inr (moved_rex, matured_rex rb)) (\<lambda>(moved, matured).
          check (moved = amount rex) ''programmer error in mvtosavings''
          (Inr (rb\<lparr>matured_rex := matured, rex_maturities := rev buckets\<rparr>))))"

definition mvtosavings :: "'z sys_env_scheme \<Rightarrow> name \<Rightarrow> asset \<Rightarrow> sys \<Rightarrow> sys res" where
  "mvtosavings e owner rex s =
     require_auth e owner
     (ebind (runrex e 2 s) (\<lambda>s1.
      ebind (the_rex_balance owner ''account has no REX balance'' s1) (\<lambda>rb0.
      check (0 < amount rex \<and> symbol rex = symbol (rex_held rb0)) ''asset must be a positive amount of (REX, 4)''
      (ebind (settle_account e owner False s1) (\<lambda>(rex_in_sell_order, s2).
       ebind (the_rex_balance owner ''account has no REX balance'' s2) (\<lambda>rb.
       case read_rex_savings rb of
         (rex_in_savings, rb1) \<Rightarrow>
           check (i64 (amount rex + amount rex_in_sell_order + rex_in_savings) \<le> amount (rex_held rb1))
             ''insufficient REX balance''
           (ebind (move_to_savings rex rex_in_sell_order (process_rex_maturities e rb1)) (\<lambda>rb2.
            Inr (put_rex_balance owner (put_rex_savings (i64 (rex_in_savings + amount rex)) rb2) s2)))))))))"

definition mvfrsavings :: "'z sys_env_scheme \<Rightarrow> name \<Rightarrow> asset \<Rightarrow> sys \<Rightarrow> sys res" where
  "mvfrsavings e owner rex s =
     require_auth e owner
     (ebind (runrex e 2 s) (\<lambda>s1.
      ebind (the_rex_balance owner ''account has no REX balance'' s1) (\<lambda>rb.
      check (0 < amount rex \<and> symbol rex = symbol (rex_held rb)) ''asset must be a positive amount of (REX, 4)''
      (case read_rex_savings rb of
         (rex_in_savings, rb1) \<Rightarrow>
           check (amount rex \<le> rex_in_savings) ''insufficient REX in savings''
           (let rb2 = add_rex_bucket e (amount rex) (process_rex_maturities e rb1);
                rb3 = put_rex_savings (i64 (rex_in_savings - amount rex)) rb2
            in ebind (settle_account e owner False (put_rex_balance owner rb3 s1)) (\<lambda>(_, s2).
               Inr s2))))))"

text \<open>\<open>find\<close> in the index by owner: does the owner have a loan?\<close>

definition has_loan :: "resource \<Rightarrow> name \<Rightarrow> sys \<Rightarrow> bool" where
  "has_loan r owner s \<longleftrightarrow> list_ex (\<lambda>(_, l). loan_from l = owner) (loans r s)"

definition closerex :: "'z sys_env_scheme \<Rightarrow> name \<Rightarrow> sys \<Rightarrow> sys res" where
  "closerex e owner s =
     require_auth e owner
     (ebind (if rex_system_initialized s then runrex e 2 s else Inr s) (\<lambda>s1.
      ebind (settle_account e owner False s1) (\<lambda>(_, s2).
      let no_outstanding_rex_fund =
            (case tfind owner (rexfunds s2) of None \<Rightarrow> False | Some bal \<Rightarrow> amount bal = 0);
          s3 = (if \<not> has_loan CPU owner s2 \<and> \<not> has_loan NET owner s2 \<and> no_outstanding_rex_fund
                then s2\<lparr>rexfunds := terase owner (rexfunds s2)\<rparr> else s2)
      in case tfind owner (rexbalance s3) of
           None \<Rightarrow> Inr s3
         | Some rb \<Rightarrow>
             check (amount (rex_held rb) = 0) ''account has remaining REX balance, must sell first''
               (Inr (s3\<lparr>rexbalance := terase owner (rexbalance s3)\<rparr>)))))"

end
