(* ===== verification/Producer_Pay.thy ===== *)
theory Producer_Pay
  imports Voting
begin

text \<open>
  Producer pay, \<open>producer_pay.cpp\<close>: \<open>onblock\<close>, which runs with every block (it counts
  the producer's block, re-elects the schedule and closes a name auction), and
  \<open>claimrewards\<close>, which issues the inflation, splits it into buckets and pays a producer
  its share of them.
\<close>

section \<open>Constants\<close>

definition min_pervote_daily_pay :: int where "min_pervote_daily_pay = 1000000"
definition continuous_rate :: double where "continuous_rate = rnd (4879 / 100000)"
definition blocks_per_day :: int where "blocks_per_day = 2 * 24 * 3600"

section \<open>onblock\<close>

text \<open>The index of bids by the highest bid: open auctions first, counted down from \<open>2 ^ 64\<close>.\<close>

definition by_high_bid :: "name_bid \<Rightarrow> int" where
  "by_high_bid b = u64 (- high_bid b)"

definition highest_bid :: "sys \<Rightarrow> (name \<times> name_bid) option" where
  "highest_bid s =
     (case dropWhile (\<lambda>(_, b). by_high_bid b < (2 ^ 64 - 1) div 2) (tindex by_high_bid (namebids s)) of
        [] \<Rightarrow> None
      | x # _ \<Rightarrow> Some x)"

definition close_auction :: "'z sys_env_scheme \<Rightarrow> int \<Rightarrow> sys \<Rightarrow> sys" where
  "close_auction e timestamp s =
     (case highest_bid s of
        None \<Rightarrow> s
      | Some (newname, b) \<Rightarrow>
          if 0 < high_bid b
             \<and> useconds_per_day < i64 (current_time e - last_bid_time b)
             \<and> 0 < thresh_activated_stake_time (gstate s)
             \<and> 14 * useconds_per_day < i64 (current_time e - thresh_activated_stake_time (gstate s))
          then let s1 = channel_namebid_to_rex (high_bid b)
                          (s\<lparr>gstate := (gstate s)\<lparr>last_name_close := timestamp\<rparr>\<rparr>)
               in s1\<lparr>namebids := AList.update newname (b\<lparr>high_bid := i64 (- high_bid b)\<rparr>) (namebids s1)\<rparr>
          else s)"

definition count_block :: "name \<Rightarrow> sys \<Rightarrow> sys" where
  "count_block producer s =
     (case tfind producer (producers s) of
        None \<Rightarrow> s
      | Some p \<Rightarrow>
          s\<lparr>gstate := (gstate s)\<lparr>total_unpaid_blocks := u32 (total_unpaid_blocks (gstate s) + 1)\<rparr>,
            producers := AList.update producer (p\<lparr>unpaid_blocks := u32 (unpaid_blocks p + 1)\<rparr>) (producers s)\<rparr>)"

definition onblock :: "'z sys_env_scheme \<Rightarrow> int \<Rightarrow> name \<Rightarrow> sys \<Rightarrow> sys res" where
  "onblock e timestamp producer s0 =
     require_auth e (self e)
     (let s1 = s0\<lparr>gstate2 := (gstate2 s0)\<lparr>last_block_num := timestamp\<rparr>\<rparr>
      in if total_activated_stake (gstate s1) < min_activated_stake then Inr s1
         else
           let s2 = (if last_pervote_bucket_fill (gstate s1) = 0
                     then s1\<lparr>gstate := (gstate s1)\<lparr>last_pervote_bucket_fill := current_time e\<rparr>\<rparr> else s1);
               s3 = count_block producer s2
           in if 120 < u32 (timestamp - last_producer_schedule_update (gstate s3))
              then let s4 = update_elected_producers e timestamp s3
                   in Inr (if blocks_per_day < u32 (timestamp - last_name_close (gstate s4))
                           then close_auction e timestamp s4 else s4)
              else Inr s3)"

section \<open>claimrewards\<close>

text \<open>Inflation since the last fill and its four parts.\<close>

definition inflation :: "int \<Rightarrow> int \<Rightarrow> int res" where
  "inflation token_supply usecs_since_last_fill =
     int64_of ((continuous_rate * dbl token_supply * dbl usecs_since_last_fill) / dbl useconds_per_year)"

record inflation_split =
  to_savings :: int
  to_per_block_pay :: int
  to_per_vote_pay :: int

definition split_inflation :: "int \<Rightarrow> inflation_split" where
  "split_inflation new_tokens =
     (let to_producers = tdiv new_tokens 5;
          savings = i64 (new_tokens - to_producers);
          per_block = tdiv to_producers 4
      in \<lparr>to_savings = savings, to_per_block_pay = per_block, to_per_vote_pay = i64 (to_producers - per_block)\<rparr>)"

text \<open>Four inline actions, in this order: issue, then fund savings and the two buckets.\<close>

definition send_inflation ::
  "'z sys_env_scheme \<Rightarrow> symbol \<Rightarrow> int \<Rightarrow> sys \<Rightarrow> sys res" where
  "send_inflation e cs new_tokens s =
     (let sp = split_inflation new_tokens
      in ebind (new_asset e new_tokens cs) (\<lambda>issued.
         ebind (new_asset e (to_savings sp) cs) (\<lambda>savings.
         ebind (new_asset e (to_per_block_pay sp) cs) (\<lambda>per_block.
         ebind (new_asset e (to_per_vote_pay sp) cs) (\<lambda>per_vote.
         Inr (send_inline (send_transfer [self e] (self e) vpay_account per_vote ''fund per-vote bucket'')
             (send_inline (send_transfer [self e] (self e) bpay_account per_block ''fund per-block bucket'')
             (send_inline (send_transfer [self e] (self e) saving_account savings ''unallocated inflation'')
             (send_inline (TokenAction [PermissionLevel (self e) active_permission]
                (Issue (self e) issued ''issue tokens for producer pay and savings''))
             s)))))))))"

definition fill_buckets :: "'z sys_env_scheme \<Rightarrow> symbol \<Rightarrow> int \<Rightarrow> sys \<Rightarrow> sys res" where
  "fill_buckets e cs token_supply s =
     (let ct = current_time e;
          g = gstate s;
          usecs_since_last_fill = i64 (ct - last_pervote_bucket_fill g)
      in if 0 < usecs_since_last_fill \<and> 0 < last_pervote_bucket_fill g
         then ebind (inflation token_supply usecs_since_last_fill) (\<lambda>new_tokens.
              ebind (send_inflation e cs new_tokens s) (\<lambda>s1.
              let sp = split_inflation new_tokens
              in Inr (s1\<lparr>gstate := g\<lparr>pervote_bucket := i64 (pervote_bucket g + to_per_vote_pay sp),
                                     perblock_bucket := i64 (perblock_bucket g + to_per_block_pay sp),
                                     last_pervote_bucket_fill := ct\<rparr>\<rparr>)))
         else Inr s)"

definition per_block_pay :: "global_state \<Rightarrow> producer_info \<Rightarrow> int" where
  "per_block_pay g p =
     (if 0 < total_unpaid_blocks g
      then tdiv (i64 (perblock_bucket g * unpaid_blocks p)) (total_unpaid_blocks g) else 0)"

text \<open>The share of the per-vote bucket, before the daily minimum is applied, and the state after
  the global vote-pay share was brought up to date.\<close>

definition per_vote_share ::
  "int \<Rightarrow> producer_info \<Rightarrow> double \<Rightarrow> bool \<Rightarrow> sys \<Rightarrow> (int \<times> sys) res" where
  "per_vote_share ct p new_votepay_share crossed_threshold s =
     (if 0 < revision (gstate2 s)
      then case update_total_votepay_share ct 0 0 s of
             (total_votepay_share, s1) \<Rightarrow>
               if 0 < total_votepay_share \<and> \<not> crossed_threshold
               then ebind (int64_of ((new_votepay_share * dbl (pervote_bucket (gstate s1))) / total_votepay_share)) (\<lambda>pay.
                    Inr (min pay (pervote_bucket (gstate s1)), s1))
               else Inr (0, s1)
      else if 0 < total_producer_vote_weight (gstate s)
           then ebind (int64_of ((dbl (pervote_bucket (gstate s)) * total_votes p)
                                 / total_producer_vote_weight (gstate s))) (\<lambda>pay.
                Inr (pay, s))
           else Inr (0, s))"

text \<open>A producer's payment, sent from the bucket's account when it is positive.\<close>

definition pay_producer ::
  "'z sys_env_scheme \<Rightarrow> name \<Rightarrow> name \<Rightarrow> int \<Rightarrow> string \<Rightarrow> symbol \<Rightarrow> sys \<Rightarrow> sys res" where
  "pay_producer e bucket owner pay memo cs s =
     (if 0 < pay
      then ebind (new_asset e pay cs) (\<lambda>q.
           Inr (send_inline (send_transfer [bucket, owner] bucket owner q memo) s))
      else Inr s)"

text \<open>
  The claimer's vote-pay share brought up to date and then reset: whether it was already
  settled after the claim had expired, the share, and the row to store.
\<close>

definition claimer_share :: "int \<Rightarrow> name \<Rightarrow> producer_info \<Rightarrow> sys \<Rightarrow> bool \<times> double \<times> producer_info2" where
  "claimer_share ct owner p s =
     (let (p2, updated_after_threshold) =
        (case tfind owner (producers2 s) of
           Some p2 \<Rightarrow> (p2, i64 (last_claim_time p + 3 * useconds_per_day) \<le> last_votepay_share_update p2)
         | None \<Rightarrow> (new_producer2 ct, True))
      in (updated_after_threshold,
          update_producer_votepay_share ct (if updated_after_threshold then 0 else total_votes p) True p2))"

text \<open>The books after a claim: the buckets, the global vote-pay share, the producer's row.\<close>

definition book_claim ::
  "int \<Rightarrow> name \<Rightarrow> producer_info \<Rightarrow> bool \<Rightarrow> double \<Rightarrow> int \<Rightarrow> int \<Rightarrow> sys \<Rightarrow> sys" where
  "book_claim ct owner p updated_after_threshold new_votepay_share vote_pay block_pay s =
     (let g = gstate s;
          s1 = s\<lparr>gstate := g\<lparr>pervote_bucket := i64 (pervote_bucket g - vote_pay),
                            perblock_bucket := i64 (perblock_bucket g - block_pay),
                            total_unpaid_blocks := u32 (total_unpaid_blocks g - unpaid_blocks p)\<rparr>\<rparr>;
          s2 = snd (update_total_votepay_share ct (- new_votepay_share)
                      (if updated_after_threshold then total_votes p else 0) s1)
      in s2\<lparr>producers := AList.update owner (p\<lparr>last_claim_time := ct, unpaid_blocks := 0\<rparr>) (producers s2)\<rparr>)"

definition claimrewards :: "'z sys_env_scheme \<Rightarrow> name \<Rightarrow> sys \<Rightarrow> sys res" where
  "claimrewards e owner s0 =
     require_auth e owner
     (case tfind owner (producers s0) of
        None \<Rightarrow> Inl (Check ''unable to find key'')
      | Some p \<Rightarrow>
          check (is_active p) ''producer does not have an active key''
          (check (min_activated_stake \<le> total_activated_stake (gstate s0))
             ''cannot claim rewards until the chain is activated (at least 15% of all tokens participate in voting)''
          (let ct = current_time e
           in check (useconds_per_day < i64 (ct - last_claim_time p)) ''already claimed rewards within past day''
              (ebind (core_symbol s0) (\<lambda>cs.
               ebind (get_supply (tokens s0) (sym_code cs)) (\<lambda>token_supply.
               ebind (fill_buckets e cs (amount token_supply) s0) (\<lambda>s1.
               let crossed_threshold = (i64 (last_claim_time p + 3 * useconds_per_day) \<le> ct);
                   (updated_after_threshold, new_votepay_share, p2') = claimer_share ct owner p s1;
                   block_pay = per_block_pay (gstate s1) p;
                   s2 = s1\<lparr>producers2 := AList.update owner p2' (producers2 s1)\<rparr>
               in ebind (per_vote_share ct p new_votepay_share crossed_threshold s2) (\<lambda>(vote_share, s3).
                  let vote_pay = (if vote_share < min_pervote_daily_pay then 0 else vote_share);
                      s4 = book_claim ct owner p updated_after_threshold new_votepay_share vote_pay block_pay s3
                  in ebind (pay_producer e bpay_account owner block_pay ''producer block pay'' cs s4) (\<lambda>s5.
                     pay_producer e vpay_account owner vote_pay ''producer vote pay'' cs s5)))))))))"

end
