(* ===== verification/Admin.thy ===== *)
theory Admin
  imports Ram_Market Producer_Pay
begin

text \<open>
  The administrative actions of \<open>eosio.system.cpp\<close>: \<open>init\<close>, the chain parameters,
  privileges, resource limits that the account of the contract manages itself, and the
  removal of producers. \<open>setram\<close> and \<open>setramrate\<close> are in \<open>Ram_Market\<close>.
\<close>

section \<open>Parameters and privileges\<close>

definition setparams :: "'z sys_env_scheme \<Rightarrow> blockchain_parameters \<Rightarrow> sys \<Rightarrow> sys res" where
  "setparams e p s =
     require_auth e (self e)
     (check (3 \<le> max_authority_depth p) ''max_authority_depth should be at least 3''
        (Inr (s\<lparr>gstate := (gstate s)\<lparr>params := p\<rparr>, chain_params := p\<rparr>)))"

definition setpriv :: "'z sys_env_scheme \<Rightarrow> name \<Rightarrow> bool \<Rightarrow> sys \<Rightarrow> sys res" where
  "setpriv e account ispriv s =
     require_auth e (self e)
     (guard (is_account e account) HostError
        (Inr (s\<lparr>privileged := AList.update account ispriv (privileged s)\<rparr>)))"

section \<open>Managed resource limits\<close>

definition setalimits :: "'z sys_env_scheme \<Rightarrow> name \<Rightarrow> int \<Rightarrow> int \<Rightarrow> int \<Rightarrow> sys \<Rightarrow> sys res" where
  "setalimits e account ram net cpu s =
     require_auth e (self e)
     (check (tfind account (userres s) = None) ''only supports unlimited accounts''
     (check (\<not> (managed account ram_managed s \<or> managed account net_managed s \<or> managed account cpu_managed s))
        ''cannot use setalimits on an account with managed resources''
        (set_limits account ram net cpu s)))"

definition set_managed :: "name \<Rightarrow> 32 word \<Rightarrow> bool \<Rightarrow> sys \<Rightarrow> sys" where
  "set_managed account field val s =
     (let v = (case tfind account (voters s) of Some v \<Rightarrow> v | None \<Rightarrow> new_voter)
      in s\<lparr>voters := AList.update account (v\<lparr>flags1 := set_field (flags1 v) field val\<rparr>) (voters s)\<rparr>)"

text \<open>
  The body the three actions share: without a value the resource is handed back and gets the
  quota the account has bought or staked, with one it becomes managed at that value.
\<close>

definition manage_resource ::
  "name \<Rightarrow> 32 word \<Rightarrow> (user_resources option \<Rightarrow> int) \<Rightarrow> string \<Rightarrow> int \<Rightarrow> string \<Rightarrow>
     int option \<Rightarrow> sys \<Rightarrow> (int \<times> sys) res" where
  "manage_resource account field quota unmanaged_msg least range_msg val s =
     (case val of
        None \<Rightarrow>
          check (managed account field s) unmanaged_msg
            (Inr (quota (tfind account (userres s)), set_managed account field False s))
      | Some x \<Rightarrow> check (least \<le> x) range_msg (Inr (x, set_managed account field True s)))"

definition setacctram :: "'z sys_env_scheme \<Rightarrow> name \<Rightarrow> int option \<Rightarrow> sys \<Rightarrow> sys res" where
  "setacctram e account ram_bytes_opt s =
     require_auth e (self e)
     (ebind (get_limits account s) (\<lambda>(_, net, cpu).
      ebind (manage_resource account ram_managed
               (\<lambda>r. case r of None \<Rightarrow> ram_gift_bytes | Some r \<Rightarrow> i64 (ram_gift_bytes + ram_bytes r))
               ''RAM of account is already unmanaged'' 0 ''not allowed to set RAM limit to unlimited''
               ram_bytes_opt s) (\<lambda>(ram, s1).
      set_limits account ram net cpu s1)))"

definition setacctnet :: "'z sys_env_scheme \<Rightarrow> name \<Rightarrow> int option \<Rightarrow> sys \<Rightarrow> sys res" where
  "setacctnet e account net_weight_opt s =
     require_auth e (self e)
     (ebind (get_limits account s) (\<lambda>(ram, _, cpu).
      ebind (manage_resource account net_managed
               (\<lambda>r. case r of None \<Rightarrow> 0 | Some r \<Rightarrow> amount (net_weight r))
               ''Network bandwidth of account is already unmanaged'' (- 1) ''invalid value for net_weight''
               net_weight_opt s) (\<lambda>(net, s1).
      set_limits account ram net cpu s1)))"

definition setacctcpu :: "'z sys_env_scheme \<Rightarrow> name \<Rightarrow> int option \<Rightarrow> sys \<Rightarrow> sys res" where
  "setacctcpu e account cpu_weight_opt s =
     require_auth e (self e)
     (ebind (get_limits account s) (\<lambda>(ram, net, _).
      ebind (manage_resource account cpu_managed
               (\<lambda>r. case r of None \<Rightarrow> 0 | Some r \<Rightarrow> amount (cpu_weight r))
               ''CPU bandwidth of account is already unmanaged'' (- 1) ''invalid value for cpu_weight''
               cpu_weight_opt s) (\<lambda>(cpu, s1).
      set_limits account ram net cpu s1)))"

section \<open>Producers and revisions\<close>

definition rmvproducer :: "'z sys_env_scheme \<Rightarrow> name \<Rightarrow> sys \<Rightarrow> sys res" where
  "rmvproducer e producer s =
     require_auth e (self e)
     (case tfind producer (producers s) of
        None \<Rightarrow> Inl (Check ''producer not found'')
      | Some p \<Rightarrow> Inr (s\<lparr>producers := AList.update producer (deactivate (default_key e) p) (producers s)\<rparr>))"

definition updtrevision :: "'z sys_env_scheme \<Rightarrow> int \<Rightarrow> sys \<Rightarrow> sys res" where
  "updtrevision e new_revision s =
     require_auth e (self e)
     (check (revision (gstate2 s) < 255) ''can not increment revision''
     (check (new_revision = revision (gstate2 s) + 1) ''can only increment revision by one''
     (check (new_revision \<le> 1) ''specified revision is not yet supported by the code''
        (Inr (s\<lparr>gstate2 := (gstate2 s)\<lparr>revision := new_revision\<rparr>\<rparr>)))))"

section \<open>init\<close>

definition initial_market :: "global_state \<Rightarrow> asset \<Rightarrow> symbol \<Rightarrow> exchange_state" where
  "initial_market g system_token_supply core =
     \<lparr>ex_supply = mk_asset 100000000000000 ramcore_symbol,
      ex_base = \<lparr>c_balance = mk_asset (i64 (free_ram g)) ram_symbol, c_weight = rnd (1 / 2)\<rparr>,
      ex_quote = \<lparr>c_balance = mk_asset (tdiv (amount system_token_supply) 1000) core, c_weight = rnd (1 / 2)\<rparr>\<rparr>"

definition init :: "'z sys_env_scheme \<Rightarrow> int \<Rightarrow> symbol \<Rightarrow> sys \<Rightarrow> sys res" where
  "init e version core s =
     require_auth e (self e)
     (check (version = 0) ''unsupported version for init action''
     (check (tfind ramcore_symbol (rammarket s) = None) ''system contract has already been initialized''
     (ebind (get_supply (tokens s) (sym_code core)) (\<lambda>system_token_supply.
      check (symbol system_token_supply = core) ''specified core symbol does not exist (precision mismatch)''
      (check (0 < amount system_token_supply) ''system token supply must be greater than 0''
      (ebind (templace ramcore_symbol (initial_market (gstate s) system_token_supply core) (rammarket s)) (\<lambda>t.
       Inr (send_inline (TokenAction [PermissionLevel (self e) active_permission]
              (Open rex_account core (self e)))
            (s\<lparr>rammarket := t\<rparr>)))))))))"

end
