(* ===== verification/Names.thy ===== *)
theory Names
  imports Producer_Pay
begin

text \<open>
  Account names, \<open>eosio.system.cpp\<close>: the auction of short names (\<open>bidname\<close>,
  \<open>bidrefund\<close>; \<open>onblock\<close> closes an auction), the creation of accounts, and the
  hashes of their ABIs.
\<close>

section \<open>The auction\<close>

text \<open>The outbid bidder's money is kept for it, and a deferred transaction pays it out.\<close>

definition refund_outbid ::
  "'z sys_env_scheme \<Rightarrow> symbol \<Rightarrow> name \<Rightarrow> name_bid \<Rightarrow> sys \<Rightarrow> sys res" where
  "refund_outbid e cs newname current s =
     ebind (new_asset e (high_bid current) cs) (\<lambda>refunded.
     ebind (case tfind (newname, high_bidder current) (bidrefunds s) of
              None \<Rightarrow> Inr refunded
            | Some r \<Rightarrow> asset_plus e r refunded) (\<lambda>r.
     let deferred_id = (uint newname * 2 ^ 64) + uint (high_bidder current)
     in Inr (send_deferred deferred_id (BidRefundTrx (high_bidder current) newname)
          (cancel_deferred deferred_id
            (s\<lparr>bidrefunds := AList.update (newname, high_bidder current) r (bidrefunds s)\<rparr>)))))"

definition bidname :: "'z sys_env_scheme \<Rightarrow> name \<Rightarrow> name \<Rightarrow> asset \<Rightarrow> sys \<Rightarrow> sys res" where
  "bidname e bidder newname bid s =
     require_auth e bidder
     (check (name_suffix e newname = newname) ''you can only bid on top-level suffix''
     (check (newname \<noteq> 0) ''the empty name is not a valid account name to bid on''
     (check (newname AND 0xF = 0) ''13 character names are not valid account names to bid on''
     (check (newname AND 0x1F0 = 0)
        ''accounts with 12 character names and no dots can be created without bidding required''
     (check (\<not> is_account e newname) ''account already exists''
     (ebind (core_symbol s) (\<lambda>cs.
      check (symbol bid = cs) ''asset must be system token''
      (check (0 < amount bid) ''insufficient bid''
      (let s1 = send_inline (send_transfer [bidder] bidder names_account bid
                  (''bid name '' @ name_to_string e newname)) s;
           new_bid = \<lparr>high_bidder = bidder, high_bid = amount bid, last_bid_time = current_time e\<rparr>
       in case tfind newname (namebids s1) of
            None \<Rightarrow> ebind (templace newname new_bid (namebids s1)) (\<lambda>t. Inr (s1\<lparr>namebids := t\<rparr>))
          | Some current \<Rightarrow>
              check (0 < high_bid current) ''this auction has already closed''
              (check (tdiv (high_bid current) 10 < i64 (amount bid - high_bid current)) ''must increase bid by 10%''
              (check (high_bidder current \<noteq> bidder) ''account is already highest bidder''
              (ebind (refund_outbid e cs newname current s1) (\<lambda>s2.
               Inr (s2\<lparr>namebids := AList.update newname new_bid (namebids s2)\<rparr>))))))))))))))"

definition bidrefund :: "'z sys_env_scheme \<Rightarrow> name \<Rightarrow> name \<Rightarrow> sys \<Rightarrow> sys res" where
  "bidrefund e bidder newname s =
     (case tfind (newname, bidder) (bidrefunds s) of
        None \<Rightarrow> Inl (Check ''refund not found'')
      | Some r \<Rightarrow>
          let s1 = send_inline (send_transfer [names_account, bidder] names_account bidder r
                     (''refund bid on name '' @ name_to_string e newname)) s
          in Inr (s1\<lparr>bidrefunds := terase (newname, bidder) (bidrefunds s1)\<rparr>))"

section \<open>Accounts\<close>

text \<open>The loop over the twelve characters of five bits each, lowest first.\<close>

fun has_zero_group :: "nat \<Rightarrow> 64 word \<Rightarrow> bool \<Rightarrow> bool" where
  "has_zero_group 0 tmp has_dot = has_dot"
| "has_zero_group (Suc i) tmp has_dot =
     has_zero_group i (drop_bit 5 tmp) (has_dot \<or> tmp AND 0x1f = 0)"

definition name_has_dot :: "name \<Rightarrow> bool" where
  "name_has_dot newact = has_zero_group 12 (drop_bit 4 newact) False"

text \<open>The naming rules: a name with a dot, or a shorter one, needs a won auction or its suffix.\<close>

definition claim_name :: "'z sys_env_scheme \<Rightarrow> name \<Rightarrow> name \<Rightarrow> sys \<Rightarrow> sys res" where
  "claim_name e creator newact s =
     (if creator \<noteq> self e \<and> name_has_dot newact
      then let suffix = name_suffix e newact
           in if suffix = newact
              then case tfind newact (namebids s) of
                     None \<Rightarrow> Inl (Check ''no active bid for name'')
                   | Some current \<Rightarrow>
                       check (high_bidder current = creator) ''only highest bidder can claim''
                       (check (high_bid current < 0) ''auction for name is not closed yet''
                          (Inr (s\<lparr>namebids := terase newact (namebids s)\<rparr>)))
              else check (creator = suffix) ''only suffix may create this account'' (Inr s)
      else Inr s)"

definition newaccount :: "'z sys_env_scheme \<Rightarrow> name \<Rightarrow> name \<Rightarrow> sys \<Rightarrow> sys res" where
  "newaccount e creator newact s =
     ebind (claim_name e creator newact s) (\<lambda>s1.
     ebind (core_symbol s1) (\<lambda>cs.
     ebind (new_asset e 0 cs) (\<lambda>zero.
     ebind (templace newact \<lparr>net_weight = zero, cpu_weight = zero, ram_bytes = 0\<rparr> (userres s1)) (\<lambda>t.
     set_limits newact 0 0 0 (s1\<lparr>userres := t\<rparr>)))))"

definition setabi :: "'z sys_env_scheme \<Rightarrow> name \<Rightarrow> nat list \<Rightarrow> sys \<Rightarrow> sys res" where
  "setabi e acnt abi s =
     (case tfind acnt (abihashes s) of
        None \<Rightarrow> ebind (templace acnt (sha256 e abi) (abihashes s)) (\<lambda>t. Inr (s\<lparr>abihashes := t\<rparr>))
      | Some _ \<Rightarrow> Inr (s\<lparr>abihashes := AList.update acnt (sha256 e abi) (abihashes s)\<rparr>))"

end
