(* ===== verification/Frames.thy ===== *)
theory Frames
  imports Rex Admin Names
begin

text \<open>
  What voting leaves alone. \<open>vote_frame\<close> erases everything the tallies of votes are made
  of: two states with the same frame differ in votes only. Every operation of \<open>voting.cpp\<close>
  that runs inside another action keeps the frame, so any view of the state that does not look
  at votes is unchanged by it; the locale \<open>vote_blind\<close> draws that conclusion once for all
  views, and each component interprets it for its own.
\<close>

section \<open>The frame\<close>

definition erase_votes :: "(name, producer_info) table \<Rightarrow> (name, producer_info) table" where
  "erase_votes t = map (\<lambda>(k, p). (k, p\<lparr>total_votes := 0\<rparr>)) t"

definition vote_frame :: "sys \<Rightarrow> sys" where
  "vote_frame s = s\<lparr>
     voters := [],
     producers := erase_votes (producers s),
     producers2 := [],
     gstate := (gstate s)\<lparr>total_producer_vote_weight := 0, total_activated_stake := 0,
                          thresh_activated_stake_time := 0\<rparr>,
     gstate2 := (gstate2 s)\<lparr>total_producer_votepay_share := 0\<rparr>,
     gstate3 := default_global_state3\<rparr>"

lemma update_same: "tfind k t = Some v \<Longrightarrow> AList.update k v t = t"
  by (induction t) auto

lemma erase_votes_update [simp]:
  "tfind k t = Some p \<Longrightarrow> erase_votes (AList.update k (p\<lparr>total_votes := x\<rparr>) t) = erase_votes t"
  by (induction t) (auto simp: erase_votes_def)

lemma vote_frame_voters [simp]: "vote_frame (s\<lparr>voters := t\<rparr>) = vote_frame s"
  by (simp add: vote_frame_def)

lemma vote_frame_producers2 [simp]: "vote_frame (s\<lparr>producers2 := t\<rparr>) = vote_frame s"
  by (simp add: vote_frame_def)

lemma vote_frame_producers:
  "tfind k (producers s) = Some p \<Longrightarrow>
     vote_frame (s\<lparr>producers := AList.update k (p\<lparr>total_votes := x\<rparr>) (producers s),
                   gstate := (gstate s)\<lparr>total_producer_vote_weight := y\<rparr>\<rparr>) = vote_frame s"
  by (simp add: vote_frame_def)

section \<open>The operations of voting keep it\<close>

lemma vote_frame_total_share [simp]:
  "vote_frame (snd (update_total_votepay_share ct a b s)) = vote_frame s"
  by (simp add: update_total_votepay_share_def Let_def vote_frame_def)

lemma vote_frame_track [simp]:
  "vote_frame (snd (track_votepay ct n lc v d (acc, s))) = vote_frame s"
  by (auto simp: track_votepay_def Let_def split: option.splits prod.splits)

lemma vote_frame_set_voter: "set_voter n f s = Inr s' \<Longrightarrow> vote_frame s' = vote_frame s"
  by (auto simp: set_voter_def)

lemma vote_frame_propagate_to_producer:
  "propagate_to_producer ct d n st = Inr st' \<Longrightarrow> vote_frame (snd st') = vote_frame (snd st)"
  by (auto simp: propagate_to_producer_def Let_def vote_frame_producers split: option.splits prod.splits)

lemma vote_frame_propagate_to_producers:
  assumes "propagate_to_producers ct d ns s = Inr s'"
  shows "vote_frame s' = vote_frame s"
proof -
  from assms obtain acc s1 where "efold (propagate_to_producer ct d) ns (vpay_acc0, s) = Inr (acc, s1)"
    and s': "s' = snd (update_total_votepay_share ct (- total_inactive_vpay_share acc) (delta_change_rate acc) s1)"
    by (auto simp: propagate_to_producers_def)
  then have "vote_frame (snd (acc, s1)) = vote_frame s"
    by - (rule efold_invariant [where P = "\<lambda>st. vote_frame (snd st) = vote_frame s"],
          auto dest: vote_frame_propagate_to_producer)
  then show ?thesis by (simp add: s')
qed

lemma vote_frame_propagate_weight_change:
  "propagate_weight_change n e v s = Inr s' \<Longrightarrow> vote_frame s' = vote_frame s"
proof (induction n arbitrary: v s s')
  case (Suc n)
  then show ?case
    by (auto simp: Let_def split: option.splits if_splits
        dest!: vote_frame_set_voter vote_frame_propagate_to_producers Suc.IH)
qed simp

lemma vote_frame_propagate: "propagate e v s = Inr s' \<Longrightarrow> vote_frame s' = vote_frame s"
  by (simp add: propagate_def vote_frame_propagate_weight_change)

lemma vote_frame_activate [simp]: "vote_frame (activate_stake e v s) = vote_frame s"
  by (simp add: activate_stake_def Let_def vote_frame_def)

lemma vote_frame_withdraw: "withdraw_vote e v s = Inr (d, s') \<Longrightarrow> vote_frame s' = vote_frame s"
  by (auto simp: withdraw_vote_def split: if_splits option.splits
      dest!: vote_frame_set_voter vote_frame_propagate)

lemma vote_frame_cast: "cast_vote e w prx prods voting (d0, s) = Inr (d, s') \<Longrightarrow> vote_frame s' = vote_frame s"
  by (auto simp: cast_vote_def split: if_splits option.splits
      dest!: vote_frame_set_voter vote_frame_propagate)

lemma vote_frame_apply_delta:
  "apply_delta ct voting pd st = Inr st' \<Longrightarrow> vote_frame (snd st') = vote_frame (snd st)"
  by (auto simp: apply_delta_def Let_def vote_frame_producers split: option.splits prod.splits)

lemma vote_frame_apply_deltas:
  assumes "efold (apply_delta ct voting) pds (a, s) = Inr (acc, s')"
  shows "vote_frame s' = vote_frame s"
proof -
  have "vote_frame (snd (acc, s')) = vote_frame s"
    using assms
    by - (rule efold_invariant [where P = "\<lambda>st. vote_frame (snd st) = vote_frame s"],
          auto dest: vote_frame_apply_delta)
  then show ?thesis by simp
qed

lemma valid_vote_eq_Inr:
  "valid_vote n prx prods k = Inr x \<longleftrightarrow>
     (if prx \<noteq> 0 then prods = [] \<and> n \<noteq> prx else length prods \<le> 30 \<and> strictly_sorted prods) \<and> k = Inr x"
  by (auto simp: valid_vote_def)

lemma vote_frame_update_votes:
  "update_votes e n prx prods voting s = Inr s' \<Longrightarrow> vote_frame s' = vote_frame s"
  by (auto simp: update_votes_def valid_vote_eq_Inr Let_def split: option.splits if_splits
      dest!: vote_frame_set_voter vote_frame_withdraw vote_frame_cast vote_frame_apply_deltas)

lemma vote_frame_update_voting_power:
  "update_voting_power e n q s = Inr s' \<Longrightarrow> vote_frame s' = vote_frame s"
  by (auto simp: update_voting_power_def Let_def split: if_splits dest!: vote_frame_update_votes)

lemma vote_frame_regproxy: "regproxy e prx b s = Inr s' \<Longrightarrow> vote_frame s' = vote_frame s"
  by (auto simp: regproxy_def split: option.splits dest!: vote_frame_set_voter vote_frame_propagate)

lemma vote_frame_set_managed [simp]: "vote_frame (set_managed n f b s) = vote_frame s"
  by (simp add: set_managed_def Let_def)

lemma check_voting_requirement_eq_Inr [simp]:
  "check_voting_requirement n msg s k = Inr x \<longleftrightarrow>
     (\<exists>v. tfind n (voters s) = Some v \<and> (has_proxy v \<or> 21 \<le> length (voted_producers v))) \<and> k = Inr x"
  by (auto simp: check_voting_requirement_def split: option.splits)

section \<open>Views that do not look at votes\<close>

locale vote_blind =
  fixes view :: "sys \<Rightarrow> 'a"
  assumes blind: "view (vote_frame s) = view s"
begin

lemma view_eqI: "vote_frame s' = vote_frame s \<Longrightarrow> view s' = view s"
  by (metis blind)

lemma view_update_votes: "update_votes e n prx prods voting s = Inr s' \<Longrightarrow> view s' = view s"
  by (intro view_eqI vote_frame_update_votes)

lemma view_update_voting_power: "update_voting_power e n q s = Inr s' \<Longrightarrow> view s' = view s"
  by (intro view_eqI vote_frame_update_voting_power)

lemma view_regproxy: "regproxy e prx b s = Inr s' \<Longrightarrow> view s' = view s"
  by (intro view_eqI vote_frame_regproxy)

lemma view_total_share: "view (snd (update_total_votepay_share ct a b s)) = view s"
  by (intro view_eqI vote_frame_total_share)

lemma view_set_managed: "view (set_managed n f b s) = view s"
  by (intro view_eqI vote_frame_set_managed)

end

end
