(* ===== verification/System_Contract.thy ===== *)
theory System_Contract
  imports Rex Admin Names
begin

text \<open>
  The system contract as a whole: \<open>sys_action\<close> is its dispatch table, \<open>sys_apply\<close> runs
  one action, and \<open>sys_transact\<close> runs an action with the token actions it sends, which the
  token contract executes after it in the same transaction: if one of them fails, nothing
  happens at all.

  \<open>sys_reachable\<close> are the states of a chain on which the system contract is \<open>eosio\<close> and
  the token contract is \<open>eosio.token\<close>: a step is one action of either, or the chain
  creating the limits of a new account.
\<close>

section \<open>Dispatch\<close>

datatype (plugins only: code) sys_action =
    A_newaccount name name
  | A_setabi name "nat list"
  | A_native                       \<comment> \<open>updateauth, deleteauth, linkauth, unlinkauth, canceldelay, onerror\<close>
  | A_init int symbol
  | A_setram int
  | A_setramrate int
  | A_setparams blockchain_parameters
  | A_setpriv name bool
  | A_setalimits name int int int
  | A_setacctram name "int option"
  | A_setacctnet name "int option"
  | A_setacctcpu name "int option"
  | A_rmvproducer name
  | A_updtrevision int
  | A_bidname name name asset
  | A_bidrefund name name
  | A_deposit name asset
  | A_withdraw name asset
  | A_buyrex name asset
  | A_unstaketorex name name asset asset
  | A_sellrex name asset
  | A_cnclrexorder name
  | A_rentcpu name name asset asset
  | A_rentnet name name asset asset
  | A_fundcpuloan name int asset
  | A_fundnetloan name int asset
  | A_defcpuloan name int asset
  | A_defnetloan name int asset
  | A_updaterex name
  | A_consolidate name
  | A_mvtosavings name asset
  | A_mvfrsavings name asset
  | A_setrex asset
  | A_rexexec name nat
  | A_closerex name
  | A_buyrambytes name name int
  | A_buyram name name asset
  | A_sellram name int
  | A_delegatebw name name asset asset bool
  | A_undelegatebw name name asset asset
  | A_refund name
  | A_regproducer name public_key string int
  | A_unregprod name
  | A_voteproducer name name "name list"
  | A_regproxy name bool
  | A_onblock int name
  | A_claimrewards name

primrec sys_apply :: "'z sys_env_scheme \<Rightarrow> sys_action \<Rightarrow> sys \<Rightarrow> sys res" where
  "sys_apply e (A_newaccount creator newact) s = newaccount e creator newact s"
| "sys_apply e (A_setabi acnt abi) s = setabi e acnt abi s"
| "sys_apply e A_native s = Inr s"
| "sys_apply e (A_init version core) s = init e version core s"
| "sys_apply e (A_setram m) s = setram e m s"
| "sys_apply e (A_setramrate r) s = setramrate e r s"
| "sys_apply e (A_setparams p) s = setparams e p s"
| "sys_apply e (A_setpriv n b) s = setpriv e n b s"
| "sys_apply e (A_setalimits n ram net cpu) s = setalimits e n ram net cpu s"
| "sys_apply e (A_setacctram n v) s = setacctram e n v s"
| "sys_apply e (A_setacctnet n v) s = setacctnet e n v s"
| "sys_apply e (A_setacctcpu n v) s = setacctcpu e n v s"
| "sys_apply e (A_rmvproducer n) s = rmvproducer e n s"
| "sys_apply e (A_updtrevision r) s = updtrevision e r s"
| "sys_apply e (A_bidname bidder n bid) s = bidname e bidder n bid s"
| "sys_apply e (A_bidrefund bidder n) s = bidrefund e bidder n s"
| "sys_apply e (A_deposit n q) s = deposit e n q s"
| "sys_apply e (A_withdraw n q) s = withdraw e n q s"
| "sys_apply e (A_buyrex n q) s = buyrex e n q s"
| "sys_apply e (A_unstaketorex n r net cpu) s = unstaketorex e n r net cpu s"
| "sys_apply e (A_sellrex n q) s = sellrex e n q s"
| "sys_apply e (A_cnclrexorder n) s = cnclrexorder e n s"
| "sys_apply e (A_rentcpu n r p f) s = rentcpu e n r p f s"
| "sys_apply e (A_rentnet n r p f) s = rentnet e n r p f s"
| "sys_apply e (A_fundcpuloan n i q) s = fundcpuloan e n i q s"
| "sys_apply e (A_fundnetloan n i q) s = fundnetloan e n i q s"
| "sys_apply e (A_defcpuloan n i q) s = defcpuloan e n i q s"
| "sys_apply e (A_defnetloan n i q) s = defnetloan e n i q s"
| "sys_apply e (A_updaterex n) s = updaterex e n s"
| "sys_apply e (A_consolidate n) s = consolidate e n s"
| "sys_apply e (A_mvtosavings n q) s = mvtosavings e n q s"
| "sys_apply e (A_mvfrsavings n q) s = mvfrsavings e n q s"
| "sys_apply e (A_setrex q) s = setrex e q s"
| "sys_apply e (A_rexexec n m) s = rexexec e n m s"
| "sys_apply e (A_closerex n) s = closerex e n s"
| "sys_apply e (A_buyrambytes p r b) s = buyrambytes e p r b s"
| "sys_apply e (A_buyram p r q) s = buyram e p r q s"
| "sys_apply e (A_sellram n b) s = sellram e n b s"
| "sys_apply e (A_delegatebw f r net cpu t) s = delegatebw e f r net cpu t s"
| "sys_apply e (A_undelegatebw f r net cpu) s = undelegatebw e f r net cpu s"
| "sys_apply e (A_refund n) s = refund e n s"
| "sys_apply e (A_regproducer n k u l) s = regproducer e n k u l s"
| "sys_apply e (A_unregprod n) s = unregprod e n s"
| "sys_apply e (A_voteproducer n p ps) s = voteproducer e n p ps s"
| "sys_apply e (A_regproxy n b) s = regproxy e n b s"
| "sys_apply e (A_onblock t p) s = onblock e t p s"
| "sys_apply e (A_claimrewards n) s = claimrewards e n s"

text \<open>
  The arguments are values of their C++ types, as the contract's datastream yields them, and
  the core token is not one of the RAM market's own two symbols.
\<close>

definition asset_typed :: "asset \<Rightarrow> bool" where
  "asset_typed q \<longleftrightarrow> - (2 ^ 63) \<le> amount q \<and> amount q < 2 ^ 63"

definition action_ok :: "sys_action \<Rightarrow> bool" where
  "action_ok a =
     (case a of
        A_init _ core \<Rightarrow> core \<noteq> ram_symbol \<and> core \<noteq> ramcore_symbol
      | A_setram m \<Rightarrow> 0 \<le> m \<and> m < 2 ^ 64
      | A_setramrate r \<Rightarrow> 0 \<le> r \<and> r < 2 ^ 16
      | A_bidname _ _ q \<Rightarrow> asset_typed q
      | A_deposit _ q \<Rightarrow> asset_typed q
      | A_withdraw _ q \<Rightarrow> asset_typed q
      | A_buyrex _ q \<Rightarrow> asset_typed q
      | A_unstaketorex _ _ a b \<Rightarrow> asset_typed a \<and> asset_typed b
      | A_sellrex _ q \<Rightarrow> asset_typed q
      | A_rentcpu _ _ a b \<Rightarrow> asset_typed a \<and> asset_typed b
      | A_rentnet _ _ a b \<Rightarrow> asset_typed a \<and> asset_typed b
      | A_fundcpuloan _ i q \<Rightarrow> 0 \<le> i \<and> i < 2 ^ 64 \<and> asset_typed q
      | A_fundnetloan _ i q \<Rightarrow> 0 \<le> i \<and> i < 2 ^ 64 \<and> asset_typed q
      | A_defcpuloan _ i q \<Rightarrow> 0 \<le> i \<and> i < 2 ^ 64 \<and> asset_typed q
      | A_defnetloan _ i q \<Rightarrow> 0 \<le> i \<and> i < 2 ^ 64 \<and> asset_typed q
      | A_mvtosavings _ q \<Rightarrow> asset_typed q
      | A_mvfrsavings _ q \<Rightarrow> asset_typed q
      | A_setrex q \<Rightarrow> asset_typed q
      | A_rexexec _ m \<Rightarrow> m < 2 ^ 16
      | A_buyrambytes _ _ b \<Rightarrow> 0 \<le> b \<and> b < 2 ^ 32
      | A_buyram _ _ q \<Rightarrow> asset_typed q
      | A_sellram _ b \<Rightarrow> - (2 ^ 63) \<le> b \<and> b < 2 ^ 63
      | A_delegatebw _ _ a b _ \<Rightarrow> asset_typed a \<and> asset_typed b
      | A_undelegatebw _ _ a b \<Rightarrow> asset_typed a \<and> asset_typed b
      | A_onblock t _ \<Rightarrow> 0 \<le> t \<and> t < 2 ^ 32
      | _ \<Rightarrow> True)"

section \<open>Transactions\<close>

text \<open>
  When a transaction ends, the chain checks every account whose RAM limit the contract lowered:
  what its rows take up must fit. An action within a longer transaction is not checked yet; it
  runs in a context with a small \<open>ram_usage\<close>.
\<close>

definition ram_limit :: "name \<Rightarrow> (name, int \<times> int \<times> int) table \<Rightarrow> int" where
  "ram_limit n l = (case tfind n l of None \<Rightarrow> - 1 | Some (ram, net, cpu) \<Rightarrow> ram)"

definition lowered :: "name \<Rightarrow> (name, int \<times> int \<times> int) table \<Rightarrow> (name, int \<times> int \<times> int) table \<Rightarrow> bool" where
  "lowered n l l' \<longleftrightarrow> 0 \<le> ram_limit n l' \<and> (ram_limit n l < 0 \<or> ram_limit n l' < ram_limit n l)"

definition ram_suffices ::
  "'z sys_env_scheme \<Rightarrow> (name, int \<times> int \<times> int) table \<Rightarrow> (name, int \<times> int \<times> int) table \<Rightarrow> bool" where
  "ram_suffices e l l' \<longleftrightarrow> (\<forall>n\<in>set (map fst l'). lowered n l l' \<longrightarrow> ram_usage e n \<le> ram_limit n l')"

definition sys_transact :: "'z sys_env_scheme \<Rightarrow> sys_action \<Rightarrow> sys \<Rightarrow> sys res" where
  "sys_transact e a s =
     ebind (sys_apply e a (s\<lparr>outbox := []\<rparr>)) (\<lambda>s1.
     ebind (run_inline e (outbox s1) (tokens s1)) (\<lambda>t.
     guard (ram_suffices e (limits s) (limits s1)) HostError
     (Inr (s1\<lparr>tokens := t, outbox := []\<rparr>))))"

text \<open>A token action of a user, next to the system contract's tables.\<close>

definition user_token_transact :: "'z sys_env_scheme \<Rightarrow> token_action \<Rightarrow> sys \<Rightarrow> sys res" where
  "user_token_transact e a s =
     ebind (token_transact e a (tokens s)) (\<lambda>t. Inr (s\<lparr>tokens := t\<rparr>))"

text \<open>The chain makes a new account without limits.\<close>

definition new_limits :: "name \<Rightarrow> sys \<Rightarrow> sys" where
  "new_limits n s = (if tfind n (limits s) = None then s\<lparr>limits := (n, - 1, - 1, - 1) # limits s\<rparr> else s)"

text \<open>
  What the contract may assume of the context: the laws of \<open>asset\<close>, and that
  \<open>eosio\<close> runs the system contract. The accounts \<open>eosio.rex\<close> and the like sign
  nothing but what the system contract sends in their name.
\<close>

definition sys_env_ok :: "'z sys_env_scheme \<Rightarrow> bool" where
  "sys_env_ok e \<longleftrightarrow> asset_laws e \<and> self e = eosio_account"

definition not_signed_by_rex :: "'z sys_env_scheme \<Rightarrow> bool" where
  "not_signed_by_rex e \<longleftrightarrow> \<not> has_auth e rex_account"

inductive sys_reachable :: "sys \<Rightarrow> bool" where
  start: "token_reachable t \<Longrightarrow> sys_reachable (genesis t p l)"
| action: "sys_reachable s \<Longrightarrow> sys_env_ok (e :: sys_env) \<Longrightarrow> not_signed_by_rex e \<Longrightarrow> action_ok a \<Longrightarrow>
     sys_transact e a s = Inr s' \<Longrightarrow> sys_reachable s'"
| token: "sys_reachable s \<Longrightarrow> sys_env_ok (e :: sys_env) \<Longrightarrow> not_signed_by_rex e \<Longrightarrow>
     user_token_transact e a s = Inr s' \<Longrightarrow> sys_reachable s'"
| account: "sys_reachable s \<Longrightarrow> sys_reachable (new_limits n s)"

inductive_cases sys_reachable_cases: "sys_reachable s"

lemma sys_transact_eq_Inr:
  "sys_transact e a s = Inr s' \<longleftrightarrow>
     (\<exists>s1 t. sys_apply e a (s\<lparr>outbox := []\<rparr>) = Inr s1 \<and> run_inline e (outbox s1) (tokens s1) = Inr t \<and>
        ram_suffices e (limits s) (limits s1) \<and> s' = s1\<lparr>tokens := t, outbox := []\<rparr>)"
  by (auto simp: sys_transact_def)

lemma ram_suffices_same [simp]: "ram_suffices e l l"
  by (auto simp: ram_suffices_def lowered_def)

lemma user_token_transact_eq_Inr:
  "user_token_transact e a s = Inr s' \<longleftrightarrow> (\<exists>t. token_transact e a (tokens s) = Inr t \<and> s' = s\<lparr>tokens := t\<rparr>)"
  by (auto simp: user_token_transact_def)

text \<open>The check of the RAM limits only concerns accounts with a limit; a change to one row concerns that account.\<close>

lemma ram_suffices_all: "ram_suffices e l l' \<longleftrightarrow> (\<forall>n. lowered n l l' \<longrightarrow> ram_usage e n \<le> ram_limit n l')"
proof -
  have "n \<in> set (map fst l')" if "lowered n l l'" for n
  proof -
    have "tfind n l' \<noteq> None" using that by (auto simp: lowered_def ram_limit_def split: option.splits)
    then show ?thesis by (simp add: map_of_eq_None_iff)
  qed
  then show ?thesis by (auto simp: ram_suffices_def)
qed

lemma ram_suffices_one:
  assumes "\<And>m. m \<noteq> n \<Longrightarrow> tfind m l' = tfind m l"
  shows "ram_suffices e l l' \<longleftrightarrow> (lowered n l l' \<longrightarrow> ram_usage e n \<le> ram_limit n l')"
proof -
  have "\<not> lowered m l l'" if "m \<noteq> n" for m using assms [OF that] by (simp add: lowered_def ram_limit_def)
  then show ?thesis unfolding ram_suffices_all by metis
qed

section \<open>Examples\<close>

text \<open>A concrete context, the chain before \<open>init\<close> and right after it.\<close>

definition demo_sys_env :: "name list \<Rightarrow> int \<Rightarrow> sys_env" where
  "demo_sys_env signers t =
     env.extend (ref_env eosio_account signers
         [eosio_account, alice, bob, ram_account, ramfee_account, rex_account, stake_account,
          names_account, saving_account, bpay_account, vpay_account] t)
       (sys_env.fields (\<lambda>ps. 0) (\<lambda>abi. 0) 0 (\<lambda>n. 0))"

lemma asset_laws_extend [simp]: "asset_laws (env.extend (ref_env me signers accts t) x)"
  using asset_laws_ref_env [of me signers accts t]
  by (simp add: asset_laws_def env.defs ref_env_def)

lemma sys_env_ok_demo: "sys_env_ok (demo_sys_env signers t)"
  by (simp add: sys_env_ok_def demo_sys_env_def) (simp add: env.defs ref_env_def)

lemma not_signed_by_rex_demo: "rex_account \<notin> set signers \<Longrightarrow> not_signed_by_rex (demo_sys_env signers t)"
  by (simp add: not_signed_by_rex_def demo_sys_env_def env.defs ref_env_def)

definition demo_params :: blockchain_parameters where
  "demo_params = \<lparr>max_authority_depth = 6, other_parameters = 0\<rparr>"

text \<open>A billion tokens of four decimals, issued to alice.\<close>

definition rich_created :: token_state where
  "rich_created = \<lparr>
     stats = [(5459781, \<lparr>st_supply = eos 0, st_max_supply = eos 100000000000000, st_issuer = eosio_account\<rparr>)],
     accounts = []\<rparr>"

definition rich_tokens :: token_state where
  "rich_tokens = \<lparr>
     stats = [(5459781, \<lparr>st_supply = eos 10000000000000, st_max_supply = eos 100000000000000, st_issuer = eosio_account\<rparr>)],
     accounts = [((alice, 5459781), eos 10000000000000), ((eosio_account, 5459781), eos 0)]\<rparr>"

lemma rich_create:
  "token_transact (demo_env [token_account]) (Create eosio_account (eos 100000000000000)) token_init =
     Inr rich_created"
  by code_simp

lemma rich_issue:
  "token_transact (demo_env [eosio_account]) (Issue alice (eos 10000000000000) []) rich_created = Inr rich_tokens"
  by code_simp

lemma rich_reachable: "token_reachable rich_tokens"
  by (rule token_reachable.step [OF token_reachable.step [OF token_reachable.start
        asset_laws_demo_env rich_create] asset_laws_demo_env rich_issue])

definition demo_genesis :: sys where
  "demo_genesis = genesis rich_tokens demo_params
     [(eosio_account, -1, -1, -1), (alice, 0, 0, 0), (bob, 0, 0, 0)]"

definition demo_market :: exchange_state where
  "demo_market =
     \<lparr>ex_supply = mk_asset 100000000000000 ramcore_symbol,
      ex_base = \<lparr>c_balance = mk_asset 68719476736 ram_symbol, c_weight = Fin (1 / 2)\<rparr>,
      ex_quote = \<lparr>c_balance = mk_asset 10000000000 eos_symbol, c_weight = Fin (1 / 2)\<rparr>\<rparr>"

definition demo_ready :: sys where
  "demo_ready = demo_genesis\<lparr>
     tokens := rich_tokens\<lparr>accounts := ((rex_account, 5459781), eos 0) # accounts rich_tokens\<rparr>,
     rammarket := [(ramcore_symbol, demo_market)]\<rparr>"

lemma demo_init:
  "sys_transact (demo_sys_env [eosio_account] 0) (A_init 0 eos_symbol) demo_genesis = Inr demo_ready"
  by code_simp

lemma demo_ready_reachable: "sys_reachable demo_ready"
proof (rule sys_reachable.action [OF _ sys_env_ok_demo _ _ demo_init])
  show "sys_reachable demo_genesis"
    unfolding demo_genesis_def by (rule sys_reachable.start) (rule rich_reachable)
qed (simp_all add: not_signed_by_rex_demo action_ok_def account_defs example_defs ram_symbol_def ramcore_symbol_def)

end
