(* ===== verification/Footprint.thy ===== *)
theory Footprint
  imports Frames System_Contract
begin

text \<open>
  Which tables each action may write. \<open>sys_field\<close> names the fields of the contract's state,
  \<open>footprint\<close> gives for every action of the dispatch table the fields it may change, and the
  theorem at the end says that it changes no other. The components' invariants use it to pass
  over the actions that do not concern them.

  \<open>hide F\<close> blanks the fields of \<open>F\<close>; the lemmas \<open>write_frame\<close> say of each operation that it
  cannot be seen when the fields it writes are hidden.
\<close>

section \<open>Fields\<close>

datatype (plugins only: code) sys_field =
    Tokens | Gstate | Gstate2 | Gstate3 | Voters
  | Producers | Producers2 | Rammarket | Rexpool | Rexfunds
  | Rexbalance | Rexorders | Cpuloans | Netloans | Userres
  | Delband | Refunds | Namebids | Bidrefunds | Abihashes
  | Limits | Privileged | Chain_params | Proposed_schedule | Deferred
  | Outbox

primrec unchanged :: "sys_field \<Rightarrow> sys \<Rightarrow> sys \<Rightarrow> bool" where
  "unchanged Tokens s s' \<longleftrightarrow> tokens s' = tokens s"
| "unchanged Gstate s s' \<longleftrightarrow> gstate s' = gstate s"
| "unchanged Gstate2 s s' \<longleftrightarrow> gstate2 s' = gstate2 s"
| "unchanged Gstate3 s s' \<longleftrightarrow> gstate3 s' = gstate3 s"
| "unchanged Voters s s' \<longleftrightarrow> voters s' = voters s"
| "unchanged Producers s s' \<longleftrightarrow> producers s' = producers s"
| "unchanged Producers2 s s' \<longleftrightarrow> producers2 s' = producers2 s"
| "unchanged Rammarket s s' \<longleftrightarrow> rammarket s' = rammarket s"
| "unchanged Rexpool s s' \<longleftrightarrow> rexpool s' = rexpool s"
| "unchanged Rexfunds s s' \<longleftrightarrow> rexfunds s' = rexfunds s"
| "unchanged Rexbalance s s' \<longleftrightarrow> rexbalance s' = rexbalance s"
| "unchanged Rexorders s s' \<longleftrightarrow> rexorders s' = rexorders s"
| "unchanged Cpuloans s s' \<longleftrightarrow> cpuloans s' = cpuloans s"
| "unchanged Netloans s s' \<longleftrightarrow> netloans s' = netloans s"
| "unchanged Userres s s' \<longleftrightarrow> userres s' = userres s"
| "unchanged Delband s s' \<longleftrightarrow> delband s' = delband s"
| "unchanged Refunds s s' \<longleftrightarrow> refunds s' = refunds s"
| "unchanged Namebids s s' \<longleftrightarrow> namebids s' = namebids s"
| "unchanged Bidrefunds s s' \<longleftrightarrow> bidrefunds s' = bidrefunds s"
| "unchanged Abihashes s s' \<longleftrightarrow> abihashes s' = abihashes s"
| "unchanged Limits s s' \<longleftrightarrow> limits s' = limits s"
| "unchanged Privileged s s' \<longleftrightarrow> privileged s' = privileged s"
| "unchanged Chain_params s s' \<longleftrightarrow> chain_params s' = chain_params s"
| "unchanged Proposed_schedule s s' \<longleftrightarrow> proposed_schedule s' = proposed_schedule s"
| "unchanged Deferred s s' \<longleftrightarrow> deferred s' = deferred s"
| "unchanged Outbox s s' \<longleftrightarrow> outbox s' = outbox s"

definition no_params :: blockchain_parameters where
  "no_params = \<lparr>max_authority_depth = 0, other_parameters = 0\<rparr>"

definition hide :: "sys_field set \<Rightarrow> sys \<Rightarrow> sys" where
  "hide F s = \<lparr>
     tokens = (if Tokens \<in> F then token_init else tokens s),
     gstate = (if Gstate \<in> F then default_global_state no_params else gstate s),
     gstate2 = (if Gstate2 \<in> F then default_global_state2 else gstate2 s),
     gstate3 = (if Gstate3 \<in> F then default_global_state3 else gstate3 s),
     voters = (if Voters \<in> F then [] else voters s),
     producers = (if Producers \<in> F then [] else producers s),
     producers2 = (if Producers2 \<in> F then [] else producers2 s),
     rammarket = (if Rammarket \<in> F then [] else rammarket s),
     rexpool = (if Rexpool \<in> F then None else rexpool s),
     rexfunds = (if Rexfunds \<in> F then [] else rexfunds s),
     rexbalance = (if Rexbalance \<in> F then [] else rexbalance s),
     rexorders = (if Rexorders \<in> F then [] else rexorders s),
     cpuloans = (if Cpuloans \<in> F then [] else cpuloans s),
     netloans = (if Netloans \<in> F then [] else netloans s),
     userres = (if Userres \<in> F then [] else userres s),
     delband = (if Delband \<in> F then [] else delband s),
     refunds = (if Refunds \<in> F then [] else refunds s),
     namebids = (if Namebids \<in> F then [] else namebids s),
     bidrefunds = (if Bidrefunds \<in> F then [] else bidrefunds s),
     abihashes = (if Abihashes \<in> F then [] else abihashes s),
     limits = (if Limits \<in> F then [] else limits s),
     privileged = (if Privileged \<in> F then [] else privileged s),
     chain_params = (if Chain_params \<in> F then no_params else chain_params s),
     proposed_schedule = (if Proposed_schedule \<in> F then [] else proposed_schedule s),
     deferred = (if Deferred \<in> F then [] else deferred s),
     outbox = (if Outbox \<in> F then [] else outbox s)\<rparr>"

text \<open>From one state to the other, at most the fields of \<open>F\<close> are written.\<close>

definition writes :: "sys_field set \<Rightarrow> sys \<Rightarrow> sys \<Rightarrow> bool" where
  "writes F s s' \<longleftrightarrow> (\<forall>G. F \<subseteq> G \<longrightarrow> hide G s' = hide G s)"

named_theorems write_frame

lemma hide_updates [simp]:
  "Tokens \<in> F \<Longrightarrow> hide F (s\<lparr>tokens := x0\<rparr>) = hide F s"
  "Gstate \<in> F \<Longrightarrow> hide F (s\<lparr>gstate := x1\<rparr>) = hide F s"
  "Gstate2 \<in> F \<Longrightarrow> hide F (s\<lparr>gstate2 := x2\<rparr>) = hide F s"
  "Gstate3 \<in> F \<Longrightarrow> hide F (s\<lparr>gstate3 := x3\<rparr>) = hide F s"
  "Voters \<in> F \<Longrightarrow> hide F (s\<lparr>voters := x4\<rparr>) = hide F s"
  "Producers \<in> F \<Longrightarrow> hide F (s\<lparr>producers := x5\<rparr>) = hide F s"
  "Producers2 \<in> F \<Longrightarrow> hide F (s\<lparr>producers2 := x6\<rparr>) = hide F s"
  "Rammarket \<in> F \<Longrightarrow> hide F (s\<lparr>rammarket := x7\<rparr>) = hide F s"
  "Rexpool \<in> F \<Longrightarrow> hide F (s\<lparr>rexpool := x8\<rparr>) = hide F s"
  "Rexfunds \<in> F \<Longrightarrow> hide F (s\<lparr>rexfunds := x9\<rparr>) = hide F s"
  "Rexbalance \<in> F \<Longrightarrow> hide F (s\<lparr>rexbalance := x10\<rparr>) = hide F s"
  "Rexorders \<in> F \<Longrightarrow> hide F (s\<lparr>rexorders := x11\<rparr>) = hide F s"
  "Cpuloans \<in> F \<Longrightarrow> hide F (s\<lparr>cpuloans := x12\<rparr>) = hide F s"
  "Netloans \<in> F \<Longrightarrow> hide F (s\<lparr>netloans := x13\<rparr>) = hide F s"
  "Userres \<in> F \<Longrightarrow> hide F (s\<lparr>userres := x14\<rparr>) = hide F s"
  "Delband \<in> F \<Longrightarrow> hide F (s\<lparr>delband := x15\<rparr>) = hide F s"
  "Refunds \<in> F \<Longrightarrow> hide F (s\<lparr>refunds := x16\<rparr>) = hide F s"
  "Namebids \<in> F \<Longrightarrow> hide F (s\<lparr>namebids := x17\<rparr>) = hide F s"
  "Bidrefunds \<in> F \<Longrightarrow> hide F (s\<lparr>bidrefunds := x18\<rparr>) = hide F s"
  "Abihashes \<in> F \<Longrightarrow> hide F (s\<lparr>abihashes := x19\<rparr>) = hide F s"
  "Limits \<in> F \<Longrightarrow> hide F (s\<lparr>limits := x20\<rparr>) = hide F s"
  "Privileged \<in> F \<Longrightarrow> hide F (s\<lparr>privileged := x21\<rparr>) = hide F s"
  "Chain_params \<in> F \<Longrightarrow> hide F (s\<lparr>chain_params := x22\<rparr>) = hide F s"
  "Proposed_schedule \<in> F \<Longrightarrow> hide F (s\<lparr>proposed_schedule := x23\<rparr>) = hide F s"
  "Deferred \<in> F \<Longrightarrow> hide F (s\<lparr>deferred := x24\<rparr>) = hide F s"
  "Outbox \<in> F \<Longrightarrow> hide F (s\<lparr>outbox := x25\<rparr>) = hide F s"
  by (simp_all add: hide_def)

lemma writes_unchanged:
  assumes "writes F s s'" "f \<notin> F"
  shows "unchanged f s s'"
proof -
  have "hide F s' = hide F s" using assms(1) by (simp add: writes_def)
  then show ?thesis using assms(2) by (cases f) (simp_all add: hide_def)
qed

lemma hide_send_inline [simp]: "Outbox \<in> F \<Longrightarrow> hide F (send_inline a s) = hide F s"
  by (simp add: send_inline_def)

lemma hide_deferred [simp]:
  "Deferred \<in> F \<Longrightarrow> hide F (cancel_deferred i s) = hide F s"
  "Deferred \<in> F \<Longrightarrow> hide F (send_deferred i t s) = hide F s"
  by (simp_all add: cancel_deferred_def send_deferred_def)

abbreviation vote_fields :: "sys_field set" where
  "vote_fields \<equiv> {Voters, Producers, Producers2, Gstate, Gstate2, Gstate3}"

abbreviation rex_fields :: "sys_field set" where
  "rex_fields \<equiv> {Rexpool, Rexfunds, Rexbalance, Rexorders, Cpuloans, Netloans, Userres, Limits, Outbox}"

abbreviation ram_fields :: "sys_field set" where
  "ram_fields \<equiv> {Rammarket, Gstate, Gstate2, Outbox, Rexpool, Userres, Limits}"

lemma hide_vote_frame:
  assumes "vote_fields \<subseteq> F" "vote_frame s' = vote_frame s"
  shows "hide F s' = hide F s"
proof -
  have "hide F (vote_frame t) = hide F t" for t
    using assms(1) by (simp add: vote_frame_def)
  then show ?thesis using assms(2) by metis
qed

lemma writes_refl [simp]: "writes F s s"
  by (simp add: writes_def)

lemma writes_votes [write_frame]:
  "update_voting_power e n q s = Inr s' \<Longrightarrow> writes vote_fields s s'"
  "update_votes e n prx prods v s = Inr s' \<Longrightarrow> writes vote_fields s s'"
  "regproxy e n b s = Inr s' \<Longrightarrow> writes vote_fields s s'"
  unfolding writes_def
  by (blast intro: hide_vote_frame vote_frame_update_voting_power vote_frame_update_votes vote_frame_regproxy)+

lemma hide_total_share [simp]:
  "{Gstate2, Gstate3} \<subseteq> F \<Longrightarrow> hide F (snd (update_total_votepay_share ct a b s)) = hide F s"
  by (simp add: update_total_votepay_share_def Let_def)

lemma hide_set_managed [simp]: "Voters \<in> F \<Longrightarrow> hide F (set_managed n f b s) = hide F s"
  by (simp add: set_managed_def Let_def)

section \<open>The operations\<close>

lemma writes_set_limits [write_frame]:
  "set_limits n a b c s = Inr s' \<Longrightarrow> writes {Limits} s s'"
  by (auto simp: writes_def set_limits_eq_Inr)

lemma writes_transfer_from_fund [write_frame]:
  "transfer_from_fund e n q s = Inr s' \<Longrightarrow> writes {Rexfunds} s s'"
  by (auto simp: writes_def transfer_from_fund_def Let_def case_prod_beta split: option.splits if_split_asm dest!: write_frame)

lemma writes_transfer_to_fund [write_frame]:
  "transfer_to_fund n q s = Inr s' \<Longrightarrow> writes {Rexfunds} s s'"
  by (auto simp: writes_def transfer_to_fund_def Let_def case_prod_beta split: option.splits if_split_asm dest!: write_frame)

lemma hide_channel_to_rex [simp]: "{Rexpool, Outbox} \<subseteq> F \<Longrightarrow> hide F (channel_to_rex e n q s) = hide F s"
  by (simp add: channel_to_rex_def Let_def split: option.splits)

lemma hide_channel_namebid_to_rex [simp]: "{Rexpool} \<subseteq> F \<Longrightarrow> hide F (channel_namebid_to_rex b s) = hide F s"
  by (simp add: channel_namebid_to_rex_def Let_def split: option.splits)

lemma writes_limits_follow [write_frame]:
  "limits_follow n f r s = Inr s' \<Longrightarrow> writes {Limits} s s'"
  by (auto simp: writes_def limits_follow_def Let_def case_prod_beta split: option.splits if_split_asm dest!: write_frame)

lemma hide_put_resources [simp]: "Userres \<in> F \<Longrightarrow> hide F (put_resources n r s) = hide F s"
  by (simp add: put_resources_def)

lemma hide_put_loans [simp]: "{Cpuloans, Netloans} \<subseteq> F \<Longrightarrow> hide F (put_loans r t s) = hide F s"
  by (cases r) simp_all

lemma hide_put_rex_balance [simp]: "Rexbalance \<in> F \<Longrightarrow> hide F (put_rex_balance n rb s) = hide F s"
  by (simp add: put_rex_balance_def)

lemma writes_update_resource_limits [write_frame]:
  "update_resource_limits e n a b s = Inr s' \<Longrightarrow> writes {Userres, Limits} s s'"
  by (auto simp: writes_def update_resource_limits_def Let_def case_prod_beta split: option.splits if_split_asm dest!: write_frame)

lemma writes_limits_for_loan [write_frame]:
  "limits_for_loan r e n a s = Inr s' \<Longrightarrow> writes {Userres, Limits} s s'"
  by (cases r) (auto simp: writes_def dest!: write_frame)

lemma writes_process_expired_loan [write_frame]:
  "process_expired_loan r e k l s = Inr (b, d, s') \<Longrightarrow> writes {Rexpool, Rexfunds, Cpuloans, Netloans} s s'"
  by (auto simp: writes_def process_expired_loan_def Let_def case_prod_beta split: option.splits if_split_asm dest!: write_frame)

lemma writes_expired_loan_round [write_frame]:
  "expired_loan_round r e s = Inr (Some s') \<Longrightarrow> writes {Rexpool, Rexfunds, Cpuloans, Netloans, Userres, Limits} s s'"
  by (auto simp: writes_def expired_loan_round_def Let_def case_prod_beta split: list.splits option.splits if_split_asm dest!: write_frame)

lemma writes_process_loans [write_frame]:
  "process_loans r e n s = Inr s' \<Longrightarrow> writes {Rexpool, Rexfunds, Cpuloans, Netloans, Userres, Limits} s s'"
  proof (induction n arbitrary: s)
  case (Suc n)
  then show ?case by (auto simp: writes_def split: option.splits dest!: write_frame)
qed simp

lemma writes_fill_order_of [write_frame]:
  "fill_order_of e n rb q s = Inr (oc, s') \<Longrightarrow> writes {Rexpool, Rexbalance} s s'"
  by (auto simp: writes_def fill_order_of_def Let_def case_prod_beta split: option.splits if_split_asm dest!: write_frame)

lemma writes_fill_queued_order [write_frame]:
  "fill_queued_order e x s = Inr s' \<Longrightarrow> writes {Rexpool, Rexbalance, Rexorders, Outbox} s s'"
  by (auto simp: writes_def fill_queued_order_def Let_def case_prod_beta split: option.splits if_split_asm dest!: write_frame)

lemma writes_process_orders [write_frame]:
  "process_orders e n s = Inr s' \<Longrightarrow> writes {Rexpool, Rexbalance, Rexorders, Outbox} s s'"
  unfolding process_orders_def
  by (erule efold_invariant [where P = "writes {Rexpool, Rexbalance, Rexorders, Outbox} s"], simp)
    (drule writes_fill_queued_order, simp add: writes_def)

lemma writes_channel_proceeds [write_frame]:
  "channel_proceeds e s = Inr s' \<Longrightarrow> writes {Rexpool, Outbox} s s'"
  by (auto simp: writes_def channel_proceeds_def Let_def case_prod_beta split: option.splits if_split_asm dest!: write_frame)

lemma writes_runrex [write_frame]:
  "runrex e n s = Inr s' \<Longrightarrow> writes rex_fields s s'"
  by (auto simp: writes_def runrex_def Let_def case_prod_beta split: option.splits if_split_asm dest!: write_frame)

lemma writes_rent_rex [write_frame]:
  "rent_rex r e n m p q s = Inr (x, s') \<Longrightarrow> writes rex_fields s s'"
  by (auto simp: writes_def rent_rex_def Let_def case_prod_beta split: option.splits if_split_asm dest!: write_frame)

lemma writes_fund_rex_loan_CPU [write_frame]:
  "fund_rex_loan CPU e n i q s = Inr s' \<Longrightarrow> writes {Rexfunds, Cpuloans} s s'"
  by (auto simp: writes_def fund_rex_loan_def split: option.splits dest!: write_frame)

lemma writes_defund_rex_loan_CPU [write_frame]:
  "defund_rex_loan CPU e n i q s = Inr s' \<Longrightarrow> writes {Rexfunds, Cpuloans} s s'"
  by (auto simp: writes_def defund_rex_loan_def split: option.splits dest!: write_frame)

lemma writes_fund_rex_loan_NET [write_frame]:
  "fund_rex_loan NET e n i q s = Inr s' \<Longrightarrow> writes {Rexfunds, Netloans} s s'"
  by (auto simp: writes_def fund_rex_loan_def split: option.splits dest!: write_frame)

lemma writes_defund_rex_loan_NET [write_frame]:
  "defund_rex_loan NET e n i q s = Inr s' \<Longrightarrow> writes {Rexfunds, Netloans} s s'"
  by (auto simp: writes_def defund_rex_loan_def split: option.splits dest!: write_frame)

lemma writes_update_rex_account [write_frame]:
  "update_rex_account e n p d b s = Inr (x, s') \<Longrightarrow> writes ({Rexorders, Rexfunds} \<union> vote_fields) s s'"
  by (auto simp: writes_def update_rex_account_def Let_def case_prod_beta split: option.splits if_split_asm dest!: write_frame)

lemma writes_settle_account [write_frame]:
  "settle_account e n b s = Inr (x, s') \<Longrightarrow> writes ({Rexorders, Rexfunds} \<union> vote_fields) s s'"
  by (auto simp: writes_def settle_account_def Let_def case_prod_beta split: option.splits if_split_asm dest!: write_frame)

lemma writes_add_to_rex_pool [write_frame]:
  "add_to_rex_pool e q s = Inr (x, s') \<Longrightarrow> writes {Rexpool} s s'"
  by (auto simp: writes_def add_to_rex_pool_def Let_def case_prod_beta split: option.splits if_split_asm dest!: write_frame)

lemma writes_add_to_rex_balance [write_frame]:
  "add_to_rex_balance e n p q s = Inr (x, s') \<Longrightarrow> writes {Rexbalance} s s'"
  by (auto simp: writes_def add_to_rex_balance_def Let_def case_prod_beta split: option.splits if_split_asm dest!: write_frame)

lemma writes_update_rex_stake [write_frame]:
  "update_rex_stake n s = Inr s' \<Longrightarrow> writes {Rexbalance, Voters} s s'"
  by (auto simp: writes_def update_rex_stake_def Let_def case_prod_beta split: option.splits if_split_asm dest!: write_frame)

lemma writes_unstake_for_rex [write_frame]:
  "unstake_for_rex n m a b s = Inr s' \<Longrightarrow> writes {Delband} s s'"
  by (auto simp: writes_def unstake_for_rex_def Let_def case_prod_beta split: option.splits if_split_asm dest!: write_frame)

lemma writes_queue_order [write_frame]:
  "queue_order e n q s = Inr (x, s') \<Longrightarrow> writes {Rexorders} s s'"
  by (auto simp: writes_def queue_order_def Let_def case_prod_beta split: option.splits if_split_asm dest!: write_frame)

section \<open>The actions of the resource exchange\<close>

lemma writes_deposit [write_frame]:
  "deposit e n q s = Inr s' \<Longrightarrow> writes {Rexfunds, Outbox} s s'"
  by (auto simp: writes_def deposit_def Let_def case_prod_beta split: option.splits if_split_asm dest!: write_frame)

lemma writes_withdraw [write_frame]:
  "withdraw e n q s = Inr s' \<Longrightarrow> writes ({Rexorders, Rexfunds, Outbox} \<union> vote_fields) s s'"
  by (auto simp: writes_def withdraw_def Let_def case_prod_beta split: option.splits if_split_asm dest!: write_frame)

lemma writes_buyrex [write_frame]:
  "buyrex e n q s = Inr s' \<Longrightarrow> writes (rex_fields \<union> vote_fields) s s'"
  by (auto simp: writes_def buyrex_def Let_def case_prod_beta split: option.splits if_split_asm dest!: write_frame)

lemma writes_unstaketorex [write_frame]:
  "unstaketorex e n r a b s = Inr s' \<Longrightarrow> writes ({Delband} \<union> rex_fields \<union> vote_fields) s s'"
  by (auto simp: writes_def unstaketorex_def Let_def case_prod_beta split: option.splits if_split_asm dest!: write_frame)

lemma writes_sellrex [write_frame]:
  "sellrex e n q s = Inr s' \<Longrightarrow> writes (rex_fields \<union> vote_fields) s s'"
  by (auto simp: writes_def sellrex_def finish_sell_def Let_def case_prod_beta split: option.splits if_split_asm dest!: write_frame)

lemma writes_cnclrexorder [write_frame]:
  "cnclrexorder e n s = Inr s' \<Longrightarrow> writes {Rexorders} s s'"
  by (auto simp: writes_def cnclrexorder_def Let_def case_prod_beta split: option.splits if_split_asm dest!: write_frame)

lemma writes_rentcpu [write_frame]:
  "rentcpu e f t p q s = Inr s' \<Longrightarrow> writes rex_fields s s'"
  by (auto simp: writes_def rentcpu_def Let_def case_prod_beta split: option.splits if_split_asm dest!: write_frame)

lemma writes_rentnet [write_frame]:
  "rentnet e f t p q s = Inr s' \<Longrightarrow> writes rex_fields s s'"
  by (auto simp: writes_def rentnet_def Let_def case_prod_beta split: option.splits if_split_asm dest!: write_frame)

lemma writes_fundcpuloan [write_frame]:
  "fundcpuloan e f n q s = Inr s' \<Longrightarrow> writes {Rexfunds, Cpuloans} s s'"
  by (auto simp: writes_def fundcpuloan_def Let_def case_prod_beta split: option.splits if_split_asm dest!: write_frame)

lemma writes_fundnetloan [write_frame]:
  "fundnetloan e f n q s = Inr s' \<Longrightarrow> writes {Rexfunds, Netloans} s s'"
  by (auto simp: writes_def fundnetloan_def Let_def case_prod_beta split: option.splits if_split_asm dest!: write_frame)

lemma writes_defcpuloan [write_frame]:
  "defcpuloan e f n q s = Inr s' \<Longrightarrow> writes {Rexfunds, Cpuloans} s s'"
  by (auto simp: writes_def defcpuloan_def Let_def case_prod_beta split: option.splits if_split_asm dest!: write_frame)

lemma writes_defnetloan [write_frame]:
  "defnetloan e f n q s = Inr s' \<Longrightarrow> writes {Rexfunds, Netloans} s s'"
  by (auto simp: writes_def defnetloan_def Let_def case_prod_beta split: option.splits if_split_asm dest!: write_frame)

lemma writes_updaterex [write_frame]:
  "updaterex e n s = Inr s' \<Longrightarrow> writes (rex_fields \<union> vote_fields) s s'"
  by (auto simp: writes_def updaterex_def Let_def case_prod_beta split: option.splits if_split_asm dest!: write_frame)

lemma writes_consolidate [write_frame]:
  "consolidate e n s = Inr s' \<Longrightarrow> writes (rex_fields \<union> vote_fields) s s'"
  by (auto simp: writes_def consolidate_def Let_def case_prod_beta split: option.splits if_split_asm dest!: write_frame)

lemma writes_mvtosavings [write_frame]:
  "mvtosavings e n q s = Inr s' \<Longrightarrow> writes (rex_fields \<union> vote_fields) s s'"
  by (auto simp: writes_def mvtosavings_def Let_def case_prod_beta split: option.splits if_split_asm dest!: write_frame)

lemma writes_mvfrsavings [write_frame]:
  "mvfrsavings e n q s = Inr s' \<Longrightarrow> writes (rex_fields \<union> vote_fields) s s'"
  by (auto simp: writes_def mvfrsavings_def Let_def case_prod_beta split: option.splits if_split_asm dest!: write_frame)

lemma writes_setrex [write_frame]:
  "setrex e q s = Inr s' \<Longrightarrow> writes {Rexpool} s s'"
  by (auto simp: writes_def setrex_def Let_def case_prod_beta split: option.splits if_split_asm dest!: write_frame)

lemma writes_rexexec [write_frame]:
  "rexexec e n m s = Inr s' \<Longrightarrow> writes rex_fields s s'"
  by (auto simp: writes_def rexexec_def Let_def case_prod_beta split: option.splits if_split_asm dest!: write_frame)

lemma writes_closerex [write_frame]:
  "closerex e n s = Inr s' \<Longrightarrow> writes (rex_fields \<union> vote_fields) s s'"
  by (auto simp: writes_def closerex_def Let_def case_prod_beta split: option.splits if_split_asm dest!: write_frame)

section \<open>RAM, staking, voting\<close>

lemma writes_grow_market [write_frame]:
  "grow_market d s = Inr s' \<Longrightarrow> writes {Rammarket} s s'"
  by (auto simp: writes_def grow_market_def Let_def case_prod_beta split: option.splits if_split_asm dest!: write_frame)

lemma writes_setram [write_frame]:
  "setram e m s = Inr s' \<Longrightarrow> writes {Rammarket, Gstate} s s'"
  by (auto simp: writes_def setram_def Let_def case_prod_beta split: option.splits if_split_asm dest!: write_frame)

lemma writes_update_ram_supply [write_frame]:
  "update_ram_supply e s = Inr s' \<Longrightarrow> writes {Rammarket, Gstate, Gstate2} s s'"
  by (auto simp: writes_def update_ram_supply_def Let_def case_prod_beta split: option.splits if_split_asm dest!: write_frame)

lemma writes_setramrate [write_frame]:
  "setramrate e m s = Inr s' \<Longrightarrow> writes {Rammarket, Gstate, Gstate2} s s'"
  by (auto simp: writes_def setramrate_def Let_def case_prod_beta split: option.splits if_split_asm dest!: write_frame)

lemma writes_convert_market [write_frame]:
  "convert_market e q c err s = Inr (x, s') \<Longrightarrow> writes {Rammarket} s s'"
  by (auto simp: writes_def convert_market_def Let_def case_prod_beta split: option.splits if_split_asm dest!: write_frame)

lemma writes_set_ram_limit [write_frame]:
  "set_ram_limit n x s = Inr s' \<Longrightarrow> writes {Limits} s s'"
  by (auto simp: writes_def set_ram_limit_def Let_def case_prod_beta split: option.splits if_split_asm dest!: write_frame)

lemma writes_credit_ram [write_frame]:
  "credit_ram n x s = Inr s' \<Longrightarrow> writes {Userres, Limits} s s'"
  by (auto simp: writes_def credit_ram_def Let_def case_prod_beta split: option.splits if_split_asm dest!: write_frame)

lemma writes_buyram [write_frame]:
  "buyram e p n q s = Inr s' \<Longrightarrow> writes ram_fields s s'"
  by (auto simp: writes_def buyram_def Let_def case_prod_beta split: option.splits if_split_asm dest!: write_frame)

lemma writes_buyrambytes [write_frame]:
  "buyrambytes e p n b s = Inr s' \<Longrightarrow> writes ram_fields s s'"
  by (auto simp: writes_def buyrambytes_def Let_def case_prod_beta split: option.splits if_split_asm dest!: write_frame)

lemma writes_sellram [write_frame]:
  "sellram e n b s = Inr s' \<Longrightarrow> writes ram_fields s s'"
  by (auto simp: writes_def sellram_def Let_def case_prod_beta split: option.splits if_split_asm dest!: write_frame)

lemma writes_change_delegation [write_frame]:
  "change_delegation e f r a b s = Inr s' \<Longrightarrow> writes {Delband} s s'"
  by (auto simp: writes_def change_delegation_def)

lemma writes_change_totals [write_frame]:
  "change_totals e n a b s = Inr s' \<Longrightarrow> writes {Userres, Limits} s s'"
  by (auto simp: writes_def change_totals_def Let_def case_prod_beta split: option.splits if_split_asm dest!: write_frame)

lemma writes_change_refund [write_frame]:
  "change_refund e n a b s = Inr (x, y, z, s') \<Longrightarrow> writes {Refunds} s s'"
  by (auto simp: writes_def change_refund_def Let_def case_prod_beta split: option.splits if_split_asm dest!: write_frame)

lemma hide_schedule_refund [simp]: "{Deferred} \<subseteq> F \<Longrightarrow> hide F (schedule_refund b n s) = hide F s"
  by (simp add: schedule_refund_def Let_def split: option.splits)

lemma writes_transfer_stake [write_frame]:
  "transfer_stake e t src f r a b s = Inr s' \<Longrightarrow> writes {Refunds, Deferred, Outbox} s s'"
  by (auto simp: writes_def transfer_stake_def Let_def case_prod_beta split: option.splits if_split_asm dest!: write_frame)

lemma writes_changebw [write_frame]:
  "changebw e f r a b t s = Inr s' \<Longrightarrow> writes ({Delband, Userres, Limits, Refunds, Deferred, Outbox, Rexbalance} \<union> vote_fields) s s'"
  by (auto simp: writes_def changebw_def Let_def case_prod_beta split: option.splits if_split_asm dest!: write_frame)

lemma writes_delegatebw [write_frame]:
  "delegatebw e f r a b t s = Inr s' \<Longrightarrow> writes ({Delband, Userres, Limits, Refunds, Deferred, Outbox, Rexbalance} \<union> vote_fields) s s'"
  by (auto simp: writes_def delegatebw_def Let_def case_prod_beta split: option.splits if_split_asm dest!: write_frame)

lemma writes_undelegatebw [write_frame]:
  "undelegatebw e f r a b s = Inr s' \<Longrightarrow> writes ({Delband, Userres, Limits, Refunds, Deferred, Outbox, Rexbalance} \<union> vote_fields) s s'"
  by (auto simp: writes_def undelegatebw_def Let_def case_prod_beta split: option.splits if_split_asm dest!: write_frame)

lemma writes_refund [write_frame]:
  "refund e n s = Inr s' \<Longrightarrow> writes {Refunds, Outbox} s s'"
  by (auto simp: writes_def refund_def Let_def case_prod_beta split: option.splits if_split_asm dest!: write_frame)

lemma writes_regproducer [write_frame]:
  "regproducer e n k u l s = Inr s' \<Longrightarrow> writes {Producers, Producers2, Gstate2, Gstate3} s s'"
  by (auto simp: writes_def regproducer_def Let_def case_prod_beta split: option.splits if_split_asm dest!: write_frame)

lemma writes_unregprod [write_frame]:
  "unregprod e n s = Inr s' \<Longrightarrow> writes {Producers} s s'"
  by (auto simp: writes_def unregprod_def Let_def case_prod_beta split: option.splits if_split_asm dest!: write_frame)

lemma writes_voteproducer [write_frame]:
  "voteproducer e n p ps s = Inr s' \<Longrightarrow> writes ({Rexbalance} \<union> vote_fields) s s'"
  by (auto simp: writes_def voteproducer_def Let_def case_prod_beta split: option.splits if_split_asm dest!: write_frame)

section \<open>Producers, names, administration\<close>

lemma hide_update_elected_producers [simp]: "{Gstate, Proposed_schedule} \<subseteq> F \<Longrightarrow> hide F (update_elected_producers e t s) = hide F s"
  by (simp add: update_elected_producers_def Let_def split: option.splits)

lemma hide_count_block [simp]: "{Gstate, Producers} \<subseteq> F \<Longrightarrow> hide F (count_block n s) = hide F s"
  by (simp add: count_block_def Let_def split: option.splits)

lemma hide_close_auction [simp]: "{Gstate, Namebids, Rexpool} \<subseteq> F \<Longrightarrow> hide F (close_auction e t s) = hide F s"
  by (simp add: close_auction_def Let_def split: option.splits)

lemma writes_fill_buckets [write_frame]:
  "fill_buckets e cs n s = Inr s' \<Longrightarrow> writes {Gstate, Outbox} s s'"
  by (auto simp: writes_def fill_buckets_def send_inflation_def send_inline_def Let_def split: if_split_asm)

lemma writes_per_vote_share [write_frame]:
  "per_vote_share ct p x b s = Inr (y, s') \<Longrightarrow> writes {Gstate2, Gstate3} s s'"
  by (auto simp: writes_def per_vote_share_def Let_def case_prod_beta split: option.splits if_split_asm dest!: write_frame)

lemma writes_pay_producer [write_frame]:
  "pay_producer e bucket n x m cs s = Inr s' \<Longrightarrow> writes {Outbox} s s'"
  by (auto simp: writes_def pay_producer_def Let_def case_prod_beta split: option.splits if_split_asm dest!: write_frame)

lemma hide_book_claim [simp]: "{Gstate, Gstate2, Gstate3, Producers} \<subseteq> F \<Longrightarrow> hide F (book_claim ct n p b x y z s) = hide F s"
  by (simp add: book_claim_def Let_def split: option.splits)

lemma writes_onblock [write_frame]:
  "onblock e t n s = Inr s' \<Longrightarrow> writes {Gstate, Gstate2, Producers, Proposed_schedule, Namebids, Rexpool} s s'"
  by (auto simp: writes_def onblock_def Let_def case_prod_beta split: option.splits if_split_asm dest!: write_frame)

lemma writes_claimrewards [write_frame]:
  "claimrewards e n s = Inr s' \<Longrightarrow> writes {Gstate, Gstate2, Gstate3, Producers, Producers2, Outbox} s s'"
  by (auto simp: writes_def claimrewards_def Let_def case_prod_beta split: option.splits if_split_asm dest!: write_frame)

lemma writes_refund_outbid [write_frame]:
  "refund_outbid e cs n b s = Inr s' \<Longrightarrow> writes {Bidrefunds, Deferred} s s'"
  by (auto simp: writes_def refund_outbid_def Let_def case_prod_beta split: option.splits if_split_asm dest!: write_frame)

lemma writes_claim_name [write_frame]:
  "claim_name e c n s = Inr s' \<Longrightarrow> writes {Namebids} s s'"
  by (auto simp: writes_def claim_name_def Let_def case_prod_beta split: option.splits if_split_asm dest!: write_frame)

lemma writes_manage_resource [write_frame]:
  "manage_resource n f q m1 l m2 v s = Inr (x, s') \<Longrightarrow> writes {Voters} s s'"
  by (auto simp: writes_def manage_resource_def Let_def case_prod_beta split: option.splits if_split_asm dest!: write_frame)

lemma writes_bidname [write_frame]:
  "bidname e n m q s = Inr s' \<Longrightarrow> writes {Namebids, Bidrefunds, Deferred, Outbox} s s'"
  by (auto simp: writes_def bidname_def Let_def case_prod_beta split: option.splits if_split_asm dest!: write_frame)

lemma writes_bidrefund [write_frame]:
  "bidrefund e n m s = Inr s' \<Longrightarrow> writes {Bidrefunds, Outbox} s s'"
  by (auto simp: writes_def bidrefund_def Let_def case_prod_beta split: option.splits if_split_asm dest!: write_frame)

lemma writes_newaccount [write_frame]:
  "newaccount e c n s = Inr s' \<Longrightarrow> writes {Namebids, Userres, Limits} s s'"
  by (auto simp: writes_def newaccount_def Let_def case_prod_beta split: option.splits if_split_asm dest!: write_frame)

lemma writes_setabi [write_frame]:
  "setabi e n abi s = Inr s' \<Longrightarrow> writes {Abihashes} s s'"
  by (auto simp: writes_def setabi_def Let_def case_prod_beta split: option.splits if_split_asm dest!: write_frame)

lemma writes_setparams [write_frame]:
  "setparams e p s = Inr s' \<Longrightarrow> writes {Gstate, Chain_params} s s'"
  by (auto simp: writes_def setparams_def Let_def case_prod_beta split: option.splits if_split_asm dest!: write_frame)

lemma writes_setpriv [write_frame]:
  "setpriv e n b s = Inr s' \<Longrightarrow> writes {Privileged} s s'"
  by (auto simp: writes_def setpriv_def Let_def case_prod_beta split: option.splits if_split_asm dest!: write_frame)

lemma writes_setalimits [write_frame]:
  "setalimits e n a b c s = Inr s' \<Longrightarrow> writes {Limits} s s'"
  by (auto simp: writes_def setalimits_def Let_def case_prod_beta split: option.splits if_split_asm dest!: write_frame)

lemma writes_setacctram [write_frame]:
  "setacctram e n v s = Inr s' \<Longrightarrow> writes {Voters, Limits} s s'"
  by (auto simp: writes_def setacctram_def Let_def case_prod_beta split: option.splits if_split_asm dest!: write_frame)

lemma writes_setacctnet [write_frame]:
  "setacctnet e n v s = Inr s' \<Longrightarrow> writes {Voters, Limits} s s'"
  by (auto simp: writes_def setacctnet_def Let_def case_prod_beta split: option.splits if_split_asm dest!: write_frame)

lemma writes_setacctcpu [write_frame]:
  "setacctcpu e n v s = Inr s' \<Longrightarrow> writes {Voters, Limits} s s'"
  by (auto simp: writes_def setacctcpu_def Let_def case_prod_beta split: option.splits if_split_asm dest!: write_frame)

lemma writes_rmvproducer [write_frame]:
  "rmvproducer e n s = Inr s' \<Longrightarrow> writes {Producers} s s'"
  by (auto simp: writes_def rmvproducer_def Let_def case_prod_beta split: option.splits if_split_asm dest!: write_frame)

lemma writes_updtrevision [write_frame]:
  "updtrevision e r s = Inr s' \<Longrightarrow> writes {Gstate2} s s'"
  by (auto simp: writes_def updtrevision_def Let_def case_prod_beta split: option.splits if_split_asm dest!: write_frame)

lemma writes_init [write_frame]:
  "init e v core s = Inr s' \<Longrightarrow> writes {Rammarket, Outbox} s s'"
  by (auto simp: writes_def init_def Let_def case_prod_beta split: option.splits if_split_asm dest!: write_frame)

section \<open>The footprint of an action\<close>

primrec footprint :: "sys_action \<Rightarrow> sys_field set" where
  "footprint (A_newaccount a' b') = {Namebids, Userres, Limits}"
| "footprint (A_setabi a' b') = {Abihashes}"
| "footprint A_native = {}"
| "footprint (A_init a' b') = {Rammarket, Outbox}"
| "footprint (A_setram a') = {Rammarket, Gstate}"
| "footprint (A_setramrate a') = {Rammarket, Gstate, Gstate2}"
| "footprint (A_setparams a') = {Gstate, Chain_params}"
| "footprint (A_setpriv a' b') = {Privileged}"
| "footprint (A_setalimits a' b' c' d') = {Limits}"
| "footprint (A_setacctram a' b') = {Voters, Limits}"
| "footprint (A_setacctnet a' b') = {Voters, Limits}"
| "footprint (A_setacctcpu a' b') = {Voters, Limits}"
| "footprint (A_rmvproducer a') = {Producers}"
| "footprint (A_updtrevision a') = {Gstate2}"
| "footprint (A_bidname a' b' c') = {Namebids, Bidrefunds, Deferred, Outbox}"
| "footprint (A_bidrefund a' b') = {Bidrefunds, Outbox}"
| "footprint (A_deposit a' b') = {Rexfunds, Outbox}"
| "footprint (A_withdraw a' b') = {Rexorders, Rexfunds, Outbox} \<union> vote_fields"
| "footprint (A_buyrex a' b') = rex_fields \<union> vote_fields"
| "footprint (A_unstaketorex a' b' c' d') = {Delband} \<union> rex_fields \<union> vote_fields"
| "footprint (A_sellrex a' b') = rex_fields \<union> vote_fields"
| "footprint (A_cnclrexorder a') = {Rexorders}"
| "footprint (A_rentcpu a' b' c' d') = rex_fields"
| "footprint (A_rentnet a' b' c' d') = rex_fields"
| "footprint (A_fundcpuloan a' b' c') = {Rexfunds, Cpuloans}"
| "footprint (A_fundnetloan a' b' c') = {Rexfunds, Netloans}"
| "footprint (A_defcpuloan a' b' c') = {Rexfunds, Cpuloans}"
| "footprint (A_defnetloan a' b' c') = {Rexfunds, Netloans}"
| "footprint (A_updaterex a') = rex_fields \<union> vote_fields"
| "footprint (A_consolidate a') = rex_fields \<union> vote_fields"
| "footprint (A_mvtosavings a' b') = rex_fields \<union> vote_fields"
| "footprint (A_mvfrsavings a' b') = rex_fields \<union> vote_fields"
| "footprint (A_setrex a') = {Rexpool}"
| "footprint (A_rexexec a' b') = rex_fields"
| "footprint (A_closerex a') = rex_fields \<union> vote_fields"
| "footprint (A_buyrambytes a' b' c') = ram_fields"
| "footprint (A_buyram a' b' c') = ram_fields"
| "footprint (A_sellram a' b') = ram_fields"
| "footprint (A_delegatebw a' b' c' d' e') = {Delband, Userres, Limits, Refunds, Deferred, Outbox, Rexbalance} \<union> vote_fields"
| "footprint (A_undelegatebw a' b' c' d') = {Delband, Userres, Limits, Refunds, Deferred, Outbox, Rexbalance} \<union> vote_fields"
| "footprint (A_refund a') = {Refunds, Outbox}"
| "footprint (A_regproducer a' b' c' d') = {Producers, Producers2, Gstate2, Gstate3}"
| "footprint (A_unregprod a') = {Producers}"
| "footprint (A_voteproducer a' b' c') = {Rexbalance} \<union> vote_fields"
| "footprint (A_regproxy a' b') = vote_fields"
| "footprint (A_onblock a' b') = {Gstate, Gstate2, Producers, Proposed_schedule, Namebids, Rexpool}"
| "footprint (A_claimrewards a') = {Gstate, Gstate2, Gstate3, Producers, Producers2, Outbox}"

lemma writes_apply: "sys_apply e a s = Inr s' \<Longrightarrow> writes (footprint a) s s'"
  by (cases a) (auto simp: writes_def dest!: write_frame)

text \<open>What an action does not write, it leaves as it was.\<close>

lemma apply_unchanged: "sys_apply e a s = Inr s' \<Longrightarrow> f \<notin> footprint a \<Longrightarrow> unchanged f s s'"
  by (rule writes_unchanged [OF writes_apply])

lemma transact_unchanged:
  assumes "sys_transact e a s = Inr s'" "f \<notin> footprint a" "f \<noteq> Tokens" "f \<noteq> Outbox"
  shows "unchanged f s s'"
proof -
  from assms(1) obtain s1 t where s1: "sys_apply e a (s\<lparr>outbox := []\<rparr>) = Inr s1"
    and s': "s' = s1\<lparr>tokens := t, outbox := []\<rparr>"
    by (auto simp: sys_transact_eq_Inr)
  show ?thesis
    using apply_unchanged [OF s1 assms(2)] assms(3,4) by (cases f) (simp_all add: s')
qed

section \<open>The token contract under the system contract\<close>

lemma tokens_apply: "sys_apply e a s = Inr s' \<Longrightarrow> tokens s' = tokens s"
  using apply_unchanged [of e a s s' Tokens] by (cases a) simp_all

lemma token_inv_reachable: "sys_reachable s \<Longrightarrow> token_inv (tokens s) \<and> outbox s = []"
proof (induction rule: sys_reachable.induct)
  case (action s e a s')
  then obtain s1 t where s1: "sys_apply e a (s\<lparr>outbox := []\<rparr>) = Inr s1"
    and t: "run_inline e (outbox s1) (tokens s1) = Inr t" and s': "s' = s1\<lparr>tokens := t, outbox := []\<rparr>"
    by (auto simp: sys_transact_eq_Inr)
  have "token_inv (tokens s1)" using tokens_apply [OF s1] action.IH by simp
  then show ?case
    using token_inv_run_inline [OF _ _ t] action.hyps(2) s' by (simp add: sys_env_ok_def)
next
  case (token s e a s')
  then obtain t where t: "token_transact e a (tokens s) = Inr t" and s': "s' = s\<lparr>tokens := t\<rparr>"
    by (auto simp: user_token_transact_eq_Inr)
  show ?case
    using token_inv_transact [OF _ _ t] token.hyps(2) token.IH by (simp add: s' sys_env_ok_def)
qed (auto simp: genesis_def new_limits_def reachable_token_inv)

text \<open>
  C28. No action changes a table outside its footprint: of all the tables, singletons and chain
  settings of the system contract, a successful transaction leaves every one untouched that the
  footprint of its action does not name, apart from the token contract's own tables.
\<close>

theorem action_footprint:
  assumes "sys_transact e a s = Inr s'" "f \<notin> footprint a" "f \<noteq> Tokens" "f \<noteq> Outbox"
  shows "unchanged f s s'"
  using assms by (rule transact_unchanged)

theorem action_footprint_witness:
  "unchanged Rexpool demo_ready (demo_ready\<lparr>abihashes := [(alice, 0)]\<rparr>)"
proof (rule action_footprint)
  show "sys_transact (demo_sys_env [alice] 0) (A_setabi alice []) demo_ready =
    Inr (demo_ready\<lparr>abihashes := [(alice, 0)]\<rparr>)"
    by code_simp
qed simp_all

end
