(* ===== verification/Proxy_Chains.thy ===== *)
theory Proxy_Chains
  imports Footprint
begin

text \<open>
  Why following proxies ends. \<open>propagate_weight_change\<close> calls itself along the chain from a
  voter to its proxy, that proxy's proxy and so on. Only a registered proxy, which has no proxy
  itself, can be chosen, but a proxy may unregister and then choose one, so chains of any
  length arise. The graph of all chains never has a cycle, in any reachable state; so a chain is
  shorter than the table of voters, the bound the model gives the recursion.
\<close>

section \<open>The graph\<close>

type_synonym voter_table = "(name, voter_info) table"

definition link :: "voter_table \<Rightarrow> name \<Rightarrow> (name \<times> bool) option" where
  "link t n = map_option (\<lambda>v. (proxy v, is_proxy v)) (tfind n t)"

definition chain :: "voter_table \<Rightarrow> name rel" where
  "chain t = {(n, m). m \<noteq> 0 \<and> (\<exists>b. link t n = Some (m, b))}"

definition chains_ok :: "voter_table \<Rightarrow> bool" where
  "chains_ok t \<longleftrightarrow> acyclic (chain t) \<and> (\<forall>n m. link t n = Some (m, True) \<longrightarrow> m = 0)"

text \<open>How a table may change when nobody chooses another proxy: rows stay, new ones choose none.\<close>

definition same_chains :: "voter_table \<Rightarrow> voter_table \<Rightarrow> bool" where
  "same_chains t t' \<longleftrightarrow> (\<forall>n. link t' n = link t n \<or> link t n = None \<and> (\<exists>b. link t' n = Some (0, b)))"

lemma link_eq_None [simp]: "link t n = None \<longleftrightarrow> tfind n t = None"
  by (simp add: link_def)

lemma link_Some: "tfind n t = Some v \<Longrightarrow> link t n = Some (proxy v, is_proxy v)"
  by (simp add: link_def)

lemma link_update [simp]:
  "link (AList.update n v t) = (link t)(n := Some (proxy v, is_proxy v))"
  by (auto simp: link_def)

lemma same_chains_refl [simp]: "same_chains t t"
  by (simp add: same_chains_def)

lemma same_chains_trans [trans]: "same_chains t t1 \<Longrightarrow> same_chains t1 t2 \<Longrightarrow> same_chains t t2"
  unfolding same_chains_def by (metis option.distinct(1))

lemma same_chains_update:
  "tfind n t = Some v \<Longrightarrow> proxy v' = proxy v \<Longrightarrow> is_proxy v' = is_proxy v \<Longrightarrow>
     same_chains t (AList.update n v' t)"
  by (simp add: same_chains_def link_Some)

lemma same_chains_new: "tfind n t = None \<Longrightarrow> proxy v = 0 \<Longrightarrow> same_chains t (AList.update n v t)"
  by (simp add: same_chains_def)

lemma same_chains_chain:
  assumes "same_chains t t'"
  shows "chain t' = chain t"
proof -
  have "(\<exists>b. link t' n = Some (m, b)) \<longleftrightarrow> (\<exists>b. link t n = Some (m, b))" if "m \<noteq> 0" for n m
    using assms that unfolding same_chains_def by (metis option.distinct(1) option.inject prod.inject)
  then show ?thesis by (auto simp: chain_def)
qed

lemma chains_ok_same: "chains_ok t \<Longrightarrow> same_chains t t' \<Longrightarrow> chains_ok t'"
  unfolding chains_ok_def by (simp add: same_chains_chain) (metis option.inject prod.inject same_chains_def)

section \<open>The length of a chain\<close>

text \<open>The proxies that a change of the voter's weight can reach, and those of them that vote.\<close>

definition above :: "voter_table \<Rightarrow> name \<Rightarrow> name set" where
  "above t n = {m \<in> dom (map_of t). (n, m) \<in> (chain t)\<^sup>+}"

lemma finite_above: "finite (above t n)"
  by (rule finite_subset [OF _ finite_dom_map_of [of t]]) (auto simp: above_def)

lemma above_proxy:
  assumes "acyclic (chain t)" "tfind n t = Some v" "has_proxy v" "tfind (proxy v) t = Some p"
  shows "card (above t (proxy v)) < card (above t n)"
proof (rule psubset_card_mono [OF finite_above])
  have e: "(n, proxy v) \<in> chain t" using assms(2,3) by (auto simp: chain_def link_Some has_proxy_def)
  have "proxy v \<in> above t n" using e assms(4) by (auto simp: above_def)
  moreover have "proxy v \<notin> above t (proxy v)" using assms(1) by (simp add: above_def acyclic_def)
  moreover have "above t (proxy v) \<subseteq> above t n" using e by (auto simp: above_def intro: trancl_into_trancl2)
  ultimately show "above t (proxy v) \<subset> above t n" by blast
qed

lemma card_above_le: "card (above t n) \<le> length t"
proof -
  have "card (above t n) \<le> card (fst ` set t)"
    by (rule card_mono) (auto simp: above_def dom_map_of_conv_image_fst)
  also have "\<dots> \<le> length t" by (metis card_length length_map list.set_map)
  finally show ?thesis .
qed

lemma above_same: "same_chains t t' \<Longrightarrow> dom (map_of t') = dom (map_of t) \<Longrightarrow> above t' n = above t n"
  by (simp add: above_def same_chains_chain)

section \<open>Results other than running out of fuel\<close>

definition ends :: "'a res \<Rightarrow> bool" where
  "ends m \<longleftrightarrow> m \<noteq> Inl OutOfFuel"

lemma ends_simps [simp]:
  "ends (Inr x)" "ends (Inl err) \<longleftrightarrow> err \<noteq> OutOfFuel"
  "ends (check c msg k) \<longleftrightarrow> (c \<longrightarrow> ends k)"
  "ends (guard c err k) \<longleftrightarrow> (if c then ends k else err \<noteq> OutOfFuel)"
  "ends (require_auth e n k) \<longleftrightarrow> (has_auth e n \<longrightarrow> ends k)"
  "ends (of_option err y) \<longleftrightarrow> (y = None \<longrightarrow> err \<noteq> OutOfFuel)"
  "ends (ebind m f) \<longleftrightarrow> ends m \<and> (\<forall>z. m = Inr z \<longrightarrow> ends (f z))"
  "ends (if b then m else m') \<longleftrightarrow> (if b then ends m else ends m')"
  by (auto simp: ends_def check_def guard_def require_auth_def of_option_def ebind_def split: sum.splits option.splits)

lemma ends_tables [simp]: "ends (templace k v t)" "ends (tmodify k g t)"
  by (auto simp: templace_def tmodify_def split: option.splits)

lemma ends_efold: "(\<And>x s. x \<in> set xs \<Longrightarrow> ends (f x s)) \<Longrightarrow> ends (efold f xs s)"
  by (induction xs arbitrary: s) auto

section \<open>Propagation\<close>

text \<open>Nothing but the weights of voters changes, so the chains stay.\<close>

definition steady :: "sys \<Rightarrow> sys \<Rightarrow> bool" where
  "steady s s' \<longleftrightarrow> link (voters s') = link (voters s)"

lemma steady_refl [simp]: "steady s s"
  by (simp add: steady_def)

lemma steady_trans [trans]: "steady s s1 \<Longrightarrow> steady s1 s2 \<Longrightarrow> steady s s2"
  by (simp add: steady_def)

lemma steady_same: "steady s s' \<Longrightarrow> same_chains (voters s) (voters s')"
  by (simp add: steady_def same_chains_def)

lemma steady_above:
  assumes "steady s s'"
  shows "above (voters s') n = above (voters s) n"
proof (rule above_same [OF steady_same [OF assms]])
  have "tfind n (voters s') = None \<longleftrightarrow> tfind n (voters s) = None" for n
    using assms unfolding steady_def by (metis link_eq_None)
  then show "dom (map_of (voters s')) = dom (map_of (voters s))" unfolding dom_def by simp
qed

lemma steady_voters: "voters s' = voters s \<Longrightarrow> steady s s'"
  by (simp add: steady_def)

lemma steady_set_voter:
  assumes "set_voter n g s = Inr s'" "\<And>v. proxy (g v) = proxy v \<and> is_proxy (g v) = is_proxy v"
  shows "steady s s'"
  using assms by (auto simp: set_voter_def tmodify_eq_Inr steady_def link_Some fun_eq_iff)

lemma ends_set_voter [simp]: "ends (set_voter n g s)"
  by (simp add: set_voter_def)

lemma voters_track: "voters (snd (track_votepay ct n lc v d (acc, s))) = voters s"
  by (auto simp: track_votepay_def Let_def split: option.splits prod.splits)

lemma voters_total_share [simp]: "voters (snd (update_total_votepay_share ct a b s)) = voters s"
  by (simp add: update_total_votepay_share_def Let_def)

lemma voters_to_producer: "propagate_to_producer ct d n st = Inr st' \<Longrightarrow> voters (snd st') = voters (snd st)"
  by (auto simp: propagate_to_producer_def Let_def voters_track split: option.splits prod.splits)

lemma voters_to_producers:
  assumes "propagate_to_producers ct d ns s = Inr s'"
  shows "voters s' = voters s"
proof -
  from assms obtain st where st: "efold (propagate_to_producer ct d) ns (vpay_acc0, s) = Inr st"
    and s': "s' = snd (update_total_votepay_share ct (- total_inactive_vpay_share (fst st)) (delta_change_rate (fst st)) (snd st))"
    by (auto simp: propagate_to_producers_def)
  have "voters (snd st) = voters s"
    by (rule efold_invariant [OF st, where P = "\<lambda>st. voters (snd st) = voters s"]) (auto dest: voters_to_producer)
  then show ?thesis by (simp add: s')
qed

lemma ends_to_producers [simp]: "ends (propagate_to_producers ct d ns s)"
  by (auto simp: propagate_to_producers_def propagate_to_producer_def Let_def split: option.splits intro!: ends_efold)

lemma steady_weights:
  "set_voter n (\<lambda>p. p\<lparr>proxied_vote_weight := w p\<rparr>) s = Inr s' \<Longrightarrow> steady s s'"
  "set_voter n (\<lambda>p. p\<lparr>last_vote_weight := w p\<rparr>) s = Inr s' \<Longrightarrow> steady s s'"
  by (erule steady_set_voter, simp)+

lemma steady_propagate_weight_change:
  "propagate_weight_change fuel e n s = Inr s' \<Longrightarrow> steady s s'"
proof (induction fuel arbitrary: n s s')
  case (Suc fuel)
  then show ?case
    by (auto simp: Let_def steady_def split: option.splits if_split_asm
        dest!: steady_weights [unfolded steady_def] Suc.IH [unfolded steady_def] voters_to_producers)
qed simp

lemma ends_propagate_weight_change:
  "acyclic (chain (voters s)) \<Longrightarrow> card (above (voters s) n) < fuel \<Longrightarrow> ends (propagate_weight_change fuel e n s)"
proof (induction fuel arbitrary: n s)
  case (Suc fuel)
  have "ends (propagate_weight_change fuel e (proxy v) s1)"
    if v: "tfind n (voters s) = Some v" "has_proxy v" "tfind (proxy v) (voters s) = Some p"
      and s1: "set_voter (proxy v) (\<lambda>p. p\<lparr>proxied_vote_weight := w p\<rparr>) s = Inr s1" for v p w s1
  proof (rule Suc.IH)
    have st: "steady s s1" by (rule steady_set_voter [OF s1]) simp
    show "acyclic (chain (voters s1))" using Suc.prems(1) same_chains_chain [OF steady_same [OF st]] by simp
    show "card (above (voters s1) (proxy v)) < fuel"
      using above_proxy [OF Suc.prems(1) v] Suc.prems(2) by (simp add: steady_above [OF st])
  qed
  then show ?case by (auto simp: Let_def split: option.splits)
qed simp

lemma ends_propagate: "acyclic (chain (voters s)) \<Longrightarrow> ends (propagate e n s)"
  unfolding propagate_def proxy_fuel_def
  using card_above_le by (intro ends_propagate_weight_change) (simp_all add: less_Suc_eq_le)

lemma steady_propagate: "propagate e n s = Inr s' \<Longrightarrow> steady s s'"
  by (simp add: propagate_def steady_propagate_weight_change)

section \<open>Votes\<close>

lemma steady_withdraw:
  "withdraw_vote e v s = Inr (d, s') \<Longrightarrow> steady s s'"
  by (auto simp: withdraw_vote_def steady_def split: if_split_asm option.splits
      dest!: steady_weights [unfolded steady_def] steady_propagate [unfolded steady_def])

lemma steady_cast: "cast_vote e w prx prods voting (d, s) = Inr (d', s') \<Longrightarrow> steady s s'"
  by (auto simp: cast_vote_def steady_def split: if_split_asm option.splits
      dest!: steady_weights [unfolded steady_def] steady_propagate [unfolded steady_def])

lemma cast_vote_proxy:
  "cast_vote e w prx prods voting (d, s) = Inr st \<Longrightarrow> prx \<noteq> 0 \<Longrightarrow>
     \<exists>b. link (voters s) prx = Some (proxy (the (tfind prx (voters s))), b) \<and> (voting \<longrightarrow> b)"
  by (auto simp: cast_vote_def link_Some split: option.splits)

lemma steady_acyclic: "steady s s' \<Longrightarrow> acyclic (chain (voters s')) = acyclic (chain (voters s))"
  by (simp add: same_chains_chain [OF steady_same])

lemma ends_withdraw_vote: "acyclic (chain (voters s)) \<Longrightarrow> ends (withdraw_vote e v s)"
  by (auto simp: withdraw_vote_def steady_acyclic [OF steady_weights(1)] intro: ends_propagate split: option.splits)

lemma ends_cast: "acyclic (chain (voters s)) \<Longrightarrow> ends (cast_vote e w prx prods voting (d, s))"
  by (auto simp: cast_vote_def steady_acyclic [OF steady_weights(1)] intro: ends_propagate split: option.splits)

lemma voters_apply_delta: "apply_delta ct voting pd st = Inr st' \<Longrightarrow> voters (snd st') = voters (snd st)"
  by (auto simp: apply_delta_def Let_def voters_track split: option.splits prod.splits)

lemma voters_apply_deltas:
  "efold (apply_delta ct voting) pds st = Inr st' \<Longrightarrow> voters (snd st') = voters (snd st)"
  by (erule efold_invariant [where P = "\<lambda>u. voters (snd u) = voters (snd st)"]) (auto dest: voters_apply_delta)

lemma ends_apply_deltas [simp]: "ends (efold (apply_delta ct voting) pds st)"
  by (rule ends_efold) (auto simp: apply_delta_def Let_def split: option.splits prod.splits)

lemma voters_activate [simp]: "voters (activate_stake e v s) = voters s"
  by (simp add: activate_stake_def Let_def)

lemma ends_valid_vote [simp]: "ends (valid_vote n prx prods k) \<longleftrightarrow>
    ((if prx \<noteq> 0 then prods = [] \<and> n \<noteq> prx else length prods \<le> 30 \<and> strictly_sorted prods) \<longrightarrow> ends k)"
  by (auto simp: valid_vote_def)

lemma ends_update_votes:
  assumes "acyclic (chain (voters s))"
  shows "ends (update_votes e n prx prods voting s)"
proof -
  have a: "acyclic (chain (voters (activate_stake e v s)))" for v using assms by simp
  have "ends (cast_vote e w prx prods voting st)" if "withdraw_vote e v (activate_stake e v s) = Inr st" for v w st
    using that a [of v] steady_acyclic [OF steady_withdraw, of e v "activate_stake e v s" "fst st" "snd st"]
      ends_cast [of "snd st" e w prx prods voting "fst st"] by simp
  then show ?thesis
    using ends_withdraw_vote [OF a] by (auto simp: update_votes_def Let_def split: option.splits)
qed

lemma update_votes_links:
  assumes "update_votes e n prx prods voting s = Inr s'"
  obtains v where "tfind n (voters s) = Some v"
    "link (voters s') = (link (voters s))(n := Some (prx, is_proxy v))"
    "prx \<noteq> 0 \<longrightarrow> n \<noteq> prx \<and> \<not> is_proxy v \<and>
       (\<exists>p. tfind prx (voters s) = Some p \<and> (voting \<longrightarrow> is_proxy p))"
proof -
  obtain v w d1 s1 d2 s2 acc s3 where v: "tfind n (voters s) = Some v" "prx = 0 \<or> \<not> is_proxy v" "prx = 0 \<or> n \<noteq> prx"
    and 1: "withdraw_vote e v (activate_stake e v s) = Inr (d1, s1)"
    and 2: "cast_vote e w prx prods voting (d1, s1) = Inr (d2, s2)"
    and 3: "efold (apply_delta (current_time e) voting) (sort_key fst d2) (vpay_acc0, s2) = Inr (acc, s3)"
    and s': "set_voter n (\<lambda>v. v\<lparr>last_vote_weight := w, voted_producers := prods, proxy := prx\<rparr>)
        (snd (update_total_votepay_share (current_time e)
                (- total_inactive_vpay_share acc) (delta_change_rate acc) s3)) = Inr s'"
    using assms by (fastforce simp: update_votes_def valid_vote_eq_Inr Let_def split: option.splits if_split_asm)
  have "link (voters s1) = link (voters s)" using steady_withdraw [OF 1] by (simp add: steady_def)
  moreover have "link (voters s3) = link (voters s1)"
    using voters_apply_deltas [OF 3] steady_cast [OF 2] by (simp add: steady_def)
  ultimately have l: "link (voters s3) = link (voters s)" "link (voters s1) = link (voters s)" by simp_all
  have "link (voters s') = (link (voters s))(n := Some (prx, is_proxy v))"
  proof -
    obtain u where u: "tfind n (voters s3) = Some u" and s'': "link (voters s') = (link (voters s3))(n := Some (prx, is_proxy u))"
      using s' by (auto simp: set_voter_def tmodify_eq_Inr)
    have "is_proxy u = is_proxy v"
      using fun_cong [OF l(1), of n] unfolding link_Some [OF u] link_Some [OF v(1)] by simp
    then show ?thesis using s'' by (simp add: l(1))
  qed
  moreover have "\<exists>p. tfind prx (voters s) = Some p \<and> (voting \<longrightarrow> is_proxy p)" if "prx \<noteq> 0"
    using cast_vote_proxy [OF 2 that] unfolding l(2) by (auto simp: link_def)
  ultimately show thesis using that v by blast
qed

lemma chain_fun_upd:
  "link t' = (link t)(n := Some (m, b)) \<Longrightarrow> chain t' \<subseteq> (if m = 0 then chain t else insert (n, m) (chain t))"
  by (auto simp: chain_def split: if_split_asm)

lemma chains_ok_vote:
  assumes ok: "chains_ok (voters s)" and u: "update_votes e n prx prods True s = Inr s'"
  shows "chains_ok (voters s')"
proof -
  obtain v where row: "tfind n (voters s) = Some v"
    and v: "link (voters s') = (link (voters s))(n := Some (prx, is_proxy v))"
    and prx: "prx \<noteq> 0 \<longrightarrow> n \<noteq> prx \<and> \<not> is_proxy v \<and>
      (\<exists>p. tfind prx (voters s) = Some p \<and> (True \<longrightarrow> is_proxy p))"
    by (rule update_votes_links [OF u])
  have ac: "acyclic (chain (voters s))" using ok by (simp add: chains_ok_def)
  have "acyclic (if prx = 0 then chain (voters s) else insert (n, prx) (chain (voters s)))"
  proof (cases "prx = 0")
    case False
    then obtain p where p: "n \<noteq> prx" "tfind prx (voters s) = Some p" "is_proxy p" using prx by blast
    then have "link (voters s) prx = Some (proxy p, True)" by (simp add: link_Some)
    then have "proxy p = 0" using ok unfolding chains_ok_def by blast
    then have "(prx, m) \<notin> chain (voters s)" for m using p by (simp add: chain_def link_Some)
    then have "(prx, n) \<notin> (chain (voters s))\<^sup>*" using p(1) by (metis converse_rtranclE)
    then show ?thesis using ac False by (simp add: acyclic_insert)
  qed (simp add: ac)
  then have "acyclic (chain (voters s'))" using chain_fun_upd [OF v] by (rule acyclic_subset)
  then show ?thesis using ok prx by (auto simp: chains_ok_def v)
qed

text \<open>Votes that are cast again for the same proxy.\<close>

lemma same_chains_revote:
  assumes "tfind n (voters s) = Some v" "update_votes e n (proxy v) prods voting s = Inr s'"
  shows "same_chains (voters s) (voters s')"
  by (rule update_votes_links [OF assms(2)]) (use assms(1) in \<open>simp add: same_chains_def link_Some\<close>)

lemma same_chains_voting_power:
  assumes "update_voting_power e n q s = Inr s'"
  shows "same_chains (voters s) (voters s')"
proof -
  define v where "v = (case tfind n (voters s) of
      None \<Rightarrow> new_voter\<lparr>staked := amount q\<rparr> | Some v \<Rightarrow> v\<lparr>staked := i64 (staked v + amount q)\<rparr>)"
  define s1 where "s1 = s\<lparr>voters := AList.update n v (voters s)\<rparr>"
  have s': "s' = s1 \<or> update_votes e n (proxy v) (voted_producers v) False s1 = Inr s'"
    using assms unfolding update_voting_power_def Let_def v_def [symmetric] s1_def [symmetric]
    by (auto split: if_split_asm)
  have "same_chains (voters s) (voters s1)"
    by (auto simp: s1_def v_def new_voter_def split: option.splits intro: same_chains_update same_chains_new)
  also have "same_chains (voters s1) (voters s')"
    using s' same_chains_revote [of s1 n v e] by (auto simp: s1_def)
  finally show ?thesis .
qed

end
