(* ===== verification/Demo_Chain.thy ===== *)
theory Demo_Chain
  imports System_Contract
begin

text \<open>
  A concrete history of the example chain, for the witnesses of the theorems about reachable
  states: alice stakes, appoints bob as her proxy, deposits tokens, buys REX and rents CPU for
  bob.
\<close>

definition demo_chain :: "(name list \<times> int \<times> sys_action) list \<Rightarrow> sys \<Rightarrow> sys res" where
  "demo_chain = efold (\<lambda>(signers, t, a). sys_transact (demo_sys_env signers t) a)"

lemma demo_chain_reachable:
  "demo_chain xs s = Inr s' \<Longrightarrow> sys_reachable s \<Longrightarrow>
     list_all (\<lambda>(signers, t, a). rex_account \<notin> set signers \<and> action_ok a) xs \<Longrightarrow> sys_reachable s'"
proof (induction xs arbitrary: s)
  case (Cons x xs)
  obtain signers t a where x: "x = (signers, t, a)" by (cases x)
  obtain s1 where s1: "sys_transact (demo_sys_env signers t) a s = Inr s1" and r: "demo_chain xs s1 = Inr s'"
    using Cons.prems(1) by (auto simp: demo_chain_def x)
  have "rex_account \<notin> set signers" "action_ok a" using Cons.prems(3) by (simp_all add: x)
  then have "sys_reachable s1"
    using sys_reachable.action [OF Cons.prems(2) sys_env_ok_demo not_signed_by_rex_demo _ s1] by simp
  then show ?case using Cons.IH [OF r] Cons.prems(3) by simp
qed (simp add: demo_chain_def)

definition demo_time :: int where "demo_time = 1577836800000000"

definition rex_story :: "(name list \<times> int \<times> sys_action) list" where
  "rex_story =
     [([alice], demo_time, A_delegatebw alice alice (eos 1000000) (eos 1000000) False),
      ([bob], demo_time, A_regproxy bob True),
      ([alice], demo_time, A_voteproducer alice bob []),
      ([alice], demo_time, A_deposit alice (eos 600000000000)),
      ([alice], demo_time, A_buyrex alice (eos 500000000000)),
      ([alice], demo_time, A_rentcpu alice bob (eos 100000) (eos 50000))]"

definition demo_rex :: sys where
  "demo_rex = \<lparr>tokens = \<lparr>stats = [(5459781, \<lparr>st_supply = eos 10000000000000,
        st_max_supply = eos 100000000000000, st_issuer = eosio_account\<rparr>)],
     accounts = [((stake_account, 5459781), eos 2000000), ((rex_account, 5459781), eos
        600000000000), ((alice, 5459781), eos 9399998000000), ((eosio_account, 5459781), eos
        0)]\<rparr>,
     gstate = \<lparr>params = \<lparr>max_authority_depth = 6, other_parameters = 0\<rparr>,
        max_ram_size = 68719476736, total_ram_bytes_reserved = 0, total_ram_stake = 0,
        last_producer_schedule_update = 0, last_pervote_bucket_fill = 0, pervote_bucket = 0,
        perblock_bucket = 0, total_unpaid_blocks = 0, total_activated_stake = 2000000,
        thresh_activated_stake_time = 0, last_producer_schedule_size = 0,
        total_producer_vote_weight = Fin 0, last_name_close = 0\<rparr>,
     gstate2 = \<lparr>new_ram_per_block = 0, last_ram_increase = 0, last_block_num = 0,
        total_producer_votepay_share = Fin 0, revision = 0\<rparr>,
     gstate3 = \<lparr>last_vpay_state_update = 1577836800000000, total_vpay_share_change_rate =
        Fin 0\<rparr>,
     voters = [(bob, \<lparr>proxy = 0, voted_producers = [], staked = 0, last_vote_weight = Fin
        (2695395396923077 / 256), proxied_vote_weight = Fin (2695395396923077 / 256), is_proxy =
        True, flags1 = 0\<rparr>), (alice, \<lparr>proxy = bob, voted_producers = [], staked =
        500002000000, last_vote_weight = Fin (2695395396923077 / 256), proxied_vote_weight = Fin
        0, is_proxy = False, flags1 = 0\<rparr>)],
     producers = [], producers2 = [],
     rammarket = [(ramcore_symbol, \<lparr>ex_supply = mk_asset 100000000000000 ramcore_symbol,
        ex_base = \<lparr>c_balance = mk_asset 68719476736 ram_symbol, c_weight = Fin (1 /
        2)\<rparr>, ex_quote = \<lparr>c_balance = eos 10000000000, c_weight = Fin (1 /
        2)\<rparr>\<rparr>)],
     rexpool = Some \<lparr>total_lent = eos 249875062, total_unlent = eos 499750224938,
        total_rent = eos 200100000, total_lendable = eos 500000100000, total_rex = mk_asset
        5000000000000000 rex_symbol, namebid_proceeds = eos 0, loan_num = 1\<rparr>,
     rexfunds = [(alice, eos 99999850000)],
     rexbalance = [(alice, \<lparr>vote_stake = eos 500000000000, rex_held = mk_asset
        5000000000000000 rex_symbol, matured_rex = 0, rex_maturities = [(1578268800,
        5000000000000000)]\<rparr>)],
     rexorders = [],
     cpuloans = [(1, \<lparr>loan_from = alice, loan_receiver = bob, loan_payment = eos 100000,
        loan_balance = eos 50000, loan_staked = eos 249875062, loan_expiration =
        1580428800000000\<rparr>)],
     netloans = [],
     userres = [(alice, \<lparr>net_weight = eos 1000000, cpu_weight = eos 1000000, ram_bytes =
        0\<rparr>), (bob, \<lparr>net_weight = eos 0, cpu_weight = eos 249875062, ram_bytes =
        0\<rparr>)],
     delband = [((alice, alice), \<lparr>del_net = eos 1000000, del_cpu = eos 1000000\<rparr>)],
     refunds = [], namebids = [], bidrefunds = [], abihashes = [],
     limits = [(eosio_account, - 1, - 1, - 1), (alice, 1400, 1000000, 1000000), (bob, 0, 0,
        249875062)],
     privileged = [], chain_params = \<lparr>max_authority_depth = 6, other_parameters =
        0\<rparr>, proposed_schedule = [], deferred = [], outbox = []\<rparr>"

lemma demo_rex_run: "demo_chain rex_story demo_ready = Inr demo_rex"
  by code_simp

lemma demo_rex_reachable: "sys_reachable demo_rex"
  by (rule demo_chain_reachable [OF demo_rex_run demo_ready_reachable])
    (simp add: rex_story_def account_defs example_defs action_ok_def asset_typed_def eos_def)

text \<open>
  Five days later the REX has matured, and alice sells all of it. The pool has lent out some of
  its tokens and cannot pay, so the order is queued.
\<close>

definition demo_sold :: sys where
  "demo_sold = demo_rex\<lparr>
     rexbalance := [(alice, \<lparr>vote_stake = eos 500000000000, rex_held = mk_asset 5000000000000000 rex_symbol,
        matured_rex = 5000000000000000, rex_maturities = []\<rparr>)],
     rexorders := [(alice, \<lparr>rex_requested = mk_asset 5000000000000000 rex_symbol, order_proceeds = eos 0,
        order_stake_change = eos 0, order_time = 1578268801000000, is_open = True\<rparr>)]\<rparr>"

lemma demo_sold_run:
  "sys_transact (demo_sys_env [alice] 1578268801000000) (A_sellrex alice (mk_asset 5000000000000000 rex_symbol)) demo_rex =
     Inr demo_sold"
  by code_simp

lemma demo_sold_reachable: "sys_reachable demo_sold"
  by (rule sys_reachable.action [OF demo_rex_reachable sys_env_ok_demo _ _ demo_sold_run])
    (simp_all add: not_signed_by_rex_demo action_ok_def asset_typed_def account_defs example_defs)

end
