(* ===== verification/Total_Voting.thy ===== *)
theory Total_Voting
  imports Proxy_Chains Demo_Chain
begin

text \<open>
  The bound on the length of a proxy chain is never reached. Every operation keeps the chains
  acyclic (\<open>chain_frame\<close>), and every operation that starts with acyclic chains ends with a
  result or with one of the contract's own errors; so the model's fuel never shows, and each
  action of the contract ends in every reachable state.
\<close>

section \<open>Every operation keeps the chains\<close>

named_theorems chain_frame

lemma writes_voters: "writes F s s' \<Longrightarrow> Voters \<notin> F \<Longrightarrow> voters s' = voters s"
  using writes_unchanged [of F s s' Voters] by simp

lemmas quiet_writes =
  writes_set_limits writes_transfer_from_fund writes_transfer_to_fund writes_limits_follow
  writes_update_resource_limits writes_limits_for_loan writes_fill_order_of writes_channel_proceeds
  writes_process_orders writes_process_loans writes_runrex writes_rent_rex writes_add_to_rex_pool writes_add_to_rex_balance
  writes_unstake_for_rex writes_queue_order writes_change_delegation writes_change_totals writes_change_refund
  writes_transfer_stake writes_grow_market writes_update_ram_supply writes_convert_market writes_set_ram_limit
  writes_credit_ram writes_fill_buckets writes_per_vote_share writes_pay_producer writes_refund_outbid writes_claim_name

lemmas voters_quiet = quiet_writes [THEN writes_voters, simplified]

lemma voters_send_inline [simp]: "voters (send_inline a s) = voters s"
  by (simp add: send_inline_def)

lemma voters_channel [simp]: "voters (channel_to_rex e n q s) = voters s"
  by (simp add: channel_to_rex_def split: option.split)

lemma voters_put_balance [simp]: "voters (put_rex_balance n rb s) = voters s"
  by (simp add: put_rex_balance_def)

lemma voters_total_share_case [simp]:
  "voters (case update_total_votepay_share ct a b s of (x, s') \<Rightarrow> s') = voters s"
  by (metis voters_total_share snd_def)

lemma chains_voting_power [chain_frame]:
  "update_voting_power e n q s = Inr s' \<Longrightarrow> chains_ok (voters s) \<longrightarrow> chains_ok (voters s')"
  using same_chains_voting_power chains_ok_same by blast

lemma ebind_parts:
  "ebind m f = Inr y \<Longrightarrow> (\<And>z. m = Inr z \<Longrightarrow> Q z) \<Longrightarrow> (\<And>z. Q z \<Longrightarrow> f z = Inr y \<Longrightarrow> R) \<Longrightarrow> R"
  by auto

lemma chains_update_rex_stake [chain_frame]:
  assumes "update_rex_stake n s = Inr s'"
  shows "chains_ok (voters s) \<longrightarrow> chains_ok (voters s')"
proof -
  have "same_chains (voters s) (voters s')"
    using assms unfolding update_rex_stake_def
  proof (rule ebind_parts [where Q = "\<lambda>(d, s1). voters s1 = voters s"])
    show "case z of (d, s1) \<Rightarrow> voters s1 = voters s"
      if "(case tfind n (rexbalance s) of
              None \<Rightarrow> Inr (0, s)
            | Some rb \<Rightarrow>
                if rex_available s
                then ebind (core_symbol s) (\<lambda>cs.
                     ebind (the_pool s) (\<lambda>p.
                     ebind (muldiv128 (amount (rex_held rb)) (amount (total_lendable p)) (amount (total_rex p))) (\<lambda>stake.
                     Inr (i64 (stake - amount (vote_stake rb)),
                          s\<lparr>rexbalance := AList.update n (rb\<lparr>vote_stake := set_amount stake (vote_stake rb)\<rparr>)
                                            (rexbalance s)\<rparr>))))
                else Inr (0, s)) = Inr z" for z
      using that by (auto split: option.splits if_split_asm)
  qed (auto split: option.splits if_split_asm intro!: same_chains_update)
  then show ?thesis using chains_ok_same by blast
qed

lemma chains_set_managed [simp]: "chains_ok (voters s) \<Longrightarrow> chains_ok (voters (set_managed n f b s))"
proof -
  have "same_chains (voters s) (voters (set_managed n f b s))"
    by (auto simp: set_managed_def Let_def new_voter_def split: option.splits intro: same_chains_update same_chains_new)
  then show "chains_ok (voters s) \<Longrightarrow> chains_ok (voters (set_managed n f b s))" using chains_ok_same by blast
qed

lemma chains_regproxy [chain_frame]:
  assumes "regproxy e n b s = Inr s'"
  shows "chains_ok (voters s) \<longrightarrow> chains_ok (voters s')"
proof
  assume ok: "chains_ok (voters s)"
  have upd: "chains_ok (voters s')"
    if "link (voters s') = (link (voters s))(n := Some (m, b))" "m \<noteq> 0 \<longrightarrow> \<not> b \<and> (n, m) \<in> chain (voters s)" for m
  proof -
    have "chain (voters s') \<subseteq> chain (voters s)" using chain_fun_upd [OF that(1)] that(2) by (auto split: if_split_asm)
    then have "acyclic (chain (voters s'))" using ok acyclic_subset by (auto simp: chains_ok_def)
    then show ?thesis using ok that by (auto simp: chains_ok_def)
  qed
  show "chains_ok (voters s')"
  proof (cases "tfind n (voters s)")
    case None
    then show ?thesis using assms by (intro upd [of 0]) (auto simp: regproxy_def new_voter_def link_def)
  next
    case (Some v)
    then obtain s1 where s1: "set_voter n (\<lambda>v. v\<lparr>is_proxy := b\<rparr>) s = Inr s1" "propagate e n s1 = Inr s'"
      and v: "b \<longrightarrow> \<not> has_proxy v"
      using assms by (auto simp: regproxy_def)
    have "link (voters s') = (link (voters s))(n := Some (proxy v, b))"
      using s1(1) Some steady_propagate [OF s1(2)] by (auto simp: set_voter_def tmodify_eq_Inr steady_def)
    then show ?thesis
      by (rule upd) (use v Some in \<open>auto simp: has_proxy_def chain_def link_Some\<close>)
  qed
qed

lemma chains_vote [chain_frame]:
  "update_votes e n prx prods True s = Inr s' \<Longrightarrow> chains_ok (voters s) \<longrightarrow> chains_ok (voters s')"
  using chains_ok_vote by blast

lemma chains_update_rex_account [chain_frame]:
  "update_rex_account e n p d b s = Inr (x, s') \<Longrightarrow> chains_ok (voters s) \<longrightarrow> chains_ok (voters s')"
  by (auto simp: update_rex_account_def  Let_def case_prod_beta split: option.splits if_split_asm dest!: chain_frame voters_quiet)

lemma chains_settle_account [chain_frame]:
  "settle_account e n b s = Inr (x, s') \<Longrightarrow> chains_ok (voters s) \<longrightarrow> chains_ok (voters s')"
  by (auto simp: settle_account_def  Let_def case_prod_beta split: option.splits if_split_asm dest!: chain_frame voters_quiet)

lemma chains_withdraw [chain_frame]:
  "withdraw e n q s = Inr s' \<Longrightarrow> chains_ok (voters s) \<longrightarrow> chains_ok (voters s')"
  by (auto simp: withdraw_def  Let_def case_prod_beta split: option.splits if_split_asm dest!: chain_frame voters_quiet)

lemma chains_buyrex [chain_frame]:
  "buyrex e n q s = Inr s' \<Longrightarrow> chains_ok (voters s) \<longrightarrow> chains_ok (voters s')"
  by (auto simp: buyrex_def  Let_def case_prod_beta split: option.splits if_split_asm dest!: chain_frame voters_quiet)

lemma chains_unstaketorex [chain_frame]:
  "unstaketorex e n r a b s = Inr s' \<Longrightarrow> chains_ok (voters s) \<longrightarrow> chains_ok (voters s')"
  by (auto simp: unstaketorex_def  Let_def case_prod_beta split: option.splits if_split_asm dest!: chain_frame voters_quiet)

lemma chains_sellrex [chain_frame]:
  "sellrex e n q s = Inr s' \<Longrightarrow> chains_ok (voters s) \<longrightarrow> chains_ok (voters s')"
  by (auto simp: sellrex_def finish_sell_def Let_def case_prod_beta split: option.splits if_split_asm dest!: chain_frame voters_quiet)

lemma chains_updaterex [chain_frame]:
  "updaterex e n s = Inr s' \<Longrightarrow> chains_ok (voters s) \<longrightarrow> chains_ok (voters s')"
  by (auto simp: updaterex_def  Let_def case_prod_beta split: option.splits if_split_asm dest!: chain_frame voters_quiet)

lemma chains_consolidate [chain_frame]:
  "consolidate e n s = Inr s' \<Longrightarrow> chains_ok (voters s) \<longrightarrow> chains_ok (voters s')"
  by (auto simp: consolidate_def  Let_def case_prod_beta split: option.splits if_split_asm dest!: chain_frame voters_quiet)

lemma chains_mvtosavings [chain_frame]:
  "mvtosavings e n q s = Inr s' \<Longrightarrow> chains_ok (voters s) \<longrightarrow> chains_ok (voters s')"
  by (auto simp: mvtosavings_def  Let_def case_prod_beta split: option.splits if_split_asm dest!: chain_frame voters_quiet)

lemma chains_mvfrsavings [chain_frame]:
  "mvfrsavings e n q s = Inr s' \<Longrightarrow> chains_ok (voters s) \<longrightarrow> chains_ok (voters s')"
  by (auto simp: mvfrsavings_def  Let_def case_prod_beta split: option.splits if_split_asm dest!: chain_frame voters_quiet)

lemma chains_closerex [chain_frame]:
  "closerex e n s = Inr s' \<Longrightarrow> chains_ok (voters s) \<longrightarrow> chains_ok (voters s')"
  by (auto simp: closerex_def  Let_def case_prod_beta split: option.splits if_split_asm dest!: chain_frame voters_quiet)

lemma chains_changebw [chain_frame]:
  "changebw e f r a b t s = Inr s' \<Longrightarrow> chains_ok (voters s) \<longrightarrow> chains_ok (voters s')"
  by (auto simp: changebw_def  Let_def case_prod_beta split: option.splits if_split_asm dest!: chain_frame voters_quiet)

lemma chains_delegatebw [chain_frame]:
  "delegatebw e f r a b t s = Inr s' \<Longrightarrow> chains_ok (voters s) \<longrightarrow> chains_ok (voters s')"
  by (auto simp: delegatebw_def  Let_def case_prod_beta split: option.splits if_split_asm dest!: chain_frame voters_quiet)

lemma chains_undelegatebw [chain_frame]:
  "undelegatebw e f r a b s = Inr s' \<Longrightarrow> chains_ok (voters s) \<longrightarrow> chains_ok (voters s')"
  by (auto simp: undelegatebw_def  Let_def case_prod_beta split: option.splits if_split_asm dest!: chain_frame voters_quiet)

lemma chains_voteproducer [chain_frame]:
  "voteproducer e n p ps s = Inr s' \<Longrightarrow> chains_ok (voters s) \<longrightarrow> chains_ok (voters s')"
  by (auto simp: voteproducer_def  Let_def case_prod_beta split: option.splits if_split_asm dest!: chain_frame voters_quiet)

lemma chains_manage_resource [chain_frame]:
  "manage_resource n f q m1 l m2 v s = Inr (x, s') \<Longrightarrow> chains_ok (voters s) \<longrightarrow> chains_ok (voters s')"
  by (auto simp: manage_resource_def  Let_def case_prod_beta split: option.splits if_split_asm dest!: chain_frame voters_quiet)

lemma chains_setacctram [chain_frame]:
  "setacctram e n v s = Inr s' \<Longrightarrow> chains_ok (voters s) \<longrightarrow> chains_ok (voters s')"
  by (auto simp: setacctram_def  Let_def case_prod_beta split: option.splits if_split_asm dest!: chain_frame voters_quiet)

lemma chains_setacctnet [chain_frame]:
  "setacctnet e n v s = Inr s' \<Longrightarrow> chains_ok (voters s) \<longrightarrow> chains_ok (voters s')"
  by (auto simp: setacctnet_def  Let_def case_prod_beta split: option.splits if_split_asm dest!: chain_frame voters_quiet)

lemma chains_setacctcpu [chain_frame]:
  "setacctcpu e n v s = Inr s' \<Longrightarrow> chains_ok (voters s) \<longrightarrow> chains_ok (voters s')"
  by (auto simp: setacctcpu_def  Let_def case_prod_beta split: option.splits if_split_asm dest!: chain_frame voters_quiet)

lemma chains_apply:
  assumes "sys_apply e a s = Inr s'" "chains_ok (voters s)"
  shows "chains_ok (voters s')"
proof (cases "Voters \<in> footprint a")
  case False
  then show ?thesis using writes_voters [OF writes_apply [OF assms(1)]] assms(2) by simp
next
  case True
  then show ?thesis using assms by (cases a) (auto dest!: chain_frame)
qed

lemma chains_reachable: "sys_reachable s \<Longrightarrow> chains_ok (voters s)"
proof (induction rule: sys_reachable.induct)
  case (action s e a s')
  then show ?case by (auto simp: sys_transact_eq_Inr dest!: chains_apply)
next
  case (token s e a s')
  then show ?case by (auto simp: user_token_transact_eq_Inr)
qed (auto simp: genesis_def chains_ok_def chain_def link_def acyclic_def new_limits_def)

section \<open>Every operation ends\<close>

lemma ends_assets [simp]:
  "asset_laws e \<Longrightarrow> ends (asset_plus e a b)" "asset_laws e \<Longrightarrow> ends (asset_minus e a b)"
  "asset_laws e \<Longrightarrow> ends (asset_le e a b)" "ends (new_asset e n c)"
  unfolding asset_laws_def new_asset_def by auto

lemma ends_voting_requirement [simp]:
  "ends (check_voting_requirement n m s k) \<longleftrightarrow>
     ((\<exists>v. tfind n (voters s) = Some v \<and> (has_proxy v \<or> 21 \<le> length (voted_producers v))) \<longrightarrow> ends k)"
  by (auto simp: check_voting_requirement_def split: option.splits)

lemma ends_int64_of [simp]: "ends (int64_of x)"
  by (cases x) (simp_all add: Let_def)

lemma acyclic_same: "chains_ok t \<Longrightarrow> same_chains t t' \<Longrightarrow> acyclic (chain t')"
  using chains_ok_same [of t t'] unfolding chains_ok_def by blast

lemma ends_votes [simp]: "chains_ok (voters s) \<Longrightarrow> ends (update_votes e n prx prods voting s)"
  by (rule ends_update_votes) (simp add: chains_ok_def)

lemma ends_muldiv128 [simp]: "ends (muldiv128 a b c)"
  by (auto simp: muldiv128_def  Let_def case_prod_beta split: option.splits dest!: chain_frame voters_quiet)

lemma ends_get_supply [simp]: "ends (get_supply t c)"
  by (auto simp: get_supply_def  Let_def case_prod_beta split: option.splits dest!: chain_frame voters_quiet)

lemma ends_core_symbol [simp]: "ends (core_symbol s)"
  by (auto simp: core_symbol_def  Let_def case_prod_beta split: option.splits dest!: chain_frame voters_quiet)

lemma ends_get_limits [simp]: "ends (get_limits n s)"
  by (auto simp: get_limits_def  Let_def case_prod_beta split: option.splits dest!: chain_frame voters_quiet)

lemma ends_set_limits [simp]: "ends (set_limits n a b c s)"
  by (auto simp: set_limits_def  Let_def case_prod_beta split: option.splits dest!: chain_frame voters_quiet)

lemma ends_the_pool [simp]: "ends (the_pool s)"
  by (auto simp: the_pool_def  Let_def case_prod_beta split: option.splits dest!: chain_frame voters_quiet)

lemma ends_the_rex_balance [simp]: "ends (the_rex_balance n m s)"
  by (auto simp: the_rex_balance_def  Let_def case_prod_beta split: option.splits dest!: chain_frame voters_quiet)

lemma ends_get_bancor_output [simp]: "ends (get_bancor_output a b c)"
  by (auto simp: get_bancor_output_def  Let_def case_prod_beta split: option.splits dest!: chain_frame voters_quiet)

lemma ends_transfer_from_fund [simp]: "asset_laws e \<Longrightarrow> ends (transfer_from_fund e n q s)"
  by (auto simp: transfer_from_fund_def  Let_def case_prod_beta split: option.splits dest!: chain_frame voters_quiet)

lemma ends_transfer_to_fund [simp]: "ends (transfer_to_fund n q s)"
  by (auto simp: transfer_to_fund_def  Let_def case_prod_beta split: option.splits dest!: chain_frame voters_quiet)

lemma ends_changed_resources [simp]: "asset_laws e \<Longrightarrow> ends (changed_resources e n a b s)"
  by (auto simp: changed_resources_def  Let_def case_prod_beta split: option.splits dest!: chain_frame voters_quiet)

lemma ends_limits_follow [simp]: "ends (limits_follow n f r s)"
  by (auto simp: limits_follow_def  Let_def case_prod_beta split: option.splits dest!: chain_frame voters_quiet)

lemma ends_update_resource_limits [simp]: "asset_laws e \<Longrightarrow> ends (update_resource_limits e n a b s)"
  by (auto simp: update_resource_limits_def  Let_def case_prod_beta split: option.splits dest!: chain_frame voters_quiet)

lemma ends_limits_for_loan [simp]: "asset_laws e \<Longrightarrow> ends (limits_for_loan r e n a s)"
  by (cases r) auto

lemma ends_remove_loan_from_rex_pool [simp]: "ends (remove_loan_from_rex_pool l p)"
  by (auto simp: remove_loan_from_rex_pool_def  Let_def case_prod_beta split: option.splits dest!: chain_frame voters_quiet)

lemma ends_process_expired_loan [simp]: "asset_laws e \<Longrightarrow> ends (process_expired_loan r e k l s)"
  by (auto simp: process_expired_loan_def  Let_def case_prod_beta split: option.splits dest!: chain_frame voters_quiet)

lemma ends_expired_loan_round [simp]: "asset_laws e \<Longrightarrow> ends (expired_loan_round r e s)"
  by (auto simp: expired_loan_round_def  Let_def case_prod_beta split: list.splits option.splits dest!: chain_frame voters_quiet)

lemma ends_process_loans [simp]: "asset_laws e \<Longrightarrow> ends (process_loans r e n s)"
  by (induction n arbitrary: s) (auto split: option.splits)

lemma ends_fill_rex_order [simp]: "asset_laws e \<Longrightarrow> ends (fill_rex_order e c q p rb)"
  by (auto simp: fill_rex_order_def  Let_def case_prod_beta split: option.splits dest!: chain_frame voters_quiet)

lemma ends_fill_order_of [simp]: "asset_laws e \<Longrightarrow> ends (fill_order_of e n rb q s)"
  by (auto simp: fill_order_of_def  Let_def case_prod_beta split: option.splits dest!: chain_frame voters_quiet)

lemma ends_fill_queued_order [simp]: "asset_laws e \<Longrightarrow> ends (fill_queued_order e x s)"
  by (auto simp: fill_queued_order_def  Let_def case_prod_beta split: option.splits dest!: chain_frame voters_quiet)

lemma ends_process_orders [simp]: "asset_laws e \<Longrightarrow> ends (process_orders e n s)"
  unfolding process_orders_def by (rule ends_efold) auto

lemma ends_channel_proceeds [simp]: "ends (channel_proceeds e s)"
  by (auto simp: channel_proceeds_def  Let_def case_prod_beta split: option.splits dest!: chain_frame voters_quiet)

lemma ends_runrex [simp]: "asset_laws e \<Longrightarrow> ends (runrex e n s)"
  by (auto simp: runrex_def  Let_def case_prod_beta split: option.splits dest!: chain_frame voters_quiet)

lemma ends_rent_rex [simp]: "asset_laws e \<Longrightarrow> ends (rent_rex r e n m p q s)"
  by (auto simp: rent_rex_def  Let_def case_prod_beta split: option.splits dest!: chain_frame voters_quiet)

lemma ends_fund_rex_loan [simp]: "asset_laws e \<Longrightarrow> ends (fund_rex_loan r e n i q s)"
  by (auto simp: fund_rex_loan_def  Let_def case_prod_beta split: option.splits dest!: chain_frame voters_quiet)

lemma ends_defund_rex_loan [simp]: "asset_laws e \<Longrightarrow> ends (defund_rex_loan r e n i q s)"
  by (auto simp: defund_rex_loan_def  Let_def case_prod_beta split: option.splits dest!: chain_frame voters_quiet)

lemma ends_add_to_rex_pool [simp]: "asset_laws e \<Longrightarrow> ends (add_to_rex_pool e q s)"
  by (auto simp: add_to_rex_pool_def  Let_def case_prod_beta split: option.splits dest!: chain_frame voters_quiet)

lemma ends_add_to_rex_balance [simp]: "asset_laws e \<Longrightarrow> ends (add_to_rex_balance e n p q s)"
  by (auto simp: add_to_rex_balance_def  Let_def case_prod_beta split: option.splits dest!: chain_frame voters_quiet)

lemma ends_update_rex_stake [simp]: "ends (update_rex_stake n s)"
  by (auto simp: update_rex_stake_def  Let_def case_prod_beta split: option.splits dest!: chain_frame voters_quiet)

lemma ends_validate_b1_vesting [simp]: "ends (validate_b1_vesting e x)"
  by (auto simp: validate_b1_vesting_def  Let_def case_prod_beta split: option.splits dest!: chain_frame voters_quiet)

lemma ends_update_voting_power [simp]:
  assumes "chains_ok (voters s)"
  shows "ends (update_voting_power e n q s)"
proof (cases "tfind n (voters s)")
  case None
  then show ?thesis using assms
    by (auto simp: update_voting_power_def Let_def new_voter_def validate_b1_vesting_def
        intro!: ends_update_votes acyclic_same [where t = "voters s"] same_chains_new)
next
  case (Some v)
  then show ?thesis using assms
    by (auto simp: update_voting_power_def Let_def validate_b1_vesting_def
        intro!: ends_update_votes acyclic_same [where t = "voters s"] same_chains_update)
qed

lemma ends_update_rex_account [simp]: "chains_ok (voters s) \<Longrightarrow> ends (update_rex_account e n p d b s)"
  by (auto simp: update_rex_account_def  Let_def case_prod_beta split: option.splits dest!: chain_frame voters_quiet)

lemma ends_settle_account [simp]: "chains_ok (voters s) \<Longrightarrow> ends (settle_account e n b s)"
  by (auto simp: settle_account_def  Let_def case_prod_beta split: option.splits dest!: chain_frame voters_quiet)

lemma ends_unstake_for_rex [simp]: "ends (unstake_for_rex n m a b s)"
  by (auto simp: unstake_for_rex_def  Let_def case_prod_beta split: option.splits dest!: chain_frame voters_quiet)

lemma ends_queue_order [simp]: "ends (queue_order e n q s)"
  by (auto simp: queue_order_def  Let_def case_prod_beta split: option.splits dest!: chain_frame voters_quiet)

lemma ends_deposit [simp]: "ends (deposit e n q s)"
  by (auto simp: deposit_def  Let_def case_prod_beta split: option.splits dest!: chain_frame voters_quiet)

lemma ends_withdraw [simp]: "asset_laws e \<Longrightarrow> chains_ok (voters s) \<Longrightarrow> ends (withdraw e n q s)"
  by (auto simp: withdraw_def  Let_def case_prod_beta split: option.splits dest!: chain_frame voters_quiet)

lemma ends_buyrex [simp]: "asset_laws e \<Longrightarrow> chains_ok (voters s) \<Longrightarrow> ends (buyrex e n q s)"
  by (auto simp: buyrex_def  Let_def case_prod_beta split: option.splits dest!: chain_frame voters_quiet)

lemma ends_unstaketorex [simp]: "asset_laws e \<Longrightarrow> chains_ok (voters s) \<Longrightarrow> ends (unstaketorex e n r a b s)"
  by (auto simp: unstaketorex_def  Let_def case_prod_beta split: option.splits dest!: chain_frame voters_quiet)

lemma ends_finish_sell [simp]: "chains_ok (voters s) \<Longrightarrow> ends (finish_sell e n q oc s)"
  by (auto simp: finish_sell_def  Let_def case_prod_beta split: option.splits dest!: chain_frame voters_quiet)

lemma ends_sellrex [simp]: "asset_laws e \<Longrightarrow> chains_ok (voters s) \<Longrightarrow> ends (sellrex e n q s)"
  by (auto simp: sellrex_def  Let_def case_prod_beta split: option.splits dest!: chain_frame voters_quiet)

lemma ends_cnclrexorder [simp]: "ends (cnclrexorder e n s)"
  by (auto simp: cnclrexorder_def  Let_def case_prod_beta split: option.splits dest!: chain_frame voters_quiet)

lemma ends_rentcpu [simp]: "asset_laws e \<Longrightarrow> ends (rentcpu e f t p q s)"
  by (auto simp: rentcpu_def  Let_def case_prod_beta split: option.splits dest!: chain_frame voters_quiet)

lemma ends_rentnet [simp]: "asset_laws e \<Longrightarrow> ends (rentnet e f t p q s)"
  by (auto simp: rentnet_def  Let_def case_prod_beta split: option.splits dest!: chain_frame voters_quiet)

lemma ends_fundcpuloan [simp]: "asset_laws e \<Longrightarrow> ends (fundcpuloan e f n q s)"
  by (auto simp: fundcpuloan_def  Let_def case_prod_beta split: option.splits dest!: chain_frame voters_quiet)

lemma ends_fundnetloan [simp]: "asset_laws e \<Longrightarrow> ends (fundnetloan e f n q s)"
  by (auto simp: fundnetloan_def  Let_def case_prod_beta split: option.splits dest!: chain_frame voters_quiet)

lemma ends_defcpuloan [simp]: "asset_laws e \<Longrightarrow> ends (defcpuloan e f n q s)"
  by (auto simp: defcpuloan_def  Let_def case_prod_beta split: option.splits dest!: chain_frame voters_quiet)

lemma ends_defnetloan [simp]: "asset_laws e \<Longrightarrow> ends (defnetloan e f n q s)"
  by (auto simp: defnetloan_def  Let_def case_prod_beta split: option.splits dest!: chain_frame voters_quiet)

lemma ends_updaterex [simp]: "asset_laws e \<Longrightarrow> chains_ok (voters s) \<Longrightarrow> ends (updaterex e n s)"
  by (auto simp: updaterex_def  Let_def case_prod_beta split: option.splits dest!: chain_frame voters_quiet)

lemma ends_consolidate [simp]: "asset_laws e \<Longrightarrow> chains_ok (voters s) \<Longrightarrow> ends (consolidate e n s)"
  by (auto simp: consolidate_def  Let_def case_prod_beta split: option.splits dest!: chain_frame voters_quiet)

lemma ends_move_to_savings [simp]: "ends (move_to_savings a b c)"
  by (auto simp: move_to_savings_def  Let_def case_prod_beta split: option.splits dest!: chain_frame voters_quiet)

lemma ends_mvtosavings [simp]: "asset_laws e \<Longrightarrow> chains_ok (voters s) \<Longrightarrow> ends (mvtosavings e n q s)"
  by (auto simp: mvtosavings_def  Let_def case_prod_beta split: option.splits dest!: chain_frame voters_quiet)

lemma ends_mvfrsavings [simp]: "asset_laws e \<Longrightarrow> chains_ok (voters s) \<Longrightarrow> ends (mvfrsavings e n q s)"
  by (auto simp: mvfrsavings_def  Let_def case_prod_beta split: option.splits dest!: chain_frame voters_quiet)

lemma ends_setrex [simp]: "ends (setrex e q s)"
  by (auto simp: setrex_def  Let_def case_prod_beta split: option.splits dest!: chain_frame voters_quiet)

lemma ends_rexexec [simp]: "asset_laws e \<Longrightarrow> ends (rexexec e n m s)"
  by (auto simp: rexexec_def  Let_def case_prod_beta split: option.splits dest!: chain_frame voters_quiet)

lemma ends_closerex [simp]: "asset_laws e \<Longrightarrow> chains_ok (voters s) \<Longrightarrow> ends (closerex e n s)"
  by (auto simp: closerex_def  Let_def case_prod_beta split: option.splits dest!: chain_frame voters_quiet)

lemma ends_grow_market [simp]: "ends (grow_market d s)"
  by (auto simp: grow_market_def  Let_def case_prod_beta split: option.splits dest!: chain_frame voters_quiet)

lemma ends_setram [simp]: "ends (setram e m s)"
  by (auto simp: setram_def  Let_def case_prod_beta split: option.splits dest!: chain_frame voters_quiet)

lemma ends_update_ram_supply [simp]: "ends (update_ram_supply e s)"
  by (auto simp: update_ram_supply_def  Let_def case_prod_beta split: option.splits dest!: chain_frame voters_quiet)

lemma ends_setramrate [simp]: "ends (setramrate e m s)"
  by (auto simp: setramrate_def  Let_def case_prod_beta split: option.splits dest!: chain_frame voters_quiet)

lemma ends_set_ram_limit [simp]: "ends (set_ram_limit n x s)"
  by (auto simp: set_ram_limit_def  Let_def case_prod_beta split: option.splits dest!: chain_frame voters_quiet)

lemma ends_credit_ram [simp]: "ends (credit_ram n x s)"
  by (auto simp: credit_ram_def  Let_def case_prod_beta split: option.splits dest!: chain_frame voters_quiet)

lemma ends_convert_to_exchange [simp]: "ends (convert_to_exchange e a b c)"
  by (auto simp: convert_to_exchange_def  Let_def case_prod_beta split: option.splits dest!: chain_frame voters_quiet)

lemma ends_convert_from_exchange [simp]: "ends (convert_from_exchange e a b c)"
  by (auto simp: convert_from_exchange_def  Let_def case_prod_beta split: option.splits dest!: chain_frame voters_quiet)

lemma ends_convert_step [simp]: "ends (convert_step e m a b)"
  by (auto simp: convert_step_def  Let_def case_prod_beta split: option.splits dest!: chain_frame voters_quiet)

lemma ends_convert [simp]: "ends (convert e m a b)"
proof (induction e m a b rule: convert.induct)
  case (1 e m a b)
  then show ?case
    using ends_convert_step [of e m a b, unfolded ends_def] by (subst convert.simps) (auto split: sum.splits)
qed

lemma ends_convert_market [simp]: "err \<noteq> OutOfFuel \<Longrightarrow> ends (convert_market e q c err s)"
  by (auto simp: convert_market_def split: option.splits)

lemma ends_buyram [simp]: "ends (buyram e p n q s)"
  by (auto simp: buyram_def  Let_def case_prod_beta split: option.splits dest!: chain_frame voters_quiet)

lemma ends_buyrambytes [simp]: "ends (buyrambytes e p n b s)"
  by (auto simp: buyrambytes_def  Let_def case_prod_beta split: option.splits dest!: chain_frame voters_quiet)

lemma ends_sellram [simp]: "ends (sellram e n b s)"
  by (auto simp: sellram_def  Let_def case_prod_beta split: option.splits dest!: chain_frame voters_quiet)

lemma ends_change_delegation [simp]: "asset_laws e \<Longrightarrow> ends (change_delegation e f r a b s)"
  by (auto simp: change_delegation_def  Let_def case_prod_beta split: option.splits dest!: chain_frame voters_quiet)

lemma ends_staked_resources [simp]: "asset_laws e \<Longrightarrow> ends (staked_resources e n a b s)"
  by (auto simp: staked_resources_def  Let_def case_prod_beta split: option.splits dest!: chain_frame voters_quiet)

lemma ends_change_totals [simp]: "asset_laws e \<Longrightarrow> ends (change_totals e n a b s)"
  by (auto simp: change_totals_def  Let_def case_prod_beta split: option.splits dest!: chain_frame voters_quiet)

lemma ends_settle_refund [simp]: "asset_laws e \<Longrightarrow> ends (settle_refund e a b)"
  by (auto simp: settle_refund_def  Let_def case_prod_beta split: option.splits dest!: chain_frame voters_quiet)

lemma ends_change_refund [simp]: "asset_laws e \<Longrightarrow> ends (change_refund e n a b s)"
  by (auto simp: change_refund_def  Let_def case_prod_beta split: option.splits dest!: chain_frame voters_quiet)

lemma ends_transfer_stake [simp]: "asset_laws e \<Longrightarrow> ends (transfer_stake e t src f r a b s)"
  by (auto simp: transfer_stake_def  Let_def case_prod_beta split: option.splits dest!: chain_frame voters_quiet)

lemma ends_changebw [simp]: "asset_laws e \<Longrightarrow> chains_ok (voters s) \<Longrightarrow> ends (changebw e f r a b t s)"
  by (auto simp: changebw_def  Let_def case_prod_beta split: option.splits dest!: chain_frame voters_quiet)

lemma ends_delegatebw [simp]: "asset_laws e \<Longrightarrow> chains_ok (voters s) \<Longrightarrow> ends (delegatebw e f r a b t s)"
  by (auto simp: delegatebw_def  Let_def case_prod_beta split: option.splits dest!: chain_frame voters_quiet)

lemma ends_undelegatebw [simp]: "asset_laws e \<Longrightarrow> chains_ok (voters s) \<Longrightarrow> ends (undelegatebw e f r a b s)"
  by (auto simp: undelegatebw_def  Let_def case_prod_beta split: option.splits dest!: chain_frame voters_quiet)

lemma ends_refund [simp]: "asset_laws e \<Longrightarrow> ends (refund e n s)"
  by (auto simp: refund_def  Let_def case_prod_beta split: option.splits dest!: chain_frame voters_quiet)

lemma ends_regproducer [simp]: "ends (regproducer e n k u l s)"
  by (auto simp: regproducer_def  Let_def case_prod_beta split: option.splits dest!: chain_frame voters_quiet)

lemma ends_unregprod [simp]: "ends (unregprod e n s)"
  by (auto simp: unregprod_def  Let_def case_prod_beta split: option.splits dest!: chain_frame voters_quiet)

lemma ends_voteproducer [simp]: "chains_ok (voters s) \<Longrightarrow> ends (voteproducer e n p ps s)"
  by (auto simp: voteproducer_def check_voting_requirement_def Let_def case_prod_beta split: option.splits dest!: chain_frame voters_quiet)

lemma ends_regproxy [simp]:
  assumes "chains_ok (voters s)"
  shows "ends (regproxy e n b s)"
proof -
  have "acyclic (chain (voters s1))" if "set_voter n (\<lambda>v. v\<lparr>is_proxy := b\<rparr>) s = Inr s1" for s1
  proof -
    have "chain (voters s1) = chain (voters s)"
      using that by (auto simp: set_voter_def tmodify_eq_Inr chain_def link_Some split: if_split_asm)
    then show ?thesis using assms by (simp add: chains_ok_def)
  qed
  then show ?thesis by (auto simp: regproxy_def split: option.splits intro!: ends_propagate)
qed

lemma ends_inflation [simp]: "ends (inflation a b)"
  by (auto simp: inflation_def  Let_def case_prod_beta split: option.splits dest!: chain_frame voters_quiet)

lemma ends_send_inflation [simp]: "ends (send_inflation e c z s)"
  by (auto simp: send_inflation_def  Let_def case_prod_beta split: option.splits dest!: chain_frame voters_quiet)

lemma ends_fill_buckets [simp]: "ends (fill_buckets e c n s)"
  by (auto simp: fill_buckets_def  Let_def case_prod_beta split: option.splits dest!: chain_frame voters_quiet)

lemma ends_per_vote_share [simp]: "ends (per_vote_share ct p x b s)"
  by (auto simp: per_vote_share_def  Let_def case_prod_beta split: option.splits dest!: chain_frame voters_quiet)

lemma ends_pay_producer [simp]: "ends (pay_producer e bk n x m c s)"
  by (auto simp: pay_producer_def  Let_def case_prod_beta split: option.splits dest!: chain_frame voters_quiet)

lemma ends_onblock [simp]: "ends (onblock e t n s)"
  by (auto simp: onblock_def  Let_def case_prod_beta split: option.splits dest!: chain_frame voters_quiet)

lemma ends_claimrewards [simp]: "ends (claimrewards e n s)"
  by (auto simp: claimrewards_def  Let_def case_prod_beta split: option.splits dest!: chain_frame voters_quiet)

lemma ends_refund_outbid [simp]: "asset_laws e \<Longrightarrow> ends (refund_outbid e c n b s)"
  by (auto simp: refund_outbid_def  Let_def case_prod_beta split: option.splits dest!: chain_frame voters_quiet)

lemma ends_bidname [simp]: "asset_laws e \<Longrightarrow> ends (bidname e n m q s)"
  by (auto simp: bidname_def  Let_def case_prod_beta split: option.splits dest!: chain_frame voters_quiet)

lemma ends_bidrefund [simp]: "ends (bidrefund e n m s)"
  by (auto simp: bidrefund_def  Let_def case_prod_beta split: option.splits dest!: chain_frame voters_quiet)

lemma ends_claim_name [simp]: "ends (claim_name e c n s)"
  by (auto simp: claim_name_def  Let_def case_prod_beta split: option.splits dest!: chain_frame voters_quiet)

lemma ends_newaccount [simp]: "ends (newaccount e c n s)"
  by (auto simp: newaccount_def  Let_def case_prod_beta split: option.splits dest!: chain_frame voters_quiet)

lemma ends_setabi [simp]: "ends (setabi e n abi s)"
  by (auto simp: setabi_def  Let_def case_prod_beta split: option.splits dest!: chain_frame voters_quiet)

lemma ends_setparams [simp]: "ends (setparams e p s)"
  by (auto simp: setparams_def  Let_def case_prod_beta split: option.splits dest!: chain_frame voters_quiet)

lemma ends_setpriv [simp]: "ends (setpriv e n b s)"
  by (auto simp: setpriv_def  Let_def case_prod_beta split: option.splits dest!: chain_frame voters_quiet)

lemma ends_setalimits [simp]: "ends (setalimits e n a b c s)"
  by (auto simp: setalimits_def  Let_def case_prod_beta split: option.splits dest!: chain_frame voters_quiet)

lemma ends_manage_resource [simp]: "ends (manage_resource n f q m1 l m2 v s)"
  by (auto simp: manage_resource_def  Let_def case_prod_beta split: option.splits dest!: chain_frame voters_quiet)

lemma ends_setacctram [simp]: "ends (setacctram e n v s)"
  by (auto simp: setacctram_def  Let_def case_prod_beta split: option.splits dest!: chain_frame voters_quiet)

lemma ends_setacctnet [simp]: "ends (setacctnet e n v s)"
  by (auto simp: setacctnet_def  Let_def case_prod_beta split: option.splits dest!: chain_frame voters_quiet)

lemma ends_setacctcpu [simp]: "ends (setacctcpu e n v s)"
  by (auto simp: setacctcpu_def  Let_def case_prod_beta split: option.splits dest!: chain_frame voters_quiet)

lemma ends_rmvproducer [simp]: "ends (rmvproducer e n s)"
  by (auto simp: rmvproducer_def  Let_def case_prod_beta split: option.splits dest!: chain_frame voters_quiet)

lemma ends_updtrevision [simp]: "ends (updtrevision e r s)"
  by (auto simp: updtrevision_def  Let_def case_prod_beta split: option.splits dest!: chain_frame voters_quiet)

lemma ends_init [simp]: "ends (init e v c s)"
  by (auto simp: init_def  Let_def case_prod_beta split: option.splits dest!: chain_frame voters_quiet)

lemma ends_apply: "asset_laws e \<Longrightarrow> chains_ok (voters s) \<Longrightarrow> ends (sys_apply e a s)"
  by (cases a) simp_all

lemma ends_token_apply: "asset_laws e \<Longrightarrow> ends (token_apply e a t)"
  by (cases a) (auto simp: no_inline_def create_def issue_def retire_def transfer_def open_account_def close_account_def
      sub_balance_def add_balance_def Let_def split: option.splits)

lemma ends_run_inline: "asset_laws e \<Longrightarrow> ends (run_inline e xs t)"
proof (induction e xs t rule: run_inline.induct)
  case (3 e levels a rest t)
  then show ?case
    using ends_token_apply [of "inline_env e levels" a t] by (auto split: sum.splits)
qed simp_all

text \<open>More fuel than the chain is long changes nothing.\<close>

lemma more_fuel:
  "acyclic (chain (voters s)) \<Longrightarrow> card (above (voters s) n) < fuel \<Longrightarrow> fuel \<le> fuel' \<Longrightarrow>
     propagate_weight_change fuel' e n s = propagate_weight_change fuel e n s"
proof (induction fuel arbitrary: n s fuel')
  case (Suc fuel)
  then obtain f' where f': "fuel' = Suc f'" "fuel \<le> f'" by (cases fuel') auto
  have "propagate_weight_change f' e (proxy v) s1 = propagate_weight_change fuel e (proxy v) s1"
    if v: "tfind n (voters s) = Some v" "has_proxy v" "tfind (proxy v) (voters s) = Some p"
      and s1: "set_voter (proxy v) (\<lambda>p. p\<lparr>proxied_vote_weight := w p\<rparr>) s = Inr s1" for v p w s1
  proof (rule Suc.IH [OF _ _ f'(2)])
    have st: "steady s s1" using s1 by (rule steady_weights)
    show "acyclic (chain (voters s1))" using Suc.prems(1) by (simp add: steady_acyclic [OF st])
    show "card (above (voters s1) (proxy v)) < fuel"
      using above_proxy [OF Suc.prems(1) v] Suc.prems(2) by (simp add: steady_above [OF st])
  qed
  then have "ebind (set_voter (proxy v) (\<lambda>p. p\<lparr>proxied_vote_weight := w p\<rparr>) s) (propagate_weight_change f' e (proxy v)) =
      ebind (set_voter (proxy v) (\<lambda>p. p\<lparr>proxied_vote_weight := w p\<rparr>) s) (propagate_weight_change fuel e (proxy v))"
    if "tfind n (voters s) = Some v" "has_proxy v" "tfind (proxy v) (voters s) = Some p" for v p w
    using that by (cases "set_voter (proxy v) (\<lambda>p. p\<lparr>proxied_vote_weight := w p\<rparr>) s") simp_all
  then show ?case unfolding f' by (auto simp: check_def Let_def split: option.splits)
qed simp

section \<open>Properties\<close>

text \<open>
  C29. No account registered as a proxy uses one, and no chain of proxies ever closes to a cycle:
  following \<open>proxy\<close> from any voter, in any reachable state, one never comes back to an account
  one has passed, although a proxy may unregister, choose a proxy of its own, and so on.
\<close>

theorem proxies_acyclic:
  assumes "sys_reachable s"
  shows "acyclic {(n, proxy v) | n v. tfind n (voters s) = Some v \<and> has_proxy v} \<and>
    (\<forall>n v. tfind n (voters s) = Some v \<longrightarrow> is_proxy v \<longrightarrow> \<not> has_proxy v)"
proof -
  have ok: "chains_ok (voters s)" using assms by (rule chains_reachable)
  have "{(n, proxy v) | n v. tfind n (voters s) = Some v \<and> has_proxy v} = chain (voters s)"
    by (auto simp: chain_def link_def has_proxy_def)
  moreover have "proxy v = 0" if "tfind n (voters s) = Some v" "is_proxy v" for n v
    using ok that link_Some [OF that(1)] unfolding chains_ok_def by metis
  ultimately show ?thesis using ok by (auto simp: chains_ok_def has_proxy_def)
qed

text \<open>
  C30. Every action ends. In every reachable state, every action of the contract with the token
  actions it sends, and \<open>propagate_weight_change\<close> from any voter, yields a new state or one of
  the contract's own errors: the recursion along the proxies never reaches the bound the model
  puts on it, the number of voters plus one.
\<close>

theorem actions_end:
  assumes "sys_reachable s" and "asset_laws e"
  shows "sys_transact e a s \<noteq> Inl OutOfFuel \<and> propagate e n s \<noteq> Inl OutOfFuel"
proof -
  have ok: "chains_ok (voters s)" using assms(1) by (rule chains_reachable)
  have "ends (sys_transact e a s)"
    using ends_apply [OF assms(2), of "s\<lparr>outbox := []\<rparr>" a] ends_run_inline [OF assms(2)] ok
    by (auto simp: sys_transact_def)
  moreover have "ends (propagate e n s)" using ok by (intro ends_propagate) (simp add: chains_ok_def)
  ultimately show ?thesis by (simp add: ends_def)
qed

text \<open>
  C31. The bound does not matter: with any larger one \<open>propagate_weight_change\<close> does exactly
  the same, in every reachable state. So what the model computes with its fuel is what the
  unbounded recursion of the source computes.
\<close>

theorem fuel_irrelevant:
  assumes "sys_reachable s" and "proxy_fuel s \<le> fuel"
  shows "propagate_weight_change fuel e n s = propagate e n s"
proof -
  have "card (above (voters s) n) < proxy_fuel s"
    using card_above_le by (simp add: proxy_fuel_def less_Suc_eq_le)
  then show ?thesis
    using more_fuel [OF _ _ assms(2), where n = n and s = s] chains_reachable [OF assms(1)]
    by (simp add: propagate_def chains_ok_def)
qed

theorem proxies_acyclic_witness:
  "acyclic {(n, proxy v) | n v. tfind n (voters demo_rex) = Some v \<and> has_proxy v} \<and>
   (\<exists>v. tfind alice (voters demo_rex) = Some v \<and> proxy v = bob)"
proof -
  have "\<exists>v. tfind alice (voters demo_rex) = Some v \<and> proxy v = bob"
    by (simp add: demo_rex_def example_defs)
  with proxies_acyclic [OF demo_rex_reachable] show ?thesis by blast
qed

theorem actions_end_witness:
  "sys_transact (demo_sys_env [alice] 0) (A_delegatebw alice alice (eos 1) (eos 1) False) demo_rex \<noteq> Inl OutOfFuel"
  using actions_end [OF demo_rex_reachable] sys_env_ok_demo [of "[alice]" 0] unfolding sys_env_ok_def by blast

theorem fuel_irrelevant_witness:
  "propagate_weight_change 1000 (demo_sys_env [alice] 0) alice demo_rex = propagate (demo_sys_env [alice] 0) alice demo_rex"
  by (rule fuel_irrelevant [OF demo_rex_reachable]) (simp add: proxy_fuel_def demo_rex_def)

end
