(* ===== verification/Signatures.thy ===== *)
theory Signatures
  imports Footprint Demo_Chain
begin

text \<open>
  Whose tokens an action of the system contract may spend. The contract runs with the right to
  act for the accounts it keeps tokens on, so nothing but its own code stands between a user's
  action and the tokens of \<open>eosio.stake\<close>, \<open>eosio.rex\<close> and the others. \<open>spends\<close> lists for
  every action the accounts it may take tokens from apart from those that signed it; the theorem
  at the end says that nobody else's balance goes down.
\<close>

section \<open>Debits in the outbox\<close>

definition debits_of :: "name \<Rightarrow> sys \<Rightarrow> inline_action list" where
  "debits_of n s = filter (debits n) (outbox s)"

text \<open>From \<open>s\<close> to \<open>s'\<close> nothing is sent that takes tokens from an account outside \<open>N\<close>.\<close>

definition keeps :: "name set \<Rightarrow> sys \<Rightarrow> sys \<Rightarrow> bool" where
  "keeps N s s' \<longleftrightarrow> (\<forall>n. n \<notin> N \<longrightarrow> debits_of n s' = debits_of n s)"

abbreviation authors :: "'z env_scheme \<Rightarrow> name set" where
  "authors e \<equiv> {n. has_auth e n}"

named_theorems keep_frame

lemma debits_of_send_inline [simp]:
  "debits_of n (send_inline a s) = (if debits n a then debits_of n s @ [a] else debits_of n s)"
  by (simp add: debits_of_def send_inline_def)

lemma debits_of_outbox: "outbox s' = outbox s \<Longrightarrow> debits_of n s' = debits_of n s"
  by (simp add: debits_of_def)

lemma writes_keeps: "writes F s s' \<Longrightarrow> Outbox \<notin> F \<Longrightarrow> keeps {} s s'"
  using writes_unchanged [of F s s' Outbox] by (simp add: keeps_def debits_of_def)

lemma debits_of_updates [simp]:
  "debits_of n (s\<lparr>gstate := x1\<rparr>) = debits_of n s" "debits_of n (s\<lparr>gstate2 := x2\<rparr>) = debits_of n s"
  "debits_of n (s\<lparr>gstate3 := x3\<rparr>) = debits_of n s" "debits_of n (s\<lparr>voters := x4\<rparr>) = debits_of n s"
  "debits_of n (s\<lparr>producers := x5\<rparr>) = debits_of n s" "debits_of n (s\<lparr>producers2 := x6\<rparr>) = debits_of n s"
  "debits_of n (s\<lparr>rammarket := x7\<rparr>) = debits_of n s" "debits_of n (s\<lparr>rexpool := x8\<rparr>) = debits_of n s"
  "debits_of n (s\<lparr>rexfunds := x9\<rparr>) = debits_of n s" "debits_of n (s\<lparr>rexbalance := x10\<rparr>) = debits_of n s"
  "debits_of n (s\<lparr>rexorders := x11\<rparr>) = debits_of n s" "debits_of n (s\<lparr>cpuloans := x12\<rparr>) = debits_of n s"
  "debits_of n (s\<lparr>netloans := x13\<rparr>) = debits_of n s" "debits_of n (s\<lparr>userres := x14\<rparr>) = debits_of n s"
  "debits_of n (s\<lparr>delband := x15\<rparr>) = debits_of n s" "debits_of n (s\<lparr>refunds := x16\<rparr>) = debits_of n s"
  "debits_of n (s\<lparr>namebids := x17\<rparr>) = debits_of n s" "debits_of n (s\<lparr>bidrefunds := x18\<rparr>) = debits_of n s"
  "debits_of n (s\<lparr>limits := x19\<rparr>) = debits_of n s" "debits_of n (s\<lparr>deferred := x20\<rparr>) = debits_of n s"
  by (simp_all add: debits_of_def)

lemma debits_of_calls [simp]:
  "debits_of n (put_resources m r s) = debits_of n s" "debits_of n (put_rex_balance m rb s) = debits_of n s"
  "debits_of n (cancel_deferred i s) = debits_of n s" "debits_of n (send_deferred i t s) = debits_of n s"
  "debits_of n (schedule_refund b m s) = debits_of n s"
  by (simp_all add: debits_of_def put_resources_def put_rex_balance_def cancel_deferred_def send_deferred_def
      schedule_refund_def Let_def)

lemma debits_of_put_loans [simp]: "debits_of n (put_loans k t s) = debits_of n s"
  by (cases k) (simp_all add: debits_of_def)

lemma debits_of_total_share [simp]:
  "debits_of n (snd (update_total_votepay_share ct a b s)) = debits_of n s"
  by (simp add: update_total_votepay_share_def Let_def)

lemma debits_of_book_claim [simp]: "debits_of n (book_claim ct m p b x y z s) = debits_of n s"
  by (simp add: book_claim_def Let_def)

lemma debits_of_channel_to_rex [simp]:
  "from \<noteq> n \<Longrightarrow> debits_of n (channel_to_rex e from q s) = debits_of n s"
  by (auto simp: channel_to_rex_def split: option.splits)

section \<open>The operations\<close>

text \<open>Most operations send nothing.\<close>

lemma keeps_votes [keep_frame]:
  "update_voting_power e n q s = Inr s' \<Longrightarrow> keeps {} s s'"
  "update_votes e n prx prods v s = Inr s' \<Longrightarrow> keeps {} s s'"
  "regproxy e n b s = Inr s' \<Longrightarrow> keeps {} s s'"
  by (erule writes_votes [THEN writes_keeps], simp)+

lemma keeps_set_limits [keep_frame]:
  "set_limits n a b c s = Inr s' \<Longrightarrow> keeps {} s s'"
  by (erule writes_keeps [OF writes_set_limits]) simp

lemma keeps_transfer_from_fund [keep_frame]:
  "transfer_from_fund e n q s = Inr s' \<Longrightarrow> keeps {} s s'"
  by (erule writes_keeps [OF writes_transfer_from_fund]) simp

lemma keeps_transfer_to_fund [keep_frame]:
  "transfer_to_fund n q s = Inr s' \<Longrightarrow> keeps {} s s'"
  by (erule writes_keeps [OF writes_transfer_to_fund]) simp

lemma keeps_limits_follow [keep_frame]:
  "limits_follow n f r s = Inr s' \<Longrightarrow> keeps {} s s'"
  by (erule writes_keeps [OF writes_limits_follow]) simp

lemma keeps_update_resource_limits [keep_frame]:
  "update_resource_limits e n a b s = Inr s' \<Longrightarrow> keeps {} s s'"
  by (erule writes_keeps [OF writes_update_resource_limits]) simp

lemma keeps_limits_for_loan [keep_frame]:
  "limits_for_loan r e n a s = Inr s' \<Longrightarrow> keeps {} s s'"
  by (erule writes_keeps [OF writes_limits_for_loan]) simp

lemma keeps_process_expired_loan [keep_frame]:
  "process_expired_loan r e k l s = Inr (b, d, s') \<Longrightarrow> keeps {} s s'"
  by (erule writes_keeps [OF writes_process_expired_loan]) simp

lemma keeps_expired_loan_round [keep_frame]:
  "expired_loan_round r e s = Inr (Some s') \<Longrightarrow> keeps {} s s'"
  by (erule writes_keeps [OF writes_expired_loan_round]) simp

lemma keeps_process_loans [keep_frame]:
  "process_loans r e n s = Inr s' \<Longrightarrow> keeps {} s s'"
  by (erule writes_keeps [OF writes_process_loans]) simp

lemma keeps_fill_order_of [keep_frame]:
  "fill_order_of e n rb q s = Inr (oc, s') \<Longrightarrow> keeps {} s s'"
  by (erule writes_keeps [OF writes_fill_order_of]) simp

lemma keeps_fill_queued_order [keep_frame]:
  "fill_queued_order e x s = Inr s' \<Longrightarrow> keeps {} s s'"
  by (auto simp: keeps_def fill_queued_order_def Let_def case_prod_beta split: option.splits if_split_asm dest!: keep_frame)

lemma keeps_process_orders [keep_frame]:
  "process_orders e n s = Inr s' \<Longrightarrow> keeps {} s s'"
  unfolding process_orders_def
  by (erule efold_invariant [where P = "keeps {} s"], simp add: keeps_def)
    (drule keeps_fill_queued_order, simp add: keeps_def)

lemma keeps_channel_proceeds [keep_frame]:
  "channel_proceeds e s = Inr s' \<Longrightarrow> keeps {names_account} s s'"
  by (auto simp: keeps_def channel_proceeds_def Let_def case_prod_beta split: option.splits if_split_asm dest!: keep_frame)

lemma keeps_runrex [keep_frame]:
  "runrex e n s = Inr s' \<Longrightarrow> keeps {names_account} s s'"
  by (auto simp: keeps_def runrex_def Let_def case_prod_beta split: option.splits if_split_asm dest!: keep_frame)

lemma keeps_rent_rex [keep_frame]:
  "rent_rex r e n m p q s = Inr (x, s') \<Longrightarrow> keeps {names_account} s s'"
  by (auto simp: keeps_def rent_rex_def Let_def case_prod_beta split: option.splits if_split_asm dest!: keep_frame)

lemma keeps_fund_rex_loan_CPU [keep_frame]:
  "fund_rex_loan CPU e n i q s = Inr s' \<Longrightarrow> keeps {} s s'"
  by (erule writes_keeps [OF writes_fund_rex_loan_CPU]) simp

lemma keeps_defund_rex_loan_CPU [keep_frame]:
  "defund_rex_loan CPU e n i q s = Inr s' \<Longrightarrow> keeps {} s s'"
  by (erule writes_keeps [OF writes_defund_rex_loan_CPU]) simp

lemma keeps_fund_rex_loan_NET [keep_frame]:
  "fund_rex_loan NET e n i q s = Inr s' \<Longrightarrow> keeps {} s s'"
  by (erule writes_keeps [OF writes_fund_rex_loan_NET]) simp

lemma keeps_defund_rex_loan_NET [keep_frame]:
  "defund_rex_loan NET e n i q s = Inr s' \<Longrightarrow> keeps {} s s'"
  by (erule writes_keeps [OF writes_defund_rex_loan_NET]) simp

lemma keeps_update_rex_account [keep_frame]:
  "update_rex_account e n p d b s = Inr (x, s') \<Longrightarrow> keeps {} s s'"
  by (erule writes_keeps [OF writes_update_rex_account]) simp

lemma keeps_settle_account [keep_frame]:
  "settle_account e n b s = Inr (x, s') \<Longrightarrow> keeps {} s s'"
  by (erule writes_keeps [OF writes_settle_account]) simp

lemma keeps_add_to_rex_pool [keep_frame]:
  "add_to_rex_pool e q s = Inr (x, s') \<Longrightarrow> keeps {} s s'"
  by (erule writes_keeps [OF writes_add_to_rex_pool]) simp

lemma keeps_add_to_rex_balance [keep_frame]:
  "add_to_rex_balance e n p q s = Inr (x, s') \<Longrightarrow> keeps {} s s'"
  by (erule writes_keeps [OF writes_add_to_rex_balance]) simp

lemma keeps_update_rex_stake [keep_frame]:
  "update_rex_stake n s = Inr s' \<Longrightarrow> keeps {} s s'"
  by (erule writes_keeps [OF writes_update_rex_stake]) simp

lemma keeps_unstake_for_rex [keep_frame]:
  "unstake_for_rex n m a b s = Inr s' \<Longrightarrow> keeps {} s s'"
  by (erule writes_keeps [OF writes_unstake_for_rex]) simp

lemma keeps_queue_order [keep_frame]:
  "queue_order e n q s = Inr (x, s') \<Longrightarrow> keeps {} s s'"
  by (erule writes_keeps [OF writes_queue_order]) simp

lemma keeps_deposit [keep_frame]:
  "deposit e n q s = Inr s' \<Longrightarrow> keeps (authors e) s s'"
  by (auto simp: keeps_def deposit_def Let_def case_prod_beta split: option.splits if_split_asm dest!: keep_frame)

lemma keeps_withdraw [keep_frame]:
  "withdraw e n q s = Inr s' \<Longrightarrow> keeps {rex_account} s s'"
  by (auto simp: keeps_def withdraw_def Let_def case_prod_beta split: option.splits if_split_asm dest!: keep_frame)

lemma keeps_buyrex [keep_frame]:
  "buyrex e n q s = Inr s' \<Longrightarrow> keeps {names_account} s s'"
  by (auto simp: keeps_def buyrex_def Let_def case_prod_beta split: option.splits if_split_asm dest!: keep_frame)

lemma keeps_unstaketorex [keep_frame]:
  "unstaketorex e n r a b s = Inr s' \<Longrightarrow> keeps {names_account, stake_account} s s'"
  by (auto simp: keeps_def unstaketorex_def Let_def case_prod_beta split: option.splits if_split_asm dest!: keep_frame)

lemma keeps_sellrex [keep_frame]:
  "sellrex e n q s = Inr s' \<Longrightarrow> keeps {names_account} s s'"
  by (auto simp: keeps_def sellrex_def finish_sell_def Let_def case_prod_beta split: option.splits if_split_asm dest!: keep_frame)

lemma keeps_cnclrexorder [keep_frame]:
  "cnclrexorder e n s = Inr s' \<Longrightarrow> keeps {} s s'"
  by (erule writes_keeps [OF writes_cnclrexorder]) simp

lemma keeps_rentcpu [keep_frame]:
  "rentcpu e f t p q s = Inr s' \<Longrightarrow> keeps {names_account} s s'"
  by (auto simp: keeps_def rentcpu_def Let_def case_prod_beta split: option.splits if_split_asm dest!: keep_frame)

lemma keeps_rentnet [keep_frame]:
  "rentnet e f t p q s = Inr s' \<Longrightarrow> keeps {names_account} s s'"
  by (auto simp: keeps_def rentnet_def Let_def case_prod_beta split: option.splits if_split_asm dest!: keep_frame)

lemma keeps_fundcpuloan [keep_frame]:
  "fundcpuloan e f n q s = Inr s' \<Longrightarrow> keeps {} s s'"
  by (erule writes_keeps [OF writes_fundcpuloan]) simp

lemma keeps_fundnetloan [keep_frame]:
  "fundnetloan e f n q s = Inr s' \<Longrightarrow> keeps {} s s'"
  by (erule writes_keeps [OF writes_fundnetloan]) simp

lemma keeps_defcpuloan [keep_frame]:
  "defcpuloan e f n q s = Inr s' \<Longrightarrow> keeps {} s s'"
  by (erule writes_keeps [OF writes_defcpuloan]) simp

lemma keeps_defnetloan [keep_frame]:
  "defnetloan e f n q s = Inr s' \<Longrightarrow> keeps {} s s'"
  by (erule writes_keeps [OF writes_defnetloan]) simp

lemma keeps_updaterex [keep_frame]:
  "updaterex e n s = Inr s' \<Longrightarrow> keeps {names_account} s s'"
  by (auto simp: keeps_def updaterex_def Let_def case_prod_beta split: option.splits if_split_asm dest!: keep_frame)

lemma keeps_consolidate [keep_frame]:
  "consolidate e n s = Inr s' \<Longrightarrow> keeps {names_account} s s'"
  by (auto simp: keeps_def consolidate_def Let_def case_prod_beta split: option.splits if_split_asm dest!: keep_frame)

lemma keeps_mvtosavings [keep_frame]:
  "mvtosavings e n q s = Inr s' \<Longrightarrow> keeps {names_account} s s'"
  by (auto simp: keeps_def mvtosavings_def Let_def case_prod_beta split: option.splits if_split_asm dest!: keep_frame)

lemma keeps_mvfrsavings [keep_frame]:
  "mvfrsavings e n q s = Inr s' \<Longrightarrow> keeps {names_account} s s'"
  by (auto simp: keeps_def mvfrsavings_def Let_def case_prod_beta split: option.splits if_split_asm dest!: keep_frame)

lemma keeps_setrex [keep_frame]:
  "setrex e q s = Inr s' \<Longrightarrow> keeps {} s s'"
  by (erule writes_keeps [OF writes_setrex]) simp

lemma keeps_rexexec [keep_frame]:
  "rexexec e n m s = Inr s' \<Longrightarrow> keeps {names_account} s s'"
  by (auto simp: keeps_def rexexec_def Let_def case_prod_beta split: option.splits if_split_asm dest!: keep_frame)

lemma keeps_closerex [keep_frame]:
  "closerex e n s = Inr s' \<Longrightarrow> keeps {names_account} s s'"
  by (auto simp: keeps_def closerex_def Let_def case_prod_beta split: option.splits if_split_asm dest!: keep_frame)

lemma keeps_grow_market [keep_frame]:
  "grow_market d s = Inr s' \<Longrightarrow> keeps {} s s'"
  by (erule writes_keeps [OF writes_grow_market]) simp

lemma keeps_setram [keep_frame]:
  "setram e m s = Inr s' \<Longrightarrow> keeps {} s s'"
  by (erule writes_keeps [OF writes_setram]) simp

lemma keeps_update_ram_supply [keep_frame]:
  "update_ram_supply e s = Inr s' \<Longrightarrow> keeps {} s s'"
  by (erule writes_keeps [OF writes_update_ram_supply]) simp

lemma keeps_setramrate [keep_frame]:
  "setramrate e m s = Inr s' \<Longrightarrow> keeps {} s s'"
  by (erule writes_keeps [OF writes_setramrate]) simp

lemma keeps_convert_market [keep_frame]:
  "convert_market e q c err s = Inr (x, s') \<Longrightarrow> keeps {} s s'"
  by (erule writes_keeps [OF writes_convert_market]) simp

lemma keeps_set_ram_limit [keep_frame]:
  "set_ram_limit n x s = Inr s' \<Longrightarrow> keeps {} s s'"
  by (erule writes_keeps [OF writes_set_ram_limit]) simp

lemma keeps_credit_ram [keep_frame]:
  "credit_ram n x s = Inr s' \<Longrightarrow> keeps {} s s'"
  by (erule writes_keeps [OF writes_credit_ram]) simp

lemma keeps_buyram [keep_frame]:
  "buyram e p n q s = Inr s' \<Longrightarrow> keeps (insert ramfee_account (authors e)) s s'"
  by (auto simp: keeps_def buyram_def Let_def case_prod_beta split: option.splits if_split_asm dest!: keep_frame)

lemma keeps_buyrambytes [keep_frame]:
  "buyrambytes e p n b s = Inr s' \<Longrightarrow> keeps (insert ramfee_account (authors e)) s s'"
  by (auto simp: keeps_def buyrambytes_def Let_def case_prod_beta split: option.splits if_split_asm dest!: keep_frame)

lemma keeps_sellram [keep_frame]:
  "sellram e n b s = Inr s' \<Longrightarrow> keeps (authors e \<union> {ram_account, ramfee_account}) s s'"
  by (auto simp: keeps_def sellram_def Let_def case_prod_beta split: option.splits if_split_asm dest!: keep_frame)

lemma keeps_change_delegation [keep_frame]:
  "change_delegation e f r a b s = Inr s' \<Longrightarrow> keeps {} s s'"
  by (erule writes_keeps [OF writes_change_delegation]) simp

lemma keeps_change_totals [keep_frame]:
  "change_totals e n a b s = Inr s' \<Longrightarrow> keeps {} s s'"
  by (erule writes_keeps [OF writes_change_totals]) simp

lemma keeps_change_refund [keep_frame]:
  "change_refund e n a b s = Inr (x, y, z, s') \<Longrightarrow> keeps {} s s'"
  by (erule writes_keeps [OF writes_change_refund]) simp

lemma keeps_transfer_stake [keep_frame]:
  "transfer_stake e t src f r a b s = Inr s' \<Longrightarrow> keeps {src} s s'"
  by (auto simp: keeps_def transfer_stake_def Let_def case_prod_beta split: option.splits if_split_asm dest!: keep_frame)

lemma keeps_changebw [keep_frame]:
  "changebw e f r a b t s = Inr s' \<Longrightarrow> keeps (authors e) s s'"
  by (auto simp: keeps_def changebw_def Let_def case_prod_beta split: option.splits if_split_asm dest!: keep_frame)

lemma keeps_delegatebw [keep_frame]:
  "delegatebw e f r a b t s = Inr s' \<Longrightarrow> keeps (authors e) s s'"
  by (auto simp: keeps_def delegatebw_def Let_def case_prod_beta split: option.splits if_split_asm dest!: keep_frame)

lemma keeps_undelegatebw [keep_frame]:
  "undelegatebw e f r a b s = Inr s' \<Longrightarrow> keeps (authors e) s s'"
  by (auto simp: keeps_def undelegatebw_def Let_def case_prod_beta split: option.splits if_split_asm dest!: keep_frame)

lemma keeps_refund [keep_frame]:
  "refund e n s = Inr s' \<Longrightarrow> keeps {stake_account} s s'"
  by (auto simp: keeps_def refund_def Let_def case_prod_beta split: option.splits if_split_asm dest!: keep_frame)

lemma keeps_regproducer [keep_frame]:
  "regproducer e n k u l s = Inr s' \<Longrightarrow> keeps {} s s'"
  by (erule writes_keeps [OF writes_regproducer]) simp

lemma keeps_unregprod [keep_frame]:
  "unregprod e n s = Inr s' \<Longrightarrow> keeps {} s s'"
  by (erule writes_keeps [OF writes_unregprod]) simp

lemma keeps_voteproducer [keep_frame]:
  "voteproducer e n p ps s = Inr s' \<Longrightarrow> keeps {} s s'"
  by (erule writes_keeps [OF writes_voteproducer]) simp

lemma keeps_fill_buckets [keep_frame]:
  "fill_buckets e cs n s = Inr s' \<Longrightarrow> keeps {self e} s s'"
  by (auto simp: keeps_def debits_of_def fill_buckets_def send_inflation_def send_inline_def Let_def split: if_split_asm)

lemma keeps_per_vote_share [keep_frame]:
  "per_vote_share ct p x b s = Inr (y, s') \<Longrightarrow> keeps {} s s'"
  by (erule writes_keeps [OF writes_per_vote_share]) simp

lemma keeps_pay_producer [keep_frame]:
  "pay_producer e bucket n x m cs s = Inr s' \<Longrightarrow> keeps {bucket} s s'"
  by (auto simp: keeps_def pay_producer_def Let_def case_prod_beta split: option.splits if_split_asm dest!: keep_frame)

lemma keeps_onblock [keep_frame]:
  "onblock e t n s = Inr s' \<Longrightarrow> keeps {} s s'"
  by (erule writes_keeps [OF writes_onblock]) simp

lemma keeps_claimrewards [keep_frame]:
  "claimrewards e n s = Inr s' \<Longrightarrow> keeps {self e, bpay_account, vpay_account} s s'"
  by (auto simp: keeps_def claimrewards_def Let_def case_prod_beta split: option.splits if_split_asm dest!: keep_frame)

lemma keeps_refund_outbid [keep_frame]:
  "refund_outbid e cs n b s = Inr s' \<Longrightarrow> keeps {} s s'"
  by (erule writes_keeps [OF writes_refund_outbid]) simp

lemma keeps_claim_name [keep_frame]:
  "claim_name e c n s = Inr s' \<Longrightarrow> keeps {} s s'"
  by (erule writes_keeps [OF writes_claim_name]) simp

lemma keeps_manage_resource [keep_frame]:
  "manage_resource n f q m1 l m2 v s = Inr (x, s') \<Longrightarrow> keeps {} s s'"
  by (erule writes_keeps [OF writes_manage_resource]) simp

lemma keeps_bidname [keep_frame]:
  "bidname e n m q s = Inr s' \<Longrightarrow> keeps (authors e) s s'"
  by (auto simp: keeps_def bidname_def Let_def case_prod_beta split: option.splits if_split_asm dest!: keep_frame)

lemma keeps_bidrefund [keep_frame]:
  "bidrefund e n m s = Inr s' \<Longrightarrow> keeps {names_account} s s'"
  by (auto simp: keeps_def bidrefund_def Let_def case_prod_beta split: option.splits if_split_asm dest!: keep_frame)

lemma keeps_newaccount [keep_frame]:
  "newaccount e c n s = Inr s' \<Longrightarrow> keeps {} s s'"
  by (erule writes_keeps [OF writes_newaccount]) simp

lemma keeps_setabi [keep_frame]:
  "setabi e n abi s = Inr s' \<Longrightarrow> keeps {} s s'"
  by (erule writes_keeps [OF writes_setabi]) simp

lemma keeps_setparams [keep_frame]:
  "setparams e p s = Inr s' \<Longrightarrow> keeps {} s s'"
  by (erule writes_keeps [OF writes_setparams]) simp

lemma keeps_setpriv [keep_frame]:
  "setpriv e n b s = Inr s' \<Longrightarrow> keeps {} s s'"
  by (erule writes_keeps [OF writes_setpriv]) simp

lemma keeps_setalimits [keep_frame]:
  "setalimits e n a b c s = Inr s' \<Longrightarrow> keeps {} s s'"
  by (erule writes_keeps [OF writes_setalimits]) simp

lemma keeps_setacctram [keep_frame]:
  "setacctram e n v s = Inr s' \<Longrightarrow> keeps {} s s'"
  by (erule writes_keeps [OF writes_setacctram]) simp

lemma keeps_setacctnet [keep_frame]:
  "setacctnet e n v s = Inr s' \<Longrightarrow> keeps {} s s'"
  by (erule writes_keeps [OF writes_setacctnet]) simp

lemma keeps_setacctcpu [keep_frame]:
  "setacctcpu e n v s = Inr s' \<Longrightarrow> keeps {} s s'"
  by (erule writes_keeps [OF writes_setacctcpu]) simp

lemma keeps_rmvproducer [keep_frame]:
  "rmvproducer e n s = Inr s' \<Longrightarrow> keeps {} s s'"
  by (erule writes_keeps [OF writes_rmvproducer]) simp

lemma keeps_updtrevision [keep_frame]:
  "updtrevision e r s = Inr s' \<Longrightarrow> keeps {} s s'"
  by (erule writes_keeps [OF writes_updtrevision]) simp

lemma keeps_init [keep_frame]:
  "init e v core s = Inr s' \<Longrightarrow> keeps {} s s'"
  by (auto simp: keeps_def init_def Let_def case_prod_beta split: option.splits if_split_asm dest!: keep_frame)

section \<open>The accounts an action spends from\<close>

definition spends :: "name \<Rightarrow> sys_action \<Rightarrow> name set" where
  "spends me a =
     (case a of
        A_bidrefund _ _ \<Rightarrow> {names_account}
      | A_withdraw _ _ \<Rightarrow> {rex_account}
      | A_buyrex _ _ \<Rightarrow> {names_account}
      | A_unstaketorex _ _ _ _ \<Rightarrow> {names_account, stake_account}
      | A_sellrex _ _ \<Rightarrow> {names_account}
      | A_rentcpu _ _ _ _ \<Rightarrow> {names_account}
      | A_rentnet _ _ _ _ \<Rightarrow> {names_account}
      | A_updaterex _ \<Rightarrow> {names_account}
      | A_consolidate _ \<Rightarrow> {names_account}
      | A_mvtosavings _ _ \<Rightarrow> {names_account}
      | A_mvfrsavings _ _ \<Rightarrow> {names_account}
      | A_rexexec _ _ \<Rightarrow> {names_account}
      | A_closerex _ \<Rightarrow> {names_account}
      | A_buyrambytes _ _ _ \<Rightarrow> {ramfee_account}
      | A_buyram _ _ _ \<Rightarrow> {ramfee_account}
      | A_sellram _ _ \<Rightarrow> {ram_account, ramfee_account}
      | A_refund _ \<Rightarrow> {stake_account}
      | A_claimrewards _ \<Rightarrow> {me, bpay_account, vpay_account}
      | _ \<Rightarrow> {})"

lemma keeps_apply: "sys_apply e a s = Inr s' \<Longrightarrow> keeps (authors e \<union> spends (self e) a) s s'"
  by (cases a) (auto simp: keeps_def spends_def dest!: keep_frame)

text \<open>
  C11. Nobody pays without having signed: whatever action of the system contract a transaction
  runs, the token balance of an account that did not sign it can only go down if it is one of
  the contract's own accounts that \<open>spends\<close> names for that action. So no action of one user
  takes tokens from another, and none takes tokens from \<open>eosio.rex\<close> but \<open>withdraw\<close>, from
  \<open>eosio.stake\<close> but \<open>refund\<close> and \<open>unstaketorex\<close>.
\<close>

theorem signatures_protect:
  assumes "sys_reachable s" and "sys_env_ok e" and "sys_transact e a s = Inr s'"
    and "\<not> has_auth e n" and "n \<notin> spends (self e) a"
  shows "balance (tokens s) n c \<le> balance (tokens s') n c"
proof -
  have inv: "token_inv (tokens s)" "s\<lparr>outbox := []\<rparr> = s" "outbox s = []"
    using token_inv_reachable [OF assms(1)] by simp_all
  obtain s1 t where s1: "sys_apply e a s = Inr s1" and t: "run_inline e (outbox s1) (tokens s1) = Inr t"
    and s': "s' = s1\<lparr>tokens := t, outbox := []\<rparr>"
    using assms(3) inv(2) by (auto simp: sys_transact_eq_Inr)
  have "debits_of n s1 = debits_of n s"
    using keeps_apply [OF s1] assms(4,5) by (auto simp: keeps_def)
  then have "list_all (\<lambda>a. \<not> debits n a) (outbox s1)"
    using inv(3) by (auto simp: debits_of_def filter_empty_conv list_all_iff)
  then show ?thesis
    using run_keeps_balance [OF _ _ t] inv(1) assms(2) tokens_apply [OF s1] by (simp add: s' sys_env_ok_def)
qed

theorem signatures_protect_witness:
  "balance (tokens demo_rex) stake_account 5459781 \<le> balance (tokens demo_sold) stake_account 5459781"
  by (rule signatures_protect [OF demo_rex_reachable sys_env_ok_demo demo_sold_run])
    (simp_all add: spends_def demo_sys_env_def env.defs ref_env_def account_defs example_defs)

end
