(* ===== verification/Rex_Facts.thy ===== *)
theory Rex_Facts
  imports Rex
begin

text \<open>
  What the operations of the REX pool do to its numbers. The pool holds \<open>S\<close> core tokens
  (\<open>total_lendable\<close>) that back \<open>R\<close> units of REX (\<open>total_rex\<close>); buying and selling
  round against the trader, so the tokens behind one unit of REX never become fewer.

  \<open>pool_ok\<close> is the invariant of the pool's own fields. \<open>rex_cap\<close> is the bound the source
  gives for the core token's supply; up to it, no 64-bit field of the pool wraps around.
\<close>

section \<open>Shares\<close>

lemma sell_shares:
  fixes x R S :: int
  assumes "0 \<le> x" "x \<le> R" "0 < R" "0 \<le> S"
  shows "0 \<le> x * S div R" "x * S div R \<le> S" "S * (R - x) \<le> (S - x * S div R) * R"
proof -
  show "0 \<le> x * S div R"
    using assms by (simp add: pos_imp_zdiv_nonneg_iff)
  have le: "(x * S div R) * R \<le> x * S"
    using assms(3) by (metis div_mult_mod_eq le_add_same_cancel1 pos_mod_sign)
  show "x * S div R \<le> S"
  proof -
    have "x * S \<le> R * S" using assms by (simp add: mult_right_mono)
    then have "x * S div R \<le> R * S div R" using assms(3) by (intro zdiv_mono1) auto
    then show ?thesis using assms(3) by simp
  qed
  show "S * (R - x) \<le> (S - x * S div R) * R"
    using le by (simp add: algebra_simps)
qed

lemma buy_shares:
  fixes q R S :: int
  assumes "0 < S" "0 \<le> R" "0 \<le> q"
  shows "R \<le> (S + q) * R div S" "((S + q) * R div S) * S \<le> (S + q) * R"
proof -
  have "R * S div S \<le> (S + q) * R div S"
    using assms by (intro zdiv_mono1) (simp_all add: algebra_simps)
  then show "R \<le> (S + q) * R div S" using assms(1) by simp
  show "((S + q) * R div S) * S \<le> (S + q) * R"
    using assms(1) by (metis div_mult_mod_eq le_add_same_cancel1 pos_mod_sign)
qed

text \<open>A bound on the units per token survives both.\<close>

lemma ratio_sell:
  fixes x R S k :: int
  assumes "0 \<le> x" "x \<le> R" "0 < R" "0 \<le> S" "R \<le> k * S" "0 \<le> k"
  shows "R - x \<le> k * (S - x * S div R)"
proof -
  have "(R - x) * R \<le> (R - x) * (k * S)"
    using assms by (intro mult_left_mono) simp_all
  also have "\<dots> = k * (S * (R - x))" by (simp add: algebra_simps)
  also have "\<dots> \<le> k * ((S - x * S div R) * R)"
    using sell_shares(3) [OF assms(1-4)] assms(6) by (rule mult_left_mono)
  finally have "(R - x) * R \<le> (k * (S - x * S div R)) * R" by (simp add: algebra_simps)
  then show ?thesis using assms(3) by (simp add: mult_le_cancel_right)
qed

lemma ratio_buy:
  fixes q R S k :: int
  assumes "0 < S" "0 \<le> R" "0 \<le> q" "R \<le> k * S"
  shows "(S + q) * R div S \<le> k * (S + q)"
proof -
  have "(S + q) * R \<le> (S + q) * (k * S)"
    using assms by (intro mult_left_mono) simp_all
  then have "(S + q) * R div S \<le> ((S + q) * k) * S div S"
    using assms(1) by (intro zdiv_mono1) (simp_all add: algebra_simps)
  then show ?thesis using assms(1) by (simp add: algebra_simps)
qed

section \<open>The invariant of the pool\<close>

definition rex_cap :: int where "rex_cap = 400000000000000"

definition pool_ok :: "symbol \<Rightarrow> rex_pool \<Rightarrow> bool" where
  "pool_ok cs p \<longleftrightarrow>
     symbol (namebid_proceeds p) = cs \<and>
     amount (total_lendable p) = i64 (amount (total_unlent p) + amount (total_lent p)) \<and>
     0 \<le> amount (total_lendable p) \<and> amount (total_lendable p) \<le> rex_cap \<and>
     0 \<le> amount (total_rex p) \<and> amount (total_rex p) \<le> rex_ratio * amount (total_lendable p)"

lemma pool_okD:
  assumes "pool_ok cs p"
  shows "0 \<le> amount (total_lendable p)" "amount (total_lendable p) \<le> rex_cap"
    "0 \<le> amount (total_rex p)" "amount (total_rex p) \<le> 4000000000000000000"
    "amount (total_rex p) \<le> rex_ratio * amount (total_lendable p)"
    "i64 (amount (total_unlent p) + amount (total_lent p)) = amount (total_lendable p)"
    "symbol (namebid_proceeds p) = cs"
  using assms by (auto simp: pool_ok_def rex_cap_def rex_ratio_def)

text \<open>
  Loans move tokens between the two parts of the pool; only a payment changes the whole. The
  parts may wrap around, the whole does not.
\<close>

lemma i64_parts_add:
  assumes "i64 (U + T) = S"
  shows "i64 (i64 (i64 (U + - r) + q) + i64 (T + r)) = i64 (S + q)"
proof -
  have "i64 (i64 (i64 (U + - r) + q) + i64 (T + r)) = i64 (U + - r + q + (T + r))"
    by (simp only: i64_add_left i64_add_right add.assoc)
  also have "\<dots> = i64 ((U + T) + q)" by (rule arg_cong [of _ _ i64]) simp
  also have "\<dots> = i64 (i64 (U + T) + q)" by (rule i64_add_left [symmetric])
  finally show ?thesis unfolding assms .
qed

lemma i64_parts_move:
  assumes "i64 (U + T) = S"
  shows "i64 (i64 (U + r) + i64 (T - r)) = S"
proof -
  have "i64 (i64 (U + r) + i64 (T - r)) = i64 ((U + r) + (T - r))" by (simp only: i64_add_left i64_add_right)
  then show ?thesis using assms by simp
qed

lemma pool_ok_add_loan:
  fixes rented :: int and new :: bool
  assumes "pool_ok cs p" "0 \<le> amount q" "amount (total_lendable p) + amount q \<le> rex_cap"
  defines "p' \<equiv> add_loan_to_rex_pool q rented new p"
  shows "pool_ok cs p'" "amount (total_lendable p') = amount (total_lendable p) + amount q"
    "total_rex p' = total_rex p"
proof -
  note ok = pool_okD [OF assms(1)]
  have parts: "amount (total_lendable p') = i64 (amount (total_unlent p') + amount (total_lent p'))"
    by (simp del: i64_add_left i64_add_right add: p'_def add_loan_to_rex_pool_def Let_def)
  have u: "amount (total_unlent p') = i64 (i64 (amount (total_unlent p) + - rented) + amount q)"
    and t: "amount (total_lent p') = i64 (amount (total_lent p) + rented)"
    by (simp_all add: p'_def add_loan_to_rex_pool_def Let_def)
  have "i64 (amount (total_unlent p') + amount (total_lent p')) = i64 (amount (total_lendable p) + amount q)"
    unfolding u t by (rule i64_parts_add [OF ok(6)])
  also have "\<dots> = amount (total_lendable p) + amount q"
    using ok(1) assms(2,3) by (intro i64_id) (simp_all add: rex_cap_def)
  finally show S: "amount (total_lendable p') = amount (total_lendable p) + amount q"
    using parts by simp
  show R: "total_rex p' = total_rex p"
    by (simp add: p'_def add_loan_to_rex_pool_def Let_def)
  have "symbol (namebid_proceeds p') = cs"
    using ok(7) by (simp add: p'_def add_loan_to_rex_pool_def Let_def)
  then show "pool_ok cs p'"
    unfolding pool_ok_def parts [symmetric] using ok(1,3,5) assms(2,3) by (simp add: S R rex_ratio_def)
qed

lemma pool_ok_remove_loan:
  assumes "pool_ok cs p" "remove_loan_from_rex_pool l p = Inr p'"
  shows "pool_ok cs p'" "total_lendable p' = total_lendable p" "total_rex p' = total_rex p"
proof -
  note ok = pool_okD [OF assms(1)]
  define st where "st = amount (loan_staked l)"
  obtain d where p': "p' = p\<lparr>total_rent := add_amount (- d) (total_rent p),
      total_unlent := add_amount st (total_unlent p),
      total_lent := add_amount (- st) (total_lent p),
      total_lendable := set_amount (i64 (amount (add_amount st (total_unlent p)) +
         amount (add_amount (- st) (total_lent p)))) (total_lendable p)\<rparr>"
    using assms(2) by (auto simp: remove_loan_from_rex_pool_def Let_def st_def)
  have parts: "i64 (amount (add_amount st (total_unlent p)) + amount (add_amount (- st) (total_lent p))) =
      amount (total_lendable p)"
    using i64_parts_move [OF ok(6), of st] by (simp del: i64_add_left i64_add_right)
  then show t: "total_lendable p' = total_lendable p"
    unfolding p' parts by (simp add: set_amount_def)
  show r: "total_rex p' = total_rex p" by (simp add: p')
  have "i64 (amount (total_unlent p') + amount (total_lent p')) = amount (total_lendable p)"
    using parts unfolding p' by (simp del: add_amount_simps)
  moreover have "symbol (namebid_proceeds p') = cs" using ok(7) by (simp add: p')
  ultimately show "pool_ok cs p'"
    using ok(1-5) by (simp add: pool_ok_def t r)
qed

end
