(* ===== verification/Rex_Buckets.thy ===== *)
theory Rex_Buckets
  imports Rex
begin

text \<open>
  A user's REX balance is matured REX and buckets that mature later, the last of which may be
  the savings bucket that never does. The operations on it move REX between these places and
  keep the sum. The bound on the sum, far above what the pool can hold, keeps every addition
  within 64 bits.
\<close>

section \<open>Sums\<close>

definition bsum :: "(int \<times> int) list \<Rightarrow> int" where
  "bsum bs = (\<Sum>b\<leftarrow>bs. snd b)"

definition all_nonneg :: "(int \<times> int) list \<Rightarrow> bool" where
  "all_nonneg bs \<longleftrightarrow> (\<forall>b\<in>set bs. 0 \<le> snd b)"

definition rex_in :: "rex_balance \<Rightarrow> int" where
  "rex_in rb = matured_rex rb + bsum (rex_maturities rb)"

definition buckets_ok :: "rex_balance \<Rightarrow> bool" where
  "buckets_ok rb \<longleftrightarrow> 0 \<le> matured_rex rb \<and> all_nonneg (rex_maturities rb)"

definition rex_limit :: int where "rex_limit = 4000000000000000000"

lemma bsum_simps [simp]:
  "bsum [] = 0" "bsum (b # bs) = snd b + bsum bs" "bsum (xs @ ys) = bsum xs + bsum ys" "bsum (rev xs) = bsum xs"
  by (simp_all add: bsum_def flip: rev_map)

lemma all_nonneg_simps [simp]:
  "all_nonneg []" "all_nonneg (b # bs) \<longleftrightarrow> 0 \<le> snd b \<and> all_nonneg bs"
  "all_nonneg (xs @ ys) \<longleftrightarrow> all_nonneg xs \<and> all_nonneg ys" "all_nonneg (rev xs) \<longleftrightarrow> all_nonneg xs"
  by (auto simp: all_nonneg_def)

lemma bsum_nonneg: "all_nonneg bs \<Longrightarrow> 0 \<le> bsum bs"
  by (induction bs) auto

lemma butlast_last: "bs \<noteq> [] \<Longrightarrow> bsum bs = bsum (butlast bs) + snd (last bs)"
  "bs \<noteq> [] \<Longrightarrow> all_nonneg bs \<longleftrightarrow> all_nonneg (butlast bs) \<and> 0 \<le> snd (last bs)"
  by (metis append_butlast_last_id bsum_simps(1,2,3) add.right_neutral,
      metis append_butlast_last_id all_nonneg_simps(1-3))

lemma i64_below: "0 \<le> x \<Longrightarrow> x \<le> 2 * rex_limit \<Longrightarrow> i64 x = x"
  by (rule i64_id) (simp_all add: rex_limit_def)

section \<open>The operations\<close>

lemma pop_matured_keeps:
  assumes "pop_matured now m bs = (m', bs')" "0 \<le> m" "all_nonneg bs" "m + bsum bs \<le> rex_limit"
  shows "m' + bsum bs' = m + bsum bs" "m \<le> m'" "all_nonneg bs'"
  using assms
proof (induction now m bs arbitrary: m' bs' rule: pop_matured.induct)
  case (2 now m t x rest)
  {
    case 1
    then show ?case using 2 bsum_nonneg [of rest] by (auto simp: i64_below split: if_splits)
  next
    case 2
    then show ?case using "2.IH" bsum_nonneg [of rest] by (fastforce simp: i64_below split: if_splits)
  next
    case 3
    then show ?case using "2.IH" bsum_nonneg [of rest] by (auto simp: i64_below split: if_splits)
  }
qed auto

lemma process_maturities_keeps:
  assumes "buckets_ok rb" "rex_in rb \<le> rex_limit"
  shows "buckets_ok (process_rex_maturities e rb)" "rex_in (process_rex_maturities e rb) = rex_in rb"
    "rex_held (process_rex_maturities e rb) = rex_held rb"
    "matured_rex rb \<le> matured_rex (process_rex_maturities e rb)"
proof -
  obtain m bs where p: "pop_matured (current_sec e) (matured_rex rb) (rex_maturities rb) = (m, bs)"
    by force
  note k = pop_matured_keeps [OF p]
  show "buckets_ok (process_rex_maturities e rb)" "rex_in (process_rex_maturities e rb) = rex_in rb"
    "rex_held (process_rex_maturities e rb) = rex_held rb"
    "matured_rex rb \<le> matured_rex (process_rex_maturities e rb)"
    using k assms p by (auto simp: process_rex_maturities_def buckets_ok_def rex_in_def)
qed

lemma add_to_bucket_keeps:
  assumes "all_nonneg bs" "0 \<le> x" "bsum bs + x \<le> rex_limit"
  shows "all_nonneg (add_to_bucket t x bs)" "bsum (add_to_bucket t x bs) = bsum bs + x"
proof -
  have "i64 (snd (last bs) + x) = snd (last bs) + x" if "bs \<noteq> []"
    using assms butlast_last [OF that] bsum_nonneg [of "butlast bs"]
    by (intro i64_below) (auto simp: rex_limit_def)
  then show "all_nonneg (add_to_bucket t x bs)" "bsum (add_to_bucket t x bs) = bsum bs + x"
    using assms by (auto simp: add_to_bucket_def butlast_last)
qed

lemma read_savings_keeps:
  assumes "read_rex_savings rb = (v, rb')" "buckets_ok rb"
  shows "buckets_ok rb'" "rex_in rb' + v = rex_in rb" "0 \<le> v" "rex_held rb' = rex_held rb"
    "matured_rex rb' = matured_rex rb"
  using assms by (auto simp: read_rex_savings_def buckets_ok_def rex_in_def butlast_last split: if_splits)

lemma put_savings_keeps:
  assumes "buckets_ok rb" "0 \<le> v" "rex_in rb + v \<le> rex_limit"
  shows "buckets_ok (put_rex_savings v rb)" "rex_in (put_rex_savings v rb) = rex_in rb + v"
    "rex_held (put_rex_savings v rb) = rex_held rb" "matured_rex (put_rex_savings v rb) = matured_rex rb"
  using assms add_to_bucket_keeps [of "rex_maturities rb" v end_of_days]
  by (auto simp: put_rex_savings_def buckets_ok_def rex_in_def)

lemma add_bucket_keeps:
  assumes "buckets_ok rb" "0 \<le> x" "rex_in rb + x \<le> rex_limit"
  shows "buckets_ok (add_rex_bucket e x rb)" "rex_in (add_rex_bucket e x rb) = rex_in rb + x"
    "rex_held (add_rex_bucket e x rb) = rex_held rb" "matured_rex (add_rex_bucket e x rb) = matured_rex rb"
  using assms add_to_bucket_keeps [of "rex_maturities rb" x "get_rex_maturity e"]
  by (auto simp: add_rex_bucket_def buckets_ok_def rex_in_def)

lemma rex_in_nonneg: "buckets_ok rb \<Longrightarrow> 0 \<le> rex_in rb"
  using bsum_nonneg by (auto simp: buckets_ok_def rex_in_def)

lemma add_maturing_keeps:
  assumes "buckets_ok rb" "0 \<le> x" "rex_in rb + x \<le> rex_limit"
  shows "buckets_ok (add_maturing_rex e x rb)" "rex_in (add_maturing_rex e x rb) = rex_in rb + x"
    "rex_held (add_maturing_rex e x rb) = rex_held rb" "matured_rex rb \<le> matured_rex (add_maturing_rex e x rb)"
proof -
  obtain v rb1 where r: "read_rex_savings rb = (v, rb1)" by force
  note 1 = read_savings_keeps [OF r assms(1)]
  define rb2 where "rb2 = process_rex_maturities e rb1"
  have 2: "buckets_ok rb2" "rex_in rb2 = rex_in rb1" "rex_held rb2 = rex_held rb1" "matured_rex rb1 \<le> matured_rex rb2"
    unfolding rb2_def using process_maturities_keeps [of rb1 e] 1 assms by auto
  define rb3 where "rb3 = add_rex_bucket e x rb2"
  have 3: "buckets_ok rb3" "rex_in rb3 = rex_in rb2 + x" "rex_held rb3 = rex_held rb2" "matured_rex rb3 = matured_rex rb2"
    unfolding rb3_def using add_bucket_keeps [of rb2 x e] 1 2 assms by auto
  have e: "add_maturing_rex e x rb = put_rex_savings v rb3"
    by (simp add: add_maturing_rex_def r rb2_def rb3_def)
  show "buckets_ok (add_maturing_rex e x rb)" "rex_in (add_maturing_rex e x rb) = rex_in rb + x"
    "rex_held (add_maturing_rex e x rb) = rex_held rb" "matured_rex rb \<le> matured_rex (add_maturing_rex e x rb)"
    unfolding e using put_savings_keeps [of rb3 v] 1 2 3 assms by auto
qed

lemma sum_buckets_exact:
  "0 \<le> x \<Longrightarrow> all_nonneg bs \<Longrightarrow> x + bsum bs \<le> rex_limit \<Longrightarrow> sum_buckets x bs = x + bsum bs"
proof (induction bs arbitrary: x)
  case (Cons b bs)
  obtain t y where b: "b = (t, y)" by force
  have "i64 (x + y) = x + y"
    using Cons.prems b bsum_nonneg [of bs] by (intro i64_below) (auto simp: rex_limit_def)
  then show ?case using Cons b by simp
qed simp

lemma consolidate_keeps:
  fixes e :: "'z sys_env_scheme"
  assumes "buckets_ok rb" "rex_in rb \<le> rex_limit" "0 \<le> amount sell" "amount sell \<le> matured_rex rb"
  defines "rb' \<equiv> consolidate_rex_balance e sell rb"
  shows "buckets_ok rb'" "rex_in rb' = rex_in rb" "rex_held rb' = rex_held rb" "matured_rex rb' = amount sell"
proof -
  obtain v rb1 where r: "read_rex_savings rb = (v, rb1)" by force
  note 1 = read_savings_keeps [OF r assms(1)]
  have bs: "0 \<le> bsum (rex_maturities rb1)" using 1 by (auto simp: buckets_ok_def intro: bsum_nonneg)
  have i: "i64 (matured_rex rb1 - amount sell) = matured_rex rb1 - amount sell"
    using assms 1 bs by (intro i64_below) (auto simp: rex_in_def rex_limit_def)
  have tot: "sum_buckets (i64 (matured_rex rb1 - amount sell)) (rex_maturities rb1) = rex_in rb1 - amount sell"
    unfolding i using sum_buckets_exact [of "matured_rex rb1 - amount sell" "rex_maturities rb1"] assms 1 bs
    by (auto simp: buckets_ok_def rex_in_def)
  define rb2 where "rb2 = rb1\<lparr>matured_rex := amount sell, rex_maturities :=
    (if 0 < rex_in rb1 - amount sell then [(get_rex_maturity e, rex_in rb1 - amount sell)] else [])\<rparr>"
  have "0 \<le> rex_in rb1 - amount sell" using assms 1 bs by (auto simp: rex_in_def)
  then have 2: "buckets_ok rb2" "rex_in rb2 = rex_in rb1" "rex_held rb2 = rex_held rb1" "matured_rex rb2 = amount sell"
    using assms(3) by (auto simp: rb2_def buckets_ok_def rex_in_def)
  have e: "rb' = put_rex_savings v rb2"
    unfolding rb'_def consolidate_rex_balance_def r by (simp only: prod.case Let_def tot rb2_def)
  show "buckets_ok rb'" "rex_in rb' = rex_in rb" "rex_held rb' = rex_held rb" "matured_rex rb' = amount sell"
    unfolding e using put_savings_keeps [of rb2 v] 1 2 assms by auto
qed

text \<open>Taking REX from the buckets: never more than is asked for, and what is taken is gone.\<close>

lemma take_from_buckets_keeps:
  assumes "take_from_buckets rex moved bs = (moved', bs')"
    "0 \<le> moved" "moved \<le> rex" "rex < 2 ^ 63" "all_nonneg bs" "moved + bsum bs \<le> rex_limit"
  shows "moved \<le> moved' \<and> moved' \<le> rex \<and> all_nonneg bs' \<and> moved' + bsum bs' = moved + bsum bs"
  using assms
proof (induction rex moved bs arbitrary: moved' bs' rule: take_from_buckets.induct)
  case (2 rex moved t x rest)
  have rest: "0 \<le> bsum rest" using 2 by (auto intro: bsum_nonneg)
  show ?case
  proof (cases "moved < rex")
    case True
    define d where "d = min (i64 (rex - moved)) x"
    have "i64 (rex - moved) = rex - moved" using 2 by (intro i64_id) auto
    then have d: "0 \<le> d" "d \<le> x" "d \<le> rex - moved" "d = min (rex - moved) x" using 2 True by (auto simp: d_def)
    have i: "i64 (x - d) = x - d" "i64 (moved + d) = moved + d"
      using d 2 rest by (auto intro!: i64_below simp: rex_limit_def)
    have "take_from_buckets rex moved ((t, x) # rest) =
        (if i64 (x - d) = 0 then take_from_buckets rex (i64 (moved + d)) rest
         else (i64 (moved + d), (t, i64 (x - d)) # rest))"
      using True by (simp add: d_def Let_def)
    then have e: "(if x - d = 0 then take_from_buckets rex (moved + d) rest
         else (moved + d, (t, x - d) # rest)) = (moved', bs')"
      using 2(2) unfolding i by simp
    show ?thesis
    proof (cases "x - d = 0")
      case True
      then have "take_from_buckets rex (moved + d) rest = (moved', bs')" using e by simp
      moreover have "i64 (x - d) = 0" using True by simp
      ultimately have "moved + d \<le> moved' \<and> moved' \<le> rex \<and> all_nonneg bs' \<and> moved' + bsum bs' = moved + d + bsum rest"
        using 2(1) [OF \<open>moved < rex\<close> d_def, unfolded i(2)] True d 2(3-) by simp
      then show ?thesis using True d by auto
    qed (use e 2(3-) d in auto)
  qed (use 2 in auto)
qed auto

lemma move_to_savings_keeps:
  assumes "move_to_savings rex sell rb = Inr rb'" "buckets_ok rb" "rex_in rb \<le> rex_limit"
    "0 < amount rex" "amount rex < 2 ^ 63" "0 \<le> amount sell" "amount sell \<le> matured_rex rb"
  shows "buckets_ok rb'" "rex_in rb' + amount rex = rex_in rb" "rex_held rb' = rex_held rb"
    "amount sell \<le> matured_rex rb'"
proof -
  obtain moved bs where t: "take_from_buckets (amount rex) 0 (rev (rex_maturities rb)) = (moved, bs)" by force
  have k: "0 \<le> moved" "moved \<le> amount rex" "all_nonneg bs" "moved + bsum bs = bsum (rex_maturities rb)"
    using take_from_buckets_keeps [OF t] assms by (auto simp: buckets_ok_def rex_in_def)
  have nn: "0 \<le> bsum bs" "0 \<le> matured_rex rb" using k assms by (auto intro: bsum_nonneg simp: buckets_ok_def)
  have i: "i64 (amount rex - moved) = amount rex - moved" "i64 (moved + (amount rex - moved)) = amount rex"
    "i64 (matured_rex rb - (amount rex - moved)) = matured_rex rb - (amount rex - moved)"
    using k nn assms by (auto intro!: i64_id simp: rex_in_def rex_limit_def)
  have "rb' = rb\<lparr>matured_rex := matured_rex rb - (amount rex - moved), rex_maturities := rev bs\<rparr> \<and>
      amount sell \<le> matured_rex rb - (amount rex - moved)"
    using assms(1,7) k by (auto simp: move_to_savings_def t Let_def i split: if_splits)
  then show "buckets_ok rb'" "rex_in rb' + amount rex = rex_in rb" "rex_held rb' = rex_held rb"
    "amount sell \<le> matured_rex rb'"
    using k assms(6) by (auto simp: buckets_ok_def rex_in_def)
qed

end
