(* ===== verification/Ram_Conservation.thy ===== *)
theory Ram_Conservation
  imports Frames System_Contract
begin

text \<open>
  RAM is conserved. What the market offers is the supply less what is reserved, and what is
  reserved is what the accounts hold together, in every state the system contract can reach.
  The prices are those of the Bancor formula in doubles; the argument does not depend on them,
  because a conversion only moves amounts between a connector and the caller.

  Amounts of RAM are 64-bit fields, so the equations are between fields: \<open>u64\<close> reads a
  signed field as the unsigned one it is compared with.

  \<open>ram_view\<close> is all that the argument looks at. Most actions keep it; the lemmas
  \<open>ram_frame\<close> say so, for each operation once.
\<close>

section \<open>The view\<close>

definition ram_of :: "sys \<Rightarrow> name \<Rightarrow> int" where
  "ram_of s n = (case tfind n (userres s) of None \<Rightarrow> 0 | Some r \<Rightarrow> ram_bytes r)"

definition ram_view ::
  "sys \<Rightarrow> (symbol, exchange_state) table \<times> int \<times> int \<times> int \<times> (name \<Rightarrow> int)" where
  "ram_view s = (rammarket s, max_ram_size (gstate s), total_ram_bytes_reserved (gstate s),
     total_ram_stake (gstate s), ram_of s)"

named_theorems ram_frame

lemma ram_view_updates [simp]:
  "ram_view (s\<lparr>tokens := x1\<rparr>) = ram_view s"
  "ram_view (s\<lparr>gstate2 := x2\<rparr>) = ram_view s"
  "ram_view (s\<lparr>gstate3 := x3\<rparr>) = ram_view s"
  "ram_view (s\<lparr>voters := x4\<rparr>) = ram_view s"
  "ram_view (s\<lparr>producers := x5\<rparr>) = ram_view s"
  "ram_view (s\<lparr>producers2 := x6\<rparr>) = ram_view s"
  "ram_view (s\<lparr>rexpool := x7\<rparr>) = ram_view s"
  "ram_view (s\<lparr>rexfunds := x8\<rparr>) = ram_view s"
  "ram_view (s\<lparr>rexbalance := x9\<rparr>) = ram_view s"
  "ram_view (s\<lparr>rexorders := x10\<rparr>) = ram_view s"
  "ram_view (s\<lparr>cpuloans := x11\<rparr>) = ram_view s"
  "ram_view (s\<lparr>netloans := x12\<rparr>) = ram_view s"
  "ram_view (s\<lparr>delband := x13\<rparr>) = ram_view s"
  "ram_view (s\<lparr>refunds := x14\<rparr>) = ram_view s"
  "ram_view (s\<lparr>namebids := x15\<rparr>) = ram_view s"
  "ram_view (s\<lparr>bidrefunds := x16\<rparr>) = ram_view s"
  "ram_view (s\<lparr>abihashes := x17\<rparr>) = ram_view s"
  "ram_view (s\<lparr>limits := x18\<rparr>) = ram_view s"
  "ram_view (s\<lparr>privileged := x19\<rparr>) = ram_view s"
  "ram_view (s\<lparr>chain_params := x20\<rparr>) = ram_view s"
  "ram_view (s\<lparr>proposed_schedule := x21\<rparr>) = ram_view s"
  "ram_view (s\<lparr>deferred := x22\<rparr>) = ram_view s"
  "ram_view (s\<lparr>outbox := x23\<rparr>) = ram_view s"
  by (simp_all add: ram_view_def ram_of_def fun_eq_iff)

lemma ram_view_gstate [simp]:
  "max_ram_size g = max_ram_size (gstate s) \<Longrightarrow>
   total_ram_bytes_reserved g = total_ram_bytes_reserved (gstate s) \<Longrightarrow>
   total_ram_stake g = total_ram_stake (gstate s) \<Longrightarrow>
     ram_view (s\<lparr>gstate := g\<rparr>) = ram_view s"
  by (simp add: ram_view_def ram_of_def fun_eq_iff)

text \<open>A change of an account's row that keeps its bytes, or the removal of a row without any.\<close>

lemma ram_view_userres_update [simp]:
  "ram_bytes r = ram_of s n \<Longrightarrow> ram_view (s\<lparr>userres := AList.update n r (userres s)\<rparr>) = ram_view s"
  by (auto simp: ram_view_def ram_of_def fun_eq_iff)

lemma ram_view_userres_erase [simp]:
  "ram_of s n = 0 \<Longrightarrow> ram_view (s\<lparr>userres := terase n (userres s)\<rparr>) = ram_view s"
  by (auto simp: ram_view_def ram_of_def fun_eq_iff)

lemma ram_view_userres_new [simp]:
  "tfind n (userres s) = None \<Longrightarrow> ram_bytes r = 0 \<Longrightarrow>
     ram_view (s\<lparr>userres := (n, r) # userres s\<rparr>) = ram_view s"
  by (auto simp: ram_view_def ram_of_def fun_eq_iff)

lemma ram_view_send_inline [simp]: "ram_view (send_inline a s) = ram_view s"
  by (simp add: send_inline_def)

lemma ram_view_deferred [simp]:
  "ram_view (cancel_deferred i s) = ram_view s" "ram_view (send_deferred i t s) = ram_view s"
  by (simp_all add: cancel_deferred_def send_deferred_def)

lemma ram_frame_set_limits [ram_frame]: "set_limits n a b c s = Inr s' \<Longrightarrow> ram_view s' = ram_view s"
  by (auto simp: set_limits_eq_Inr)

interpretation ram_blind: vote_blind ram_view
  by unfold_locales (simp add: ram_view_def ram_of_def fun_eq_iff vote_frame_def)

lemmas ram_frame_votes [ram_frame] =
  ram_blind.view_update_voting_power ram_blind.view_update_votes ram_blind.view_regproxy

lemma ram_view_votes [simp]:
  "ram_view (snd (update_total_votepay_share ct a b s)) = ram_view s"
  "ram_view (set_managed n f v s) = ram_view s"
  by (rule ram_blind.view_total_share, rule ram_blind.view_set_managed)

section \<open>The resource exchange leaves RAM alone\<close>

lemma ram_frame_transfer_from_fund [ram_frame]:
  "transfer_from_fund e n q s = Inr s' \<Longrightarrow> ram_view s' = ram_view s"
  by (auto simp: transfer_from_fund_def split: option.splits)

lemma ram_frame_transfer_to_fund [ram_frame]:
  "transfer_to_fund n q s = Inr s' \<Longrightarrow> ram_view s' = ram_view s"
  by (auto simp: transfer_to_fund_def split: option.splits)

lemma ram_view_channel [simp]:
  "ram_view (channel_to_rex e n q s) = ram_view s" "ram_view (channel_namebid_to_rex b s) = ram_view s"
  by (auto simp: channel_to_rex_def channel_namebid_to_rex_def split: option.splits)

lemma ram_frame_limits_follow [ram_frame]:
  "limits_follow n f r s = Inr s' \<Longrightarrow> ram_view s' = ram_view s"
  by (auto simp: limits_follow_def split: if_splits dest!: ram_frame)

lemma ram_view_put_resources:
  assumes "ram_view s1 = ram_view s" "ram_bytes r = ram_of s n"
  shows "ram_view (put_resources n r s1) = ram_view s"
proof -
  have "ram_of s1 n = ram_of s n" using assms(1) by (simp add: ram_view_def)
  then show ?thesis using assms by (simp add: put_resources_def resources_empty_def)
qed

lemma changed_resources_bytes: "changed_resources e n a b s = Inr r \<Longrightarrow> ram_bytes r = ram_of s n"
  by (auto simp: changed_resources_def ram_of_def split: option.splits)

lemma staked_resources_bytes: "staked_resources e n a b s = Inr r \<Longrightarrow> ram_bytes r = ram_of s n"
  by (auto simp: staked_resources_def ram_of_def split: option.splits)

lemma ram_frame_update_resource_limits [ram_frame]:
  "update_resource_limits e n a b s = Inr s' \<Longrightarrow> ram_view s' = ram_view s"
  by (auto simp: update_resource_limits_def split: if_splits
      dest!: ram_frame changed_resources_bytes intro: ram_view_put_resources)

lemma ram_frame_limits_for_loan [ram_frame]:
  "limits_for_loan r e n a s = Inr s' \<Longrightarrow> ram_view s' = ram_view s"
  by (cases r) (auto dest!: ram_frame)

lemma ram_view_put_loans [simp]: "ram_view (put_loans r t s) = ram_view s"
  by (cases r) simp_all

lemma ram_frame_process_expired_loan [ram_frame]:
  "process_expired_loan r e k l s = Inr (b, d, s') \<Longrightarrow> ram_view s' = ram_view s"
  by (auto simp: process_expired_loan_def Let_def case_prod_beta split: if_split_asm dest!: ram_frame)

lemma ram_frame_expired_loan_round [ram_frame]:
  "expired_loan_round r e s = Inr (Some s') \<Longrightarrow> ram_view s' = ram_view s"
  by (auto simp: expired_loan_round_def split: list.splits if_splits prod.splits dest!: ram_frame)

lemma ram_frame_process_loans [ram_frame]:
  "process_loans r e n s = Inr s' \<Longrightarrow> ram_view s' = ram_view s"
proof (induction n arbitrary: s)
  case (Suc n)
  then show ?case by (auto split: option.splits dest!: ram_frame Suc.IH)
qed simp

lemma ram_frame_fill_order_of [ram_frame]:
  "fill_order_of e n rb q s = Inr (r, s') \<Longrightarrow> ram_view s' = ram_view s"
  by (auto simp: fill_order_of_def)

lemma ram_frame_fill_queued_order [ram_frame]:
  "fill_queued_order e x s = Inr s' \<Longrightarrow> ram_view s' = ram_view s"
  by (auto simp: fill_queued_order_def split: option.splits prod.splits if_splits dest!: ram_frame)

lemma ram_frame_process_orders [ram_frame]:
  "process_orders e n s = Inr s' \<Longrightarrow> ram_view s' = ram_view s"
  unfolding process_orders_def
  by (rule efold_invariant [where P = "\<lambda>s'. ram_view s' = ram_view s"]) (auto dest: ram_frame)

lemma ram_frame_channel_proceeds [ram_frame]:
  "channel_proceeds e s = Inr s' \<Longrightarrow> ram_view s' = ram_view s"
  by (auto simp: channel_proceeds_def Let_def split: if_splits)

lemma ram_frame_runrex [ram_frame]: "runrex e n s = Inr s' \<Longrightarrow> ram_view s' = ram_view s"
  by (auto simp: runrex_def dest!: ram_frame)

lemma ram_frame_rent_rex [ram_frame]:
  "rent_rex r e f t p q s = Inr (x, s') \<Longrightarrow> ram_view s' = ram_view s"
  by (auto simp: rent_rex_def Let_def dest!: ram_frame)

lemma ram_frame_fund_rex_loan [ram_frame]:
  "fund_rex_loan r e f n q s = Inr s' \<Longrightarrow> ram_view s' = ram_view s"
  by (auto simp: fund_rex_loan_def split: option.splits dest!: ram_frame)

lemma ram_frame_defund_rex_loan [ram_frame]:
  "defund_rex_loan r e f n q s = Inr s' \<Longrightarrow> ram_view s' = ram_view s"
  by (auto simp: defund_rex_loan_def split: option.splits dest!: ram_frame)

lemma ram_frame_update_rex_account [ram_frame]:
  "update_rex_account e n p d b s = Inr (x, s') \<Longrightarrow> ram_view s' = ram_view s"
  by (auto simp: update_rex_account_def split: option.splits if_splits prod.splits dest!: ram_frame)

lemma ram_frame_settle_account [ram_frame]:
  "settle_account e n b s = Inr (x, s') \<Longrightarrow> ram_view s' = ram_view s"
  by (auto simp: settle_account_def dest!: ram_frame)

lemma ram_frame_add_to_rex_pool [ram_frame]:
  "add_to_rex_pool e q s = Inr (x, s') \<Longrightarrow> ram_view s' = ram_view s"
  by (auto simp: add_to_rex_pool_def Let_def split: option.splits if_splits)

lemma ram_frame_add_to_rex_balance [ram_frame]:
  "add_to_rex_balance e n q r s = Inr (x, s') \<Longrightarrow> ram_view s' = ram_view s"
  by (auto simp: add_to_rex_balance_def Let_def split: option.splits prod.splits)

lemma ram_frame_update_rex_stake [ram_frame]:
  "update_rex_stake n s = Inr s' \<Longrightarrow> ram_view s' = ram_view s"
  by (auto simp: update_rex_stake_def Let_def split: option.splits if_splits)

lemma ram_frame_unstake_for_rex [ram_frame]:
  "unstake_for_rex n r a b s = Inr s' \<Longrightarrow> ram_view s' = ram_view s"
  by (auto simp: unstake_for_rex_def Let_def split: option.splits)

lemma ram_frame_queue_order [ram_frame]:
  "queue_order e n q s = Inr (x, s') \<Longrightarrow> ram_view s' = ram_view s"
  by (auto simp: queue_order_def Let_def split: option.splits)

lemma ram_view_put_rex_balance [simp]: "ram_view (put_rex_balance n rb s) = ram_view s"
  by (simp add: put_rex_balance_def)

section \<open>The actions that leave RAM alone\<close>

lemma ram_frame_deposit [ram_frame]: "deposit e n q s = Inr s' \<Longrightarrow> ram_view s' = ram_view s"
  by (auto simp: deposit_def Let_def case_prod_beta split: option.splits if_split_asm dest!: ram_frame)

lemma ram_frame_withdraw [ram_frame]: "withdraw e n q s = Inr s' \<Longrightarrow> ram_view s' = ram_view s"
  by (auto simp: withdraw_def Let_def case_prod_beta split: option.splits if_split_asm dest!: ram_frame)

lemma ram_frame_buyrex [ram_frame]: "buyrex e n q s = Inr s' \<Longrightarrow> ram_view s' = ram_view s"
  by (auto simp: buyrex_def Let_def case_prod_beta split: option.splits if_split_asm dest!: ram_frame)

lemma ram_frame_unstaketorex [ram_frame]: "unstaketorex e n r a b s = Inr s' \<Longrightarrow> ram_view s' = ram_view s"
  by (auto simp: unstaketorex_def Let_def case_prod_beta split: option.splits if_split_asm dest!: ram_frame)

lemma ram_frame_sellrex [ram_frame]: "sellrex e n q s = Inr s' \<Longrightarrow> ram_view s' = ram_view s"
  by (auto simp: sellrex_def finish_sell_def Let_def case_prod_beta split: option.splits if_split_asm dest!: ram_frame)

lemma ram_frame_cnclrexorder [ram_frame]: "cnclrexorder e n s = Inr s' \<Longrightarrow> ram_view s' = ram_view s"
  by (auto simp: cnclrexorder_def Let_def case_prod_beta split: option.splits if_split_asm dest!: ram_frame)

lemma ram_frame_rentcpu [ram_frame]: "rentcpu e f t p q s = Inr s' \<Longrightarrow> ram_view s' = ram_view s"
  by (auto simp: rentcpu_def Let_def case_prod_beta split: option.splits if_split_asm dest!: ram_frame)

lemma ram_frame_rentnet [ram_frame]: "rentnet e f t p q s = Inr s' \<Longrightarrow> ram_view s' = ram_view s"
  by (auto simp: rentnet_def Let_def case_prod_beta split: option.splits if_split_asm dest!: ram_frame)

lemma ram_frame_fundcpuloan [ram_frame]: "fundcpuloan e f n q s = Inr s' \<Longrightarrow> ram_view s' = ram_view s"
  by (auto simp: fundcpuloan_def Let_def case_prod_beta split: option.splits if_split_asm dest!: ram_frame)

lemma ram_frame_fundnetloan [ram_frame]: "fundnetloan e f n q s = Inr s' \<Longrightarrow> ram_view s' = ram_view s"
  by (auto simp: fundnetloan_def Let_def case_prod_beta split: option.splits if_split_asm dest!: ram_frame)

lemma ram_frame_defcpuloan [ram_frame]: "defcpuloan e f n q s = Inr s' \<Longrightarrow> ram_view s' = ram_view s"
  by (auto simp: defcpuloan_def Let_def case_prod_beta split: option.splits if_split_asm dest!: ram_frame)

lemma ram_frame_defnetloan [ram_frame]: "defnetloan e f n q s = Inr s' \<Longrightarrow> ram_view s' = ram_view s"
  by (auto simp: defnetloan_def Let_def case_prod_beta split: option.splits if_split_asm dest!: ram_frame)

lemma ram_frame_updaterex [ram_frame]: "updaterex e n s = Inr s' \<Longrightarrow> ram_view s' = ram_view s"
  by (auto simp: updaterex_def Let_def case_prod_beta split: option.splits if_split_asm dest!: ram_frame)

lemma ram_frame_consolidate [ram_frame]: "consolidate e n s = Inr s' \<Longrightarrow> ram_view s' = ram_view s"
  by (auto simp: consolidate_def Let_def case_prod_beta split: option.splits if_split_asm dest!: ram_frame)

lemma ram_frame_mvtosavings [ram_frame]: "mvtosavings e n q s = Inr s' \<Longrightarrow> ram_view s' = ram_view s"
  by (auto simp: mvtosavings_def Let_def case_prod_beta split: option.splits if_split_asm dest!: ram_frame)

lemma ram_frame_mvfrsavings [ram_frame]: "mvfrsavings e n q s = Inr s' \<Longrightarrow> ram_view s' = ram_view s"
  by (auto simp: mvfrsavings_def Let_def case_prod_beta split: option.splits if_split_asm dest!: ram_frame)

lemma ram_frame_setrex [ram_frame]: "setrex e q s = Inr s' \<Longrightarrow> ram_view s' = ram_view s"
  by (auto simp: setrex_def Let_def case_prod_beta split: option.splits if_split_asm dest!: ram_frame)

lemma ram_frame_rexexec [ram_frame]: "rexexec e n m s = Inr s' \<Longrightarrow> ram_view s' = ram_view s"
  by (auto simp: rexexec_def Let_def case_prod_beta split: option.splits if_split_asm dest!: ram_frame)

lemma ram_frame_closerex [ram_frame]: "closerex e n s = Inr s' \<Longrightarrow> ram_view s' = ram_view s"
  by (auto simp: closerex_def Let_def case_prod_beta split: option.splits if_split_asm dest!: ram_frame)

lemma ram_frame_change_delegation [ram_frame]:
  "change_delegation e n r a b s = Inr s' \<Longrightarrow> ram_view s' = ram_view s"
  by (auto simp: change_delegation_def Let_def split: option.splits)

lemma ram_frame_change_totals [ram_frame]:
  "change_totals e n a b s = Inr s' \<Longrightarrow> ram_view s' = ram_view s"
  by (auto simp: change_totals_def dest!: ram_frame staked_resources_bytes intro: ram_view_put_resources)

lemma ram_frame_change_refund [ram_frame]:
  "change_refund e n a b s = Inr (x, y, z, s') \<Longrightarrow> ram_view s' = ram_view s"
  by (auto simp: change_refund_def Let_def case_prod_beta split: option.splits if_split_asm)

lemma ram_view_schedule_refund [simp]: "ram_view (schedule_refund b n s) = ram_view s"
  by (simp add: schedule_refund_def Let_def)

lemma ram_frame_transfer_stake [ram_frame]:
  "transfer_stake e t src n r a b s = Inr s' \<Longrightarrow> ram_view s' = ram_view s"
  by (auto simp: transfer_stake_def Let_def split: if_split_asm dest!: ram_frame)

lemma ram_frame_changebw [ram_frame]:
  "changebw e src r a b t s = Inr s' \<Longrightarrow> ram_view s' = ram_view s"
  by (auto simp: changebw_def Let_def dest!: ram_frame)

lemma ram_view_elected [simp]: "ram_view (update_elected_producers e t s) = ram_view s"
  by (simp add: update_elected_producers_def Let_def)

lemma ram_view_count_block [simp]: "ram_view (count_block n s) = ram_view s"
  by (simp add: count_block_def split: option.splits)

lemma ram_view_close_auction [simp]: "ram_view (close_auction e t s) = ram_view s"
  by (simp add: close_auction_def Let_def split: option.splits)

lemma ram_frame_fill_buckets [ram_frame]:
  "fill_buckets e cs n s = Inr s' \<Longrightarrow> ram_view s' = ram_view s"
  by (auto simp: fill_buckets_def send_inflation_def send_inline_def Let_def split: if_split_asm)

lemma ram_frame_per_vote_share [ram_frame]:
  "per_vote_share ct p x b s = Inr (y, s') \<Longrightarrow> ram_view s' = ram_view s"
  by (auto simp: per_vote_share_def case_prod_beta split: if_split_asm)

lemma ram_frame_pay_producer [ram_frame]:
  "pay_producer e bucket n x m cs s = Inr s' \<Longrightarrow> ram_view s' = ram_view s"
  by (auto simp: pay_producer_def split: if_split_asm)

lemma ram_view_book_claim [simp]: "ram_view (book_claim ct n p b x y z s) = ram_view s"
  by (simp add: book_claim_def Let_def)

lemma ram_frame_refund_outbid [ram_frame]:
  "refund_outbid e cs n b s = Inr s' \<Longrightarrow> ram_view s' = ram_view s"
  by (auto simp: refund_outbid_def Let_def)

lemma ram_frame_claim_name [ram_frame]:
  "claim_name e c n s = Inr s' \<Longrightarrow> ram_view s' = ram_view s"
  by (auto simp: claim_name_def Let_def split: if_split_asm option.splits)

lemma ram_frame_manage_resource [ram_frame]:
  "manage_resource n f q m1 l m2 v s = Inr (x, s') \<Longrightarrow> ram_view s' = ram_view s"
  by (auto simp: manage_resource_def split: option.splits)

lemma ram_frame_newaccount [ram_frame]:
  "newaccount e c n s = Inr s' \<Longrightarrow> ram_view s' = ram_view s"
  by (auto simp: newaccount_def dest!: ram_frame)

lemma ram_frame_delegatebw [ram_frame]: "delegatebw e f r a b t s = Inr s' \<Longrightarrow> ram_view s' = ram_view s"
  by (auto simp: delegatebw_def Let_def case_prod_beta split: option.splits if_split_asm dest!: ram_frame)

lemma ram_frame_undelegatebw [ram_frame]: "undelegatebw e f r a b s = Inr s' \<Longrightarrow> ram_view s' = ram_view s"
  by (auto simp: undelegatebw_def Let_def case_prod_beta split: option.splits if_split_asm dest!: ram_frame)

lemma ram_frame_refund [ram_frame]: "refund e n s = Inr s' \<Longrightarrow> ram_view s' = ram_view s"
  by (auto simp: refund_def Let_def case_prod_beta split: option.splits if_split_asm dest!: ram_frame)

lemma ram_frame_regproducer [ram_frame]: "regproducer e n k u l s = Inr s' \<Longrightarrow> ram_view s' = ram_view s"
  by (auto simp: regproducer_def Let_def case_prod_beta split: option.splits if_split_asm dest!: ram_frame)

lemma ram_frame_unregprod [ram_frame]: "unregprod e n s = Inr s' \<Longrightarrow> ram_view s' = ram_view s"
  by (auto simp: unregprod_def Let_def case_prod_beta split: option.splits if_split_asm dest!: ram_frame)

lemma ram_frame_voteproducer [ram_frame]: "voteproducer e n p ps s = Inr s' \<Longrightarrow> ram_view s' = ram_view s"
  by (auto simp: voteproducer_def Let_def case_prod_beta split: option.splits if_split_asm dest!: ram_frame)

lemma ram_frame_onblock [ram_frame]: "onblock e t n s = Inr s' \<Longrightarrow> ram_view s' = ram_view s"
  by (auto simp: onblock_def Let_def case_prod_beta split: option.splits if_split_asm dest!: ram_frame)

lemma ram_frame_claimrewards [ram_frame]: "claimrewards e n s = Inr s' \<Longrightarrow> ram_view s' = ram_view s"
  by (auto simp: claimrewards_def Let_def case_prod_beta split: option.splits if_split_asm dest!: ram_frame)

lemma ram_frame_bidname [ram_frame]: "bidname e n m q s = Inr s' \<Longrightarrow> ram_view s' = ram_view s"
  by (auto simp: bidname_def Let_def case_prod_beta split: option.splits if_split_asm dest!: ram_frame)

lemma ram_frame_bidrefund [ram_frame]: "bidrefund e n m s = Inr s' \<Longrightarrow> ram_view s' = ram_view s"
  by (auto simp: bidrefund_def Let_def case_prod_beta split: option.splits if_split_asm dest!: ram_frame)

lemma ram_frame_setabi [ram_frame]: "setabi e n abi s = Inr s' \<Longrightarrow> ram_view s' = ram_view s"
  by (auto simp: setabi_def Let_def case_prod_beta split: option.splits if_split_asm dest!: ram_frame)

lemma ram_frame_setparams [ram_frame]: "setparams e p s = Inr s' \<Longrightarrow> ram_view s' = ram_view s"
  by (auto simp: setparams_def Let_def case_prod_beta split: option.splits if_split_asm dest!: ram_frame)

lemma ram_frame_setpriv [ram_frame]: "setpriv e n b s = Inr s' \<Longrightarrow> ram_view s' = ram_view s"
  by (auto simp: setpriv_def Let_def case_prod_beta split: option.splits if_split_asm dest!: ram_frame)

lemma ram_frame_setalimits [ram_frame]: "setalimits e n a b c s = Inr s' \<Longrightarrow> ram_view s' = ram_view s"
  by (auto simp: setalimits_def Let_def case_prod_beta split: option.splits if_split_asm dest!: ram_frame)

lemma ram_frame_setacctram [ram_frame]: "setacctram e n v s = Inr s' \<Longrightarrow> ram_view s' = ram_view s"
  by (auto simp: setacctram_def Let_def case_prod_beta split: option.splits if_split_asm dest!: ram_frame)

lemma ram_frame_setacctnet [ram_frame]: "setacctnet e n v s = Inr s' \<Longrightarrow> ram_view s' = ram_view s"
  by (auto simp: setacctnet_def Let_def case_prod_beta split: option.splits if_split_asm dest!: ram_frame)

lemma ram_frame_setacctcpu [ram_frame]: "setacctcpu e n v s = Inr s' \<Longrightarrow> ram_view s' = ram_view s"
  by (auto simp: setacctcpu_def Let_def case_prod_beta split: option.splits if_split_asm dest!: ram_frame)

lemma ram_frame_rmvproducer [ram_frame]: "rmvproducer e n s = Inr s' \<Longrightarrow> ram_view s' = ram_view s"
  by (auto simp: rmvproducer_def Let_def case_prod_beta split: option.splits if_split_asm dest!: ram_frame)

lemma ram_frame_updtrevision [ram_frame]: "updtrevision e r s = Inr s' \<Longrightarrow> ram_view s' = ram_view s"
  by (auto simp: updtrevision_def Let_def case_prod_beta split: option.splits if_split_asm dest!: ram_frame)

section \<open>The invariant\<close>

definition ram_inv :: "sys \<Rightarrow> bool" where
  "ram_inv s \<longleftrightarrow>
     (\<forall>m. tfind ramcore_symbol (rammarket s) = Some m \<longrightarrow>
        (\<exists>core. market_ok core m) \<and> u64 (base_amount m) = free_ram (gstate s)) \<and>
     total_ram_bytes_reserved (gstate s) = u64 (\<Sum>n\<in>UNIV. ram_of s n) \<and>
     0 \<le> max_ram_size (gstate s) \<and> max_ram_size (gstate s) < 2 ^ 64"

lemma ram_inv_frame: "ram_view s' = ram_view s \<Longrightarrow> ram_inv s' = ram_inv s"
  by (simp add: ram_inv_def ram_view_def free_ram_def)

lemma sum_UNIV_upd:
  "(\<Sum>n\<in>UNIV. (f(k := v)) n) = (\<Sum>n\<in>UNIV. f n) - f (k :: 'a::finite) + (v :: int)"
proof -
  have "(\<Sum>n\<in>UNIV. (f(k := v)) n) = v + (\<Sum>n\<in>UNIV - {k}. (f(k := v)) n)"
    by (subst sum.remove [of UNIV k]) simp_all
  also have "(\<Sum>n\<in>UNIV - {k}. (f(k := v)) n) = (\<Sum>n\<in>UNIV - {k}. f n)"
    by (rule sum.cong) simp_all
  also have "v + (\<Sum>n\<in>UNIV - {k}. f n) = (\<Sum>n\<in>UNIV. f n) - f k + v"
    using sum.remove [of UNIV k f] by simp
  finally show ?thesis .
qed

text \<open>An account's row changes by some bytes: so does the sum.\<close>

lemma ram_of_update:
  "ram_of (s\<lparr>userres := AList.update n r (userres s)\<rparr>) = (ram_of s)(n := ram_bytes r)"
  by (auto simp: ram_of_def fun_eq_iff)

lemma ram_view_split:
  "ram_view s = ram_view s' \<longleftrightarrow> rammarket s = rammarket s' \<and> max_ram_size (gstate s) = max_ram_size (gstate s') \<and>
     total_ram_bytes_reserved (gstate s) = total_ram_bytes_reserved (gstate s') \<and>
     total_ram_stake (gstate s) = total_ram_stake (gstate s') \<and> ram_of s = ram_of s'"
  by (simp add: ram_view_def)

section \<open>Supply\<close>

lemma update_ram_supply_eq_Inr:
  "update_ram_supply e s = Inr s' \<longleftrightarrow>
     (if current_slot e \<le> last_ram_increase (gstate2 s) then s' = s
      else \<exists>s1. grow_market (new_ram (current_slot e) (last_ram_increase (gstate2 s)) (new_ram_per_block (gstate2 s))) s = Inr s1 \<and>
        s' = s1\<lparr>gstate := (gstate s1)\<lparr>max_ram_size := u64 (max_ram_size (gstate s1) +
               new_ram (current_slot e) (last_ram_increase (gstate2 s)) (new_ram_per_block (gstate2 s)))\<rparr>,
             gstate2 := (gstate2 s1)\<lparr>last_ram_increase := current_slot e\<rparr>\<rparr>)"
  by (auto simp: update_ram_supply_def Let_def)

lemma ram_inv_supply:
  assumes "ram_inv s" "grow_market d s = Inr s1" "u64 d = u64 (m' - max_ram_size (gstate s))"
    and "0 \<le> m'" "m' < 2 ^ 64"
  shows "ram_inv (s1\<lparr>gstate := (gstate s1)\<lparr>max_ram_size := m'\<rparr>\<rparr>)"
proof -
  obtain m where m: "tfind ramcore_symbol (rammarket s) = Some m"
    and s1: "s1 = s\<lparr>rammarket := AList.update ramcore_symbol
       (m\<lparr>ex_base := (ex_base m)\<lparr>c_balance := add_amount d (c_balance (ex_base m))\<rparr>\<rparr>) (rammarket s)\<rparr>"
    using assms(2) by (auto simp: grow_market_def tmodify_eq_Inr)
  obtain core where core: "market_ok core m" and base: "u64 (base_amount m) = free_ram (gstate s)"
    using assms(1) m by (auto simp: ram_inv_def)
  have "u64 (base_amount m + d) = u64 (max_ram_size (gstate s) - total_ram_bytes_reserved (gstate s) + d)"
    by (rule u64_shift(1)) (use base in \<open>simp add: free_ram_def\<close>)
  also have "\<dots> = u64 (d + (max_ram_size (gstate s) - total_ram_bytes_reserved (gstate s)))"
    by (simp add: algebra_simps)
  also have "\<dots> = u64 (m' - max_ram_size (gstate s) + (max_ram_size (gstate s) - total_ram_bytes_reserved (gstate s)))"
    by (rule u64_shift(1) [OF assms(3)])
  finally have "u64 (base_amount m + d) = u64 (m' - total_ram_bytes_reserved (gstate s))" by simp
  moreover have "ram_of (s1\<lparr>gstate := g\<rparr>) = ram_of s" for g
    by (simp add: s1 ram_of_def fun_eq_iff)
  moreover have "market_ok core (m\<lparr>ex_base := (ex_base m)\<lparr>c_balance := add_amount d (c_balance (ex_base m))\<rparr>\<rparr>)"
    using core by (simp add: market_ok_def)
  ultimately show ?thesis
    using assms(1,4,5) m by (auto simp: ram_inv_def s1 free_ram_def)
qed

lemma ram_inv_setram: "ram_inv s \<Longrightarrow> setram e m s = Inr s' \<Longrightarrow> ram_inv s'"
  by (auto simp: setram_def ram_inv_def [of s] intro!: ram_inv_supply)

lemma ram_inv_gstate2 [simp]: "ram_inv (s\<lparr>gstate2 := g\<rparr>) = ram_inv s"
  by (rule ram_inv_frame) simp

lemma ram_inv_update_ram_supply:
  assumes "ram_inv s" "update_ram_supply e s = Inr s'"
  shows "ram_inv s'"
proof (cases "current_slot e \<le> last_ram_increase (gstate2 s)")
  case False
  define r where "r = new_ram (current_slot e) (last_ram_increase (gstate2 s)) (new_ram_per_block (gstate2 s))"
  obtain s1 where s1: "grow_market r s = Inr s1"
    and s': "s' = s1\<lparr>gstate := (gstate s1)\<lparr>max_ram_size := u64 (max_ram_size (gstate s1) + r)\<rparr>,
                      gstate2 := (gstate2 s1)\<lparr>last_ram_increase := current_slot e\<rparr>\<rparr>"
    using assms(2) False by (auto simp: update_ram_supply_def Let_def r_def)
  have "gstate s1 = gstate s" using s1 by (auto simp: grow_market_def)
  then have "ram_inv (s1\<lparr>gstate := (gstate s1)\<lparr>max_ram_size := u64 (max_ram_size (gstate s1) + r)\<rparr>\<rparr>)"
    by (intro ram_inv_supply [OF assms(1) s1]) (simp, simp_all add: u64_def)
  then show ?thesis
    unfolding s' by (subst (asm) ram_inv_gstate2 [symmetric]) simp
qed (use assms in \<open>simp add: update_ram_supply_def\<close>)

lemma ram_inv_setramrate: "ram_inv s \<Longrightarrow> setramrate e r s = Inr s' \<Longrightarrow> ram_inv s'"
  by (auto simp: setramrate_def intro: ram_inv_update_ram_supply)

section \<open>Trade\<close>

lemma convert_market_eq_Inr:
  "convert_market e q to err s = Inr (out, s') \<longleftrightarrow>
     (\<exists>m m'. tfind ramcore_symbol (rammarket s) = Some m \<and> convert e m q to = Inr (m', out) \<and>
        s' = s\<lparr>rammarket := AList.update ramcore_symbol m' (rammarket s)\<rparr>)"
  by (auto simp: convert_market_def split: option.splits)

text \<open>Bytes move from the market to an account, or back when \<open>b\<close> is negative.\<close>

lemma ram_inv_trade:
  assumes inv: "ram_inv s" and m: "tfind ramcore_symbol (rammarket s) = Some m"
    and m': "market_ok core m'" "base_amount m' = i64 (base_amount m - b)"
    and s': "rammarket s' = AList.update ramcore_symbol m' (rammarket s)"
      "max_ram_size (gstate s') = max_ram_size (gstate s)"
      "total_ram_bytes_reserved (gstate s') = u64 (total_ram_bytes_reserved (gstate s) + b)"
      "ram_of s' = (ram_of s)(n := x)" "u64 x = u64 (ram_of s n + b)"
  shows "ram_inv s'"
proof -
  have "u64 (base_amount m - b) = u64 (free_ram (gstate s) - b)"
    using inv m by (intro u64_shift(2)) (auto simp: ram_inv_def free_ram_def)
  then have base: "u64 (base_amount m') = free_ram (gstate s')"
    using m'(2) s'(2,3) by (simp add: free_ram_def diff_diff_eq)
  have "(\<Sum>n\<in>UNIV. ram_of s' n) = x + ((\<Sum>n\<in>UNIV. ram_of s n) - ram_of s n)"
    unfolding s'(4) sum_UNIV_upd by simp
  then have "u64 (\<Sum>n\<in>UNIV. ram_of s' n) = u64 ((ram_of s n + b) + ((\<Sum>n\<in>UNIV. ram_of s n) - ram_of s n))"
    using u64_shift(1) [OF s'(5)] by simp
  also have "\<dots> = u64 (u64 (\<Sum>n\<in>UNIV. ram_of s n) + b)"
    by (simp add: algebra_simps)
  finally have "total_ram_bytes_reserved (gstate s') = u64 (\<Sum>n\<in>UNIV. ram_of s' n)"
    using inv s'(3) by (simp add: ram_inv_def)
  moreover have "0 \<le> max_ram_size (gstate s') \<and> max_ram_size (gstate s') < 2 ^ 64"
    using inv s'(2) by (simp add: ram_inv_def)
  ultimately show ?thesis using base m'(1) s'(1) by (auto simp: ram_inv_def)
qed

lemma core_symbol_market:
  "core_symbol s = Inr cs \<Longrightarrow> ram_inv s \<Longrightarrow> tfind ramcore_symbol (rammarket s) = Some m \<Longrightarrow> market_ok cs m"
  by (auto simp: core_symbol_eq_Inr ram_inv_def market_ok_def)

lemma ram_frame_set_ram_limit [ram_frame]:
  "set_ram_limit n b s = Inr s' \<Longrightarrow> ram_view s' = ram_view s"
  by (auto simp: set_ram_limit_def split: if_split_asm dest!: ram_frame)

definition credited_row :: "symbol \<Rightarrow> name \<Rightarrow> int \<Rightarrow> sys \<Rightarrow> user_resources" where
  "credited_row cs n b s =
     (case tfind n (userres s) of
        None \<Rightarrow> \<lparr>net_weight = mk_asset 0 cs, cpu_weight = mk_asset 0 cs, ram_bytes = b\<rparr>
      | Some r \<Rightarrow> r\<lparr>ram_bytes := i64 (ram_bytes r + b)\<rparr>)"

lemma credit_ram_view:
  assumes "credit_ram n b s = Inr s'"
  obtains x where "rammarket s' = rammarket s" "max_ram_size (gstate s') = max_ram_size (gstate s)"
    "total_ram_bytes_reserved (gstate s') = total_ram_bytes_reserved (gstate s)"
    "total_ram_stake (gstate s') = total_ram_stake (gstate s)"
    "ram_of s' = (ram_of s)(n := x)" "u64 x = u64 (ram_of s n + b)"
    "x = ram_of s n + b \<or> x = i64 (ram_of s n + b)"
proof -
  obtain cs where "set_ram_limit n (ram_bytes (credited_row cs n b s))
      (s\<lparr>userres := AList.update n (credited_row cs n b s) (userres s)\<rparr>) = Inr s'"
    using assms unfolding credit_ram_def credited_row_def [symmetric] Let_def by auto
  then have v: "ram_view s' = ram_view (s\<lparr>userres := AList.update n (credited_row cs n b s) (userres s)\<rparr>)"
    by (rule ram_frame_set_ram_limit)
  have r: "u64 (ram_bytes (credited_row cs n b s)) = u64 (ram_of s n + b)"
    and x: "ram_bytes (credited_row cs n b s) = ram_of s n + b \<or> ram_bytes (credited_row cs n b s) = i64 (ram_of s n + b)"
    by (auto simp: credited_row_def ram_of_def split: option.splits)
  show ?thesis
    by (rule that [of "ram_bytes (credited_row cs n b s)"])
      (use r x v in \<open>simp_all add: ram_view_split ram_of_update\<close>)
qed

lemma core_symbol_view: "ram_view s' = ram_view s \<Longrightarrow> core_symbol s' = core_symbol s"
  by (simp add: core_symbol_def ram_view_split)

lemma ram_inv_bought:
  assumes inv: "ram_inv s" and cs: "core_symbol s = Inr (symbol q)"
    and conv: "convert_market e q ram_symbol err s = Inr (out, s1)"
    and cred: "credit_ram n (amount out) (s1\<lparr>gstate := (gstate s1)\<lparr>
        total_ram_bytes_reserved := u64 (total_ram_bytes_reserved (gstate s1) + amount out), total_ram_stake := x\<rparr>\<rparr>) = Inr s'"
  shows "ram_inv s'"
proof -
  obtain m m' where m: "tfind ramcore_symbol (rammarket s) = Some m" "convert e m q ram_symbol = Inr (m', out)"
    and s1: "s1 = s\<lparr>rammarket := AList.update ramcore_symbol m' (rammarket s)\<rparr>"
    using conv by (auto simp: convert_market_eq_Inr)
  note c = convert_buy [OF core_symbol_market [OF cs inv m(1)] refl m(2)]
  have s1_of: "ram_of (s1\<lparr>gstate := g\<rparr>) = ram_of s" for g
    by (simp add: s1 ram_of_def fun_eq_iff)
  from cred obtain y where "ram_of s' = (ram_of s)(n := y)" "u64 y = u64 (ram_of s n + amount out)"
    "rammarket s' = rammarket s1" "max_ram_size (gstate s') = max_ram_size (gstate s1)"
    "total_ram_bytes_reserved (gstate s') = u64 (total_ram_bytes_reserved (gstate s1) + amount out)"
    by (rule credit_ram_view) (simp add: s1_of)
  then show ?thesis
    by (intro ram_inv_trade [OF inv m(1) c(2,3), where n = n and x = y]) (simp_all add: s1)
qed

lemma buyram_parts:
  assumes "update_ram_supply e s0 = Inr s" "buyram e payer receiver quant s0 = Inr s'"
  shows "\<exists>s2 q err s3 out x. ram_view s2 = ram_view s \<and> q = add_amount (- ram_fee (amount quant)) quant \<and>
    core_symbol s2 = Inr (symbol q) \<and> 0 < amount out \<and>
    convert_market e q ram_symbol err s2 = Inr (out, s3) \<and>
    credit_ram receiver (amount out) (s3\<lparr>gstate := (gstate s3)\<lparr>
        total_ram_bytes_reserved := u64 (total_ram_bytes_reserved (gstate s3) + amount out), total_ram_stake := x\<rparr>\<rparr>) = Inr s'"
proof -
  define fee where "fee = set_amount (ram_fee (amount quant)) quant"
  define q where "q = add_amount (- amount fee) quant"
  define s1 where "s1 = send_inline (send_transfer [payer, ram_account] payer ram_account q ''buy ram'') s"
  define s2 where "s2 = (if 0 < amount fee
      then channel_to_rex e ramfee_account fee
             (send_inline (send_transfer [payer] payer ramfee_account fee ''ram fee'') s1) else s1)"
  have v: "ram_view s2 = ram_view s" by (simp add: s2_def s1_def)
  have cs: "core_symbol s2 = Inr (symbol q)"
    using assms(2) unfolding core_symbol_view [OF v] by (auto simp: buyram_def assms(1) q_def)
  then have cs': "core_symbol s = Inr (symbol quant)"
    unfolding core_symbol_view [OF v] by (simp add: q_def)
  have "ebind (convert_market e q ram_symbol (Check ''ram market does not exist'') s2) (\<lambda>(out, s3).
          check (0 < amount out) ''must reserve a positive amount''
          (credit_ram receiver (amount out)
             (s3\<lparr>gstate := (gstate s3)\<lparr>
                    total_ram_bytes_reserved := u64 (total_ram_bytes_reserved (gstate s3) + amount out),
                    total_ram_stake := i64 (total_ram_stake (gstate s3) + amount q)\<rparr>\<rparr>))) = Inr s'"
    using assms(2)
    unfolding buyram_def assms(1) cs' ebind_simps Let_def fee_def [symmetric] q_def [symmetric]
      s1_def [symmetric] s2_def [symmetric] require_auth_eq_Inr check_eq_Inr
    by blast
  then obtain out s3 where out: "0 < amount out"
    and conv: "convert_market e q ram_symbol (Check ''ram market does not exist'') s2 = Inr (out, s3)"
    and cred: "credit_ram receiver (amount out)
             (s3\<lparr>gstate := (gstate s3)\<lparr>
                    total_ram_bytes_reserved := u64 (total_ram_bytes_reserved (gstate s3) + amount out),
                    total_ram_stake := i64 (total_ram_stake (gstate s3) + amount q)\<rparr>\<rparr>) = Inr s'"
    by auto
  have "q = add_amount (- ram_fee (amount quant)) quant" by (simp add: q_def fee_def)
  with v cs out conv cred show ?thesis by blast
qed

lemma ram_inv_buyram:
  assumes "ram_inv s0" "buyram e payer receiver quant s0 = Inr s'"
  shows "ram_inv s'"
proof -
  obtain s where s: "update_ram_supply e s0 = Inr s"
    using assms(2) by (auto simp: buyram_def)
  have "ram_inv s" using ram_inv_update_ram_supply [OF assms(1) s] .
  with buyram_parts [OF s assms(2)] show ?thesis
    by (metis ram_inv_bought ram_inv_frame)
qed

lemma ram_inv_buyrambytes:
  "ram_inv s \<Longrightarrow> buyrambytes e payer receiver b s = Inr s' \<Longrightarrow> ram_inv s'"
  by (auto simp: buyrambytes_def split: option.splits dest: ram_inv_buyram)

lemma ram_inv_sold:
  assumes inv: "ram_inv s" and cs: "core_symbol s = Inr cs" and r: "tfind n (userres s) = Some r"
    and conv: "convert_market e (mk_asset b ram_symbol) cs err s = Inr (out, s1)"
  shows "ram_inv (s1\<lparr>gstate := (gstate s1)\<lparr>
            total_ram_bytes_reserved := u64 (total_ram_bytes_reserved (gstate s1) - b), total_ram_stake := x\<rparr>,
          userres := AList.update n (r\<lparr>ram_bytes := i64 (ram_bytes r - b)\<rparr>) (userres s1)\<rparr>)"
    (is "ram_inv ?s2")
proof -
  obtain m m' where m: "tfind ramcore_symbol (rammarket s) = Some m" "convert e m (mk_asset b ram_symbol) cs = Inr (m', out)"
    and s1: "s1 = s\<lparr>rammarket := AList.update ramcore_symbol m' (rammarket s)\<rparr>"
    using conv by (auto simp: convert_market_eq_Inr)
  have ok: "market_ok cs m" using cs inv m(1) by (rule core_symbol_market)
  have c: "market_ok cs m'" "base_amount m' = i64 (base_amount m - (- b))"
    using convert_sell [OF ok _ m(2)] by simp_all
  show ?thesis
    by (rule ram_inv_trade [OF inv m(1) c, where n = n and x = "i64 (ram_bytes r - b)"])
      (auto simp: s1 ram_of_def r fun_eq_iff)
qed

lemma ram_inv_sellram:
  assumes "ram_inv s0" "sellram e n b s0 = Inr s'"
  shows "ram_inv s'"
proof -
  obtain s where s: "update_ram_supply e s0 = Inr s"
    using assms(2) by (auto simp: sellram_def)
  have inv: "ram_inv s" using assms(1) s by (rule ram_inv_update_ram_supply)
  obtain r where r: "tfind n (userres s) = Some r"
    using assms(2) s by (auto simp: sellram_def split: option.splits)
  obtain cs sold out s1 s2 where cs: "core_symbol s = Inr cs"
    and conv: "convert_market e (mk_asset b ram_symbol) cs MissingRow s = Inr (out, s1)"
    and "set_ram_limit n (i64 (ram_bytes r - b)) (s1\<lparr>gstate := (gstate s1)\<lparr>
            total_ram_bytes_reserved := u64 (total_ram_bytes_reserved (gstate s1) - b),
            total_ram_stake := i64 (total_ram_stake (gstate s1) - amount out)\<rparr>,
          userres := AList.update n (r\<lparr>ram_bytes := i64 (ram_bytes r - b)\<rparr>) (userres s1)\<rparr>) = Inr s2"
    and "ram_view s' = ram_view s2"
    using assms(2) by (fastforce simp: sellram_def s r Let_def split: if_split_asm)
  then show ?thesis
    using ram_inv_sold [OF inv cs r conv] by (metis ram_frame_set_ram_limit ram_inv_frame)
qed

section \<open>Initialisation and all reachable states\<close>

lemma ram_inv_init:
  assumes "ram_inv s" "init e version core s = Inr s'" "core \<noteq> ram_symbol" "core \<noteq> ramcore_symbol"
  shows "ram_inv s'"
proof -
  obtain q where q: "tfind ramcore_symbol (rammarket s) = None"
    and s': "ram_view s' = ram_view (s\<lparr>rammarket := (ramcore_symbol, initial_market (gstate s) q core) # rammarket s\<rparr>)"
    using assms(2) by (auto simp: init_def)
  have "market_ok core (initial_market (gstate s) q core)"
    using assms(3,4) by (simp add: market_ok_def initial_market_def)
  moreover have "u64 (base_amount (initial_market (gstate s) q core)) = free_ram (gstate s)"
    by (simp add: initial_market_def free_ram_def)
  moreover have "ram_of (s\<lparr>rammarket := t\<rparr>) = ram_of s" for t
    by (simp add: ram_of_def fun_eq_iff)
  ultimately show ?thesis
    using assms(1) unfolding ram_inv_frame [OF s'] by (auto simp: ram_inv_def)
qed

lemma ram_inv_apply:
  assumes "ram_inv s" "action_ok a" "sys_apply e a s = Inr s'"
  shows "ram_inv s'"
  using assms
  by (cases a)
    (auto simp: action_ok_def dest!: ram_frame dest: ram_inv_frame ram_inv_init ram_inv_setram ram_inv_setramrate
      ram_inv_buyram ram_inv_buyrambytes ram_inv_sellram)

lemma ram_inv_genesis: "ram_inv (genesis t p l)"
  by (simp add: ram_inv_def genesis_def default_global_state_def ram_of_def u64_def)

lemma ram_inv_reachable: "sys_reachable s \<Longrightarrow> ram_inv s"
proof (induction rule: sys_reachable.induct)
  case (action s e a s')
  then obtain s1 t where s1: "sys_apply e a (s\<lparr>outbox := []\<rparr>) = Inr s1" and s': "s' = s1\<lparr>tokens := t, outbox := []\<rparr>"
    by (auto simp: sys_transact_eq_Inr)
  have "ram_inv (s\<lparr>outbox := []\<rparr>)"
    using action.IH ram_inv_frame [of "s\<lparr>outbox := []\<rparr>" s] by simp
  then have "ram_inv s1" using action.hyps(4) s1 by (rule ram_inv_apply)
  then show ?case
    using ram_inv_frame [of s' s1] s' by simp
next
  case (token s e a s')
  then obtain t where "s' = s\<lparr>tokens := t\<rparr>" by (auto simp: user_token_transact_eq_Inr)
  then have "ram_view s' = ram_view s" by simp
  with token.IH show ?case using ram_inv_frame by blast
next
  case (account s n)
  have "ram_view (new_limits n s) = ram_view s" by (simp add: new_limits_def)
  with account.IH show ?case using ram_inv_frame by blast
qed (rule ram_inv_genesis)

section \<open>Properties\<close>

text \<open>
  C6. RAM is conserved, in the arithmetic of its 64-bit counters. In every reachable state with a
  RAM market, the bytes the market offers plus the reserved bytes are the supply modulo
  \<open>2 ^ 64\<close>, and the reserved bytes are the sum of the bytes of all accounts modulo
  \<open>2 ^ 64\<close>, whatever prices the doubles yield. The equations are exact as long as the market
  offers between zero bytes and the supply, and the accounts' bytes fit the counter; the contract
  leaves it to the price function that a purchase never takes more bytes than the market has.
\<close>

theorem ram_conservation:
  assumes "sys_reachable s" and "tfind ramcore_symbol (rammarket s) = Some m"
  shows "u64 (base_amount m + total_ram_bytes_reserved (gstate s)) = max_ram_size (gstate s) \<and>
    total_ram_bytes_reserved (gstate s) = u64 (\<Sum>n\<in>UNIV. ram_of s n) \<and>
    (0 \<le> base_amount m \<and> base_amount m \<le> max_ram_size (gstate s) \<longrightarrow>
       base_amount m + total_ram_bytes_reserved (gstate s) = max_ram_size (gstate s)) \<and>
    ((\<Sum>n\<in>UNIV. ram_of s n) \<in> {0..<2 ^ 64} \<longrightarrow> total_ram_bytes_reserved (gstate s) = (\<Sum>n\<in>UNIV. ram_of s n))"
proof -
  define b r x where "b = base_amount m" and "r = total_ram_bytes_reserved (gstate s)" and "x = max_ram_size (gstate s)"
  have inv: "u64 b = u64 (x - r)" "r = u64 (\<Sum>n\<in>UNIV. ram_of s n)" "0 \<le> x" "x < 2 ^ 64"
    using ram_inv_reachable [OF assms(1)] assms(2) by (auto simp: ram_inv_def b_def r_def x_def free_ram_def)
  have whole: "u64 (b + r) = x" using u64_shift(1) [OF inv(1), of r] inv(3,4) by (simp add: u64_id)
  have r: "u64 r = r" using inv(2) by simp
  have "u64 (b + r) = u64 x" using whole inv(3,4) by (simp add: u64_id)
  from u64_shift(1) [OF this, of "- b"] have "r = u64 (x - b)" by (simp add: r)
  then have "b + r = x" if "0 \<le> b" "b \<le> x" using inv(4) that by (simp add: u64_id)
  with whole inv(2) show ?thesis by (auto simp: b_def r_def x_def u64_id)
qed

text \<open>
  C26. The fee of a trade is half a percent rounded up: at least one two-hundredth of the amount,
  less than that plus one unit, positive, and never more than the amount itself; so the amount
  after the fee is not negative and the two parts add up to what was paid.
\<close>

theorem ram_fee_bounds:
  assumes "0 < x" "x < 2 ^ 62"
  shows "0 < ram_fee x \<and> ram_fee x \<le> x \<and> x \<le> 200 * ram_fee x \<and> 200 * ram_fee x < x + 200"
proof -
  have fee: "ram_fee x = (x + 199) div 200"
    using assms by (simp add: ram_fee_def i64_id tdiv_pos)
  show ?thesis
    unfolding fee using assms(1) by linarith
qed

theorem ram_fee_bounds_witness: "0 < ram_fee 1000 \<and> 200 * ram_fee 1000 < 1200"
  using ram_fee_bounds [of 1000] by simp

text \<open>
  C27. Buying RAM moves bytes and nothing else. When it succeeds, in a state whose RAM books balance
  as they do in all reachable states, the supply has first been brought up to date (\<open>update_ram_supply\<close>, which changes neither quotas nor reserved bytes). Then
  a positive number of bytes leaves the market's base connector and exactly that number is added
  to the receiver's row and to the reserved total, each with the wrap-around of its 64-bit counter,
  the payment less the fee enters the quote connector, and no other account's bytes change. The
  receiver's bytes grow by exactly that number if the result is a 64-bit integer.
\<close>

theorem buyram_moves_bytes:
  assumes "ram_inv s" "buyram e payer receiver quant s = Inr s'"
  shows "\<exists>s0 out m m'. update_ram_supply e s = Inr s0 \<and> 0 < out \<and>
    tfind ramcore_symbol (rammarket s0) = Some m \<and> tfind ramcore_symbol (rammarket s') = Some m' \<and>
    base_amount m' = i64 (base_amount m - out) \<and>
    quote_amount m' = i64 (quote_amount m + (amount quant - ram_fee (amount quant))) \<and>
    max_ram_size (gstate s') = max_ram_size (gstate s0) \<and>
    total_ram_bytes_reserved (gstate s') = u64 (total_ram_bytes_reserved (gstate s) + out) \<and>
    u64 (ram_of s' receiver) = u64 (ram_of s receiver + out) \<and>
    (\<bar>ram_of s receiver + out\<bar> < 2 ^ 63 \<longrightarrow> ram_of s' receiver = ram_of s receiver + out) \<and>
    (\<forall>n. n \<noteq> receiver \<longrightarrow> ram_of s' n = ram_of s n)"
proof -
  obtain s0 where s0: "update_ram_supply e s = Inr s0" using assms(2) by (auto simp: buyram_def)
  have same: "ram_of s0 = ram_of s" "total_ram_bytes_reserved (gstate s0) = total_ram_bytes_reserved (gstate s)"
    using s0 by (auto simp: update_ram_supply_eq_Inr grow_market_def ram_of_def fun_eq_iff split: if_split_asm)
  obtain s2 q err s3 out x where s2: "ram_view s2 = ram_view s0" and q: "q = add_amount (- ram_fee (amount quant)) quant"
    and cs: "core_symbol s2 = Inr (symbol q)" and out: "0 < amount out"
    and conv: "convert_market e q ram_symbol err s2 = Inr (out, s3)"
    and cred: "credit_ram receiver (amount out) (s3\<lparr>gstate := (gstate s3)\<lparr>
        total_ram_bytes_reserved := u64 (total_ram_bytes_reserved (gstate s3) + amount out), total_ram_stake := x\<rparr>\<rparr>) = Inr s'"
    using buyram_parts [OF s0 assms(2)] by (elim exE conjE) (rule that)
  have inv: "ram_inv s2" using ram_inv_update_ram_supply [OF assms(1) s0] ram_inv_frame [OF s2] by simp
  obtain m m' where m: "tfind ramcore_symbol (rammarket s2) = Some m" "convert e m q ram_symbol = Inr (m', out)"
    and s3: "s3 = s2\<lparr>rammarket := AList.update ramcore_symbol m' (rammarket s2)\<rparr>"
    using conv by (auto simp: convert_market_eq_Inr)
  note c = convert_buy [OF core_symbol_market [OF cs inv m(1)] refl m(2)]
  have "ram_of (s3\<lparr>gstate := g\<rparr>) = ram_of s" for g
    using s2 same(1) by (simp add: s3 ram_view_split) (simp add: ram_of_def fun_eq_iff)
  with cred obtain y where y: "ram_of s' = (ram_of s)(receiver := y)" "u64 y = u64 (ram_of s receiver + amount out)"
    "y = ram_of s receiver + amount out \<or> y = i64 (ram_of s receiver + amount out)"
    "rammarket s' = rammarket s3" "max_ram_size (gstate s') = max_ram_size (gstate s3)"
    "total_ram_bytes_reserved (gstate s') = u64 (total_ram_bytes_reserved (gstate s3) + amount out)"
    by (elim credit_ram_view) auto
  have "y = ram_of s receiver + amount out" if "\<bar>ram_of s receiver + amount out\<bar> < 2 ^ 63"
    using y(3) i64_small [OF that] by metis
  then show ?thesis
    using m(1) s2 c(3,4) out s0 same y(1,2,4-6)
    by (intro exI [of _ s0] exI [of _ "amount out"] exI [of _ m] exI [of _ m']) (simp add: s3 ram_view_split q)
qed

text \<open>
  C39. How the supply of RAM grows. Once per block slot \<open>update_ram_supply\<close> adds the rate
  times the elapsed slots, computed in 32 bits, to the supply and to the market's base connector
  alike, and notes the slot; it leaves the quote connector and the reserved bytes alone, and
  doing it again in the same slot changes nothing. The product is exact below \<open>2 ^ 32\<close>; beyond
  that it wraps around, and less RAM is added than the elapsed slots are worth.
\<close>

theorem ram_supply_grows:
  assumes "update_ram_supply e s = Inr s'" "last_ram_increase (gstate2 s) < current_slot e"
    and "0 \<le> last_ram_increase (gstate2 s)" "current_slot e < 2 ^ 32" "0 \<le> new_ram_per_block (gstate2 s)"
  shows "let due = (current_slot e - last_ram_increase (gstate2 s)) * new_ram_per_block (gstate2 s); grown = due mod 2 ^ 32
    in (\<exists>m m'. tfind ramcore_symbol (rammarket s) = Some m \<and> tfind ramcore_symbol (rammarket s') = Some m' \<and>
         base_amount m' = i64 (base_amount m + grown) \<and> quote_amount m' = quote_amount m) \<and>
       max_ram_size (gstate s') = u64 (max_ram_size (gstate s) + grown) \<and>
       total_ram_bytes_reserved (gstate s') = total_ram_bytes_reserved (gstate s) \<and>
       last_ram_increase (gstate2 s') = current_slot e \<and>
       update_ram_supply e s' = Inr s' \<and>
       (due < 2 ^ 32 \<longrightarrow> grown = due) \<and> (2 ^ 32 \<le> due \<longrightarrow> grown < due)"
proof -
  define due where "due = (current_slot e - last_ram_increase (gstate2 s)) * new_ram_per_block (gstate2 s)"
  have new: "new_ram (current_slot e) (last_ram_increase (gstate2 s)) (new_ram_per_block (gstate2 s)) = due mod 2 ^ 32"
    using assms(2-4) by (simp add: new_ram_def u32_def due_def)
  have due: "0 \<le> due" using assms(2,5) by (simp add: due_def)
  then have wrap: "due < 2 ^ 32 \<longrightarrow> due mod 2 ^ 32 = due" "2 ^ 32 \<le> due \<longrightarrow> due mod 2 ^ 32 < due"
    using pos_mod_bound [of "2 ^ 32" due] by (auto intro: less_le_trans)
  obtain s1 where s1: "grow_market (due mod 2 ^ 32) s = Inr s1"
    and s': "s' = s1\<lparr>gstate := (gstate s1)\<lparr>max_ram_size := u64 (max_ram_size (gstate s1) + due mod 2 ^ 32)\<rparr>,
      gstate2 := (gstate2 s1)\<lparr>last_ram_increase := current_slot e\<rparr>\<rparr>"
    using assms(1,2) unfolding update_ram_supply_eq_Inr new by auto
  have "update_ram_supply e s' = Inr s'" unfolding update_ram_supply_eq_Inr s' by simp
  moreover obtain m where "tfind ramcore_symbol (rammarket s) = Some m" "gstate s1 = gstate s"
    "tfind ramcore_symbol (rammarket s1) =
       Some (m\<lparr>ex_base := (ex_base m)\<lparr>c_balance := add_amount (due mod 2 ^ 32) (c_balance (ex_base m))\<rparr>\<rparr>)"
    using s1 by (auto simp: grow_market_def tmodify_eq_Inr update_conv')
  ultimately show ?thesis
    using wrap unfolding Let_def due_def [symmetric] by (simp add: s')
qed

text \<open>A hundred slots later the supply has grown; after \<open>2 ^ 20\<close> slots at 4096 bytes each it has not.\<close>

definition demo_growing :: "int \<Rightarrow> sys" where
  "demo_growing rate = demo_ready\<lparr>gstate2 := (gstate2 demo_ready)\<lparr>new_ram_per_block := rate\<rparr>\<rparr>"

lemma demo_grows:
  "\<exists>s'. update_ram_supply (demo_sys_env [] 946684850000000) (demo_growing 1024) = Inr s'"
  "\<exists>s'. update_ram_supply (demo_sys_env [] 947209088000000) (demo_growing 4096) = Inr s'"
proof -
  have "case update_ram_supply (demo_sys_env [] 946684850000000) (demo_growing 1024) of Inl _ \<Rightarrow> False | Inr _ \<Rightarrow> True"
    "case update_ram_supply (demo_sys_env [] 947209088000000) (demo_growing 4096) of Inl _ \<Rightarrow> False | Inr _ \<Rightarrow> True"
    by code_simp+
  then show "\<exists>s'. update_ram_supply (demo_sys_env [] 946684850000000) (demo_growing 1024) = Inr s'"
    "\<exists>s'. update_ram_supply (demo_sys_env [] 947209088000000) (demo_growing 4096) = Inr s'"
    by (auto split: sum.splits)
qed

theorem ram_supply_grows_witness:
  "(\<exists>s'. update_ram_supply (demo_sys_env [] 946684850000000) (demo_growing 1024) = Inr s' \<and>
     max_ram_size (gstate s') = 68719476736 + 102400 \<and> last_ram_increase (gstate2 s') = 100) \<and>
   (\<exists>s'. update_ram_supply (demo_sys_env [] 947209088000000) (demo_growing 4096) = Inr s' \<and>
     max_ram_size (gstate s') = 68719476736 \<and> last_ram_increase (gstate2 s') = 2 ^ 20)"
proof -
  have slot: "current_slot (demo_sys_env [] 946684850000000) = 100" "current_slot (demo_sys_env [] 947209088000000) = 2 ^ 20"
    by (simp_all add: demo_sys_env_def env.defs ref_env_def)
  have g: "last_ram_increase (gstate2 (demo_growing r)) = 0" "new_ram_per_block (gstate2 (demo_growing r)) = r"
    "max_ram_size (gstate (demo_growing r)) = 68719476736" for r
    by (simp_all add: demo_growing_def demo_ready_def demo_genesis_def genesis_def default_global_state_def
        default_global_state2_def)
  obtain s1 s2 where s: "update_ram_supply (demo_sys_env [] 946684850000000) (demo_growing 1024) = Inr s1"
    "update_ram_supply (demo_sys_env [] 947209088000000) (demo_growing 4096) = Inr s2"
    using demo_grows by blast
  show ?thesis
    using ram_supply_grows [OF s(1)] ram_supply_grows [OF s(2)] s by (simp add: slot g Let_def u64_id)
qed

text \<open>A trade on the example chain: alice buys RAM for a hundred tokens.\<close>

definition demo_traded :: sys where
  "demo_traded = demo_ready\<lparr>
     tokens := rich_tokens\<lparr>accounts :=
       [((ramfee_account, 5459781), eos 5000), ((ram_account, 5459781), eos 995000),
        ((rex_account, 5459781), eos 0), ((alice, 5459781), eos 9999999000000),
        ((eosio_account, 5459781), eos 0)]\<rparr>,
     rammarket := [(ramcore_symbol, demo_market\<lparr>
       ex_base := \<lparr>c_balance = mk_asset 68712639829 ram_symbol, c_weight = Fin (1 / 2)\<rparr>,
       ex_quote := \<lparr>c_balance = mk_asset 10000995000 eos_symbol, c_weight = Fin (1 / 2)\<rparr>\<rparr>)],
     gstate := (gstate demo_ready)\<lparr>total_ram_bytes_reserved := 6836907, total_ram_stake := 995000\<rparr>,
     userres := [(alice, \<lparr>net_weight = eos 0, cpu_weight = eos 0, ram_bytes = 6836907\<rparr>)],
     limits := [(eosio_account, -1, -1, -1), (alice, 6838307, 0, 0), (bob, 0, 0, 0)]\<rparr>"
lemma demo_buyram:
  "sys_transact (demo_sys_env [alice] 0) (A_buyram alice alice (eos 1000000)) demo_ready = Inr demo_traded"
  by code_simp

lemma demo_traded_reachable: "sys_reachable demo_traded"
  by (rule sys_reachable.action [OF demo_ready_reachable sys_env_ok_demo _ _ demo_buyram])
    (simp_all add: not_signed_by_rex_demo action_ok_def asset_typed_def eos_def account_defs example_defs)

theorem ram_conservation_witness:
  "68712639829 + total_ram_bytes_reserved (gstate demo_traded) = max_ram_size (gstate demo_traded) \<and>
   total_ram_bytes_reserved (gstate demo_traded) = u64 (\<Sum>n\<in>UNIV. ram_of demo_traded n)"
  using ram_conservation [OF demo_traded_reachable]
  by (simp add: demo_traded_def demo_ready_def demo_genesis_def genesis_def default_global_state_def)

lemma demo_buyram_apply:
  "buyram (demo_sys_env [alice] 0) alice alice (eos 1000000) demo_ready =
     Inr (demo_traded\<lparr>tokens := tokens demo_ready, outbox :=
       [send_transfer [alice, ram_account] alice ram_account (eos 995000) ''buy ram'',
        send_transfer [alice] alice ramfee_account (eos 5000) ''ram fee'']\<rparr>)"
  by code_simp

theorem buyram_moves_bytes_witness:
  "\<exists>out. 0 < out \<and> u64 (ram_of demo_traded alice) = u64 (ram_of demo_ready alice + out)"
  using buyram_moves_bytes [OF ram_inv_reachable [OF demo_ready_reachable] demo_buyram_apply] by (auto simp: ram_of_def)

end
