(* ===== verification/Rex_Ledger.thy ===== *)
theory Rex_Ledger
  imports Rex_Facts Rex_Buckets Footprint Ram_Conservation
begin

text \<open>
  What \<open>eosio.rex\<close> owes. The system contract keeps the tokens of all users of the resource
  exchange on one account: the users' funds, the lendable tokens of the pool, the balances of
  the loans, and the proceeds of filled orders that are not collected yet. \<open>owed\<close> adds them
  up, \<open>rex_ok\<close> is the invariant of the tables behind it.

  An action moves tokens between these parts step by step, and between two steps some tokens
  are in hand: taken out of one part and not yet put into the next. \<open>rex_step\<close> relates the
  states before and after such a step. It says that what is owed, together with what is in
  hand, grows by no more than what the step tells the token contract to pay in. It composes,
  so an action is the composition of its steps.
\<close>

section \<open>The parts\<close>

definition fund_of :: "sys \<Rightarrow> name \<Rightarrow> int" where
  "fund_of s n = (case tfind n (rexfunds s) of None \<Rightarrow> 0 | Some a \<Rightarrow> amount a)"

definition held_of :: "sys \<Rightarrow> name \<Rightarrow> int" where
  "held_of s n = (case tfind n (rexbalance s) of None \<Rightarrow> 0 | Some rb \<Rightarrow> amount (rex_held rb))"

definition matured_of :: "sys \<Rightarrow> name \<Rightarrow> int" where
  "matured_of s n = (case tfind n (rexbalance s) of None \<Rightarrow> 0 | Some rb \<Rightarrow> matured_rex rb)"

definition proceeds_of :: "sys \<Rightarrow> name \<Rightarrow> int" where
  "proceeds_of s n = (case tfind n (rexorders s) of None \<Rightarrow> 0 | Some r \<Rightarrow> amount (order_proceeds r))"

definition loan_sum :: "(int, rex_loan) table \<Rightarrow> int" where
  "loan_sum t = tsum (\<lambda>_ l. amount (loan_balance l)) t"

definition lendable :: "sys \<Rightarrow> int" where
  "lendable s = (case rexpool s of None \<Rightarrow> 0 | Some p \<Rightarrow> amount (total_lendable p))"

definition rex_units :: "sys \<Rightarrow> int" where
  "rex_units s = (case rexpool s of None \<Rightarrow> 0 | Some p \<Rightarrow> amount (total_rex p))"

definition owed :: "sys \<Rightarrow> int" where
  "owed s = (\<Sum>n\<in>UNIV. fund_of s n) + lendable s + (loan_sum (cpuloans s) + loan_sum (netloans s)) +
     (\<Sum>n\<in>UNIV. proceeds_of s n)"

section \<open>The invariant of the tables\<close>

definition balance_ok :: "rex_balance \<Rightarrow> bool" where
  "balance_ok rb \<longleftrightarrow> buckets_ok rb \<and> amount (rex_held rb) = rex_in rb"

definition order_ok :: "bool \<Rightarrow> int \<Rightarrow> rex_order \<Rightarrow> bool" where
  "order_ok covered matured r \<longleftrightarrow> 0 \<le> amount (order_proceeds r) \<and>
     (is_open r \<longrightarrow> amount (order_proceeds r) = 0 \<and> 0 < amount (rex_requested r) \<and>
        (covered \<longrightarrow> amount (rex_requested r) \<le> matured))"

definition loan_ok :: "rex_loan \<Rightarrow> bool" where
  "loan_ok l \<longleftrightarrow> 0 \<le> amount (loan_balance l) \<and> 0 \<le> amount (loan_payment l)"

definition loans_ok :: "(int, rex_loan) table \<Rightarrow> bool" where
  "loans_ok t \<longleftrightarrow> twf t \<and> (\<forall>k l. tfind k t = Some l \<longrightarrow> loan_ok l)"

text \<open>The orders of the owners in \<open>X\<close> need not be covered by matured REX at the moment.\<close>

definition rex_ok :: "symbol \<Rightarrow> name set \<Rightarrow> sys \<Rightarrow> bool" where
  "rex_ok cs X s \<longleftrightarrow>
     (\<forall>p. rexpool s = Some p \<longrightarrow> pool_ok cs p) \<and>
     (\<Sum>n\<in>UNIV. held_of s n) = rex_units s \<and>
     (\<forall>n. 0 \<le> fund_of s n) \<and>
     (\<forall>n rb. tfind n (rexbalance s) = Some rb \<longrightarrow> balance_ok rb) \<and>
     (\<forall>n r. tfind n (rexorders s) = Some r \<longrightarrow> order_ok (n \<notin> X) (matured_of s n) r) \<and>
     twf (rexorders s) \<and> loans_ok (cpuloans s) \<and> loans_ok (netloans s)"

lemma rex_okD:
  assumes "rex_ok cs X s"
  shows "rexpool s = Some p \<Longrightarrow> pool_ok cs p" "(\<Sum>n\<in>UNIV. held_of s n) = rex_units s" "0 \<le> fund_of s n"
    "tfind n (rexbalance s) = Some rb \<Longrightarrow> balance_ok rb"
    "tfind n (rexorders s) = Some r \<Longrightarrow> order_ok (n \<notin> X) (matured_of s n) r"
    "twf (rexorders s)" "loans_ok (cpuloans s)" "loans_ok (netloans s)"
  using assms by (auto simp: rex_ok_def)

lemma balance_okD:
  assumes "balance_ok rb"
  shows "0 \<le> matured_rex rb" "matured_rex rb \<le> amount (rex_held rb)" "0 \<le> amount (rex_held rb)"
  using assms bsum_nonneg [of "rex_maturities rb"] by (auto simp: balance_ok_def buckets_ok_def rex_in_def)

lemma held_of_nonneg: "rex_ok cs X s \<Longrightarrow> 0 \<le> held_of s n"
  using balance_okD(3) rex_okD(4) by (fastforce simp: held_of_def split: option.splits)

lemma member_le_UNIV_sum: "(\<And>n. 0 \<le> f n) \<Longrightarrow> f (k :: name) \<le> (\<Sum>n\<in>UNIV. f n :: int)"
  by (rule member_le_sum) auto

text \<open>No field of a balance or of the pool is near the limits of 64 bits.\<close>

lemma rex_units_bounds: "rex_ok cs X s \<Longrightarrow> 0 \<le> rex_units s \<and> rex_units s \<le> rex_limit"
  using rex_okD(1) pool_okD(3,4) by (fastforce simp: rex_units_def rex_limit_def split: option.splits)

lemma held_of_le: "rex_ok cs X s \<Longrightarrow> held_of s n \<le> rex_units s"
  using member_le_UNIV_sum [of "held_of s" n] held_of_nonneg rex_okD(2) by metis

lemma proceeds_of_nonneg: "rex_ok cs X s \<Longrightarrow> 0 \<le> proceeds_of s n"
  using rex_okD(5) by (fastforce simp: proceeds_of_def order_ok_def split: option.splits)

lemma lendable_bounds: "rex_ok cs X s \<Longrightarrow> 0 \<le> lendable s \<and> lendable s \<le> rex_cap"
  using rex_okD(1) pool_okD(1,2) by (fastforce simp: lendable_def rex_cap_def split: option.splits)

lemma loan_sum_nonneg: "loans_ok t \<Longrightarrow> 0 \<le> loan_sum t"
  unfolding loan_sum_def loans_ok_def by (rule tab.total_nonneg) (auto simp: loan_ok_def)

lemma loan_le_sum: "loans_ok t \<Longrightarrow> tfind k t = Some l \<Longrightarrow> amount (loan_balance l) \<le> loan_sum t"
  unfolding loan_sum_def loans_ok_def
  by (rule tab.row_le_total [where f = "\<lambda>_ l. amount (loan_balance l)"]) (auto simp: loan_ok_def)

text \<open>Every part is at most the whole, and two different parts together are.\<close>

lemma owed_parts:
  assumes "rex_ok cs X s"
  shows "0 \<le> (\<Sum>n\<in>UNIV. fund_of s n)" "0 \<le> (\<Sum>n\<in>UNIV. proceeds_of s n)" "0 \<le> lendable s"
    "0 \<le> loan_sum (cpuloans s)" "0 \<le> loan_sum (netloans s)"
    "fund_of s n \<le> (\<Sum>n\<in>UNIV. fund_of s n)" "proceeds_of s n \<le> (\<Sum>n\<in>UNIV. proceeds_of s n)"
proof -
  show "0 \<le> (\<Sum>n\<in>UNIV. fund_of s n)" "0 \<le> (\<Sum>n\<in>UNIV. proceeds_of s n)"
    using rex_okD(3) [OF assms] proceeds_of_nonneg [OF assms] by (simp_all add: sum_nonneg)
  show "0 \<le> lendable s" using lendable_bounds [OF assms] by simp
  show "0 \<le> loan_sum (cpuloans s)" "0 \<le> loan_sum (netloans s)"
    using rex_okD(7,8) [OF assms] by (simp_all add: loan_sum_nonneg)
  show "fund_of s n \<le> (\<Sum>n\<in>UNIV. fund_of s n)" "proceeds_of s n \<le> (\<Sum>n\<in>UNIV. proceeds_of s n)"
    using rex_okD(3) [OF assms] proceeds_of_nonneg [OF assms] by (simp_all add: member_le_UNIV_sum)
qed

section \<open>What does not touch the parts\<close>

definition rex_view ::
  "sys \<Rightarrow> rex_pool option \<times> (name \<Rightarrow> int) \<times> (name \<Rightarrow> (int \<times> int \<times> (int \<times> int) list) option) \<times>
     (name, rex_order) table \<times> (int, rex_loan) table \<times> (int, rex_loan) table" where
  "rex_view s = (rexpool s, fund_of s,
     (\<lambda>n. map_option (\<lambda>rb. (amount (rex_held rb), matured_rex rb, rex_maturities rb)) (tfind n (rexbalance s))),
     rexorders s, cpuloans s, netloans s)"

lemma rex_view_balance:
  assumes "rex_view s' = rex_view s"
  shows "held_of s' = held_of s" "matured_of s' = matured_of s"
    "(\<forall>n rb. tfind n (rexbalance s') = Some rb \<longrightarrow> balance_ok rb) \<longleftrightarrow>
     (\<forall>n rb. tfind n (rexbalance s) = Some rb \<longrightarrow> balance_ok rb)"
proof -
  define row where "row = (\<lambda>rb :: rex_balance. (amount (rex_held rb), matured_rex rb, rex_maturities rb))"
  have e: "map_option row (tfind n (rexbalance s')) = map_option row (tfind n (rexbalance s))" for n
    using assms by (auto simp: rex_view_def row_def fun_eq_iff)
  have h: "held_of t n = (case map_option row (tfind n (rexbalance t)) of None \<Rightarrow> 0 | Some r \<Rightarrow> fst r)"
    and m: "matured_of t n = (case map_option row (tfind n (rexbalance t)) of None \<Rightarrow> 0 | Some r \<Rightarrow> fst (snd r))" for t n
    by (simp_all add: held_of_def matured_of_def row_def split: option.splits)
  show "held_of s' = held_of s" "matured_of s' = matured_of s"
    by (simp_all add: fun_eq_iff h m e)
  define ok where "ok = (\<lambda>(h :: int, m :: int, bs :: (int \<times> int) list).
    0 \<le> m \<and> all_nonneg bs \<and> h = m + bsum bs)"
  have row_ok: "(\<forall>rb. tfind n (rexbalance t) = Some rb \<longrightarrow> balance_ok rb) \<longleftrightarrow>
      (\<forall>r. map_option row (tfind n (rexbalance t)) = Some r \<longrightarrow> ok r)" for t n
    by (auto simp: balance_ok_def buckets_ok_def rex_in_def ok_def row_def)
  show "(\<forall>n rb. tfind n (rexbalance s') = Some rb \<longrightarrow> balance_ok rb) \<longleftrightarrow>
     (\<forall>n rb. tfind n (rexbalance s) = Some rb \<longrightarrow> balance_ok rb)"
    by (simp only: row_ok e)
qed

lemma rex_view_parts:
  assumes "rex_view s' = rex_view s"
  shows "rexpool s' = rexpool s" "fund_of s' = fund_of s" "rexorders s' = rexorders s"
    "cpuloans s' = cpuloans s" "netloans s' = netloans s"
  using assms by (simp_all add: rex_view_def)

lemma rex_view_owed: "rex_view s' = rex_view s \<Longrightarrow> owed s' = owed s"
  by (frule rex_view_parts(1), frule rex_view_parts(2), frule rex_view_parts(3), frule rex_view_parts(4),
      drule rex_view_parts(5)) (simp add: owed_def lendable_def proceeds_of_def)

lemma rex_view_ok:
  assumes "rex_view s' = rex_view s"
  shows "rex_ok cs X s' \<longleftrightarrow> rex_ok cs X s"
  unfolding rex_ok_def rex_view_balance(3) [OF assms]
  by (simp add: rex_view_parts [OF assms] rex_view_balance [OF assms] rex_units_def)

lemma writes_rex_view:
  assumes "writes F s s'" "F \<inter> {Rexpool, Rexfunds, Rexbalance, Rexorders, Cpuloans, Netloans} = {}"
  shows "rex_view s' = rex_view s"
proof -
  have u: "unchanged f s s'" if "f \<in> {Rexpool, Rexfunds, Rexbalance, Rexorders, Cpuloans, Netloans}" for f
    using that assms by (intro writes_unchanged [OF assms(1)]) auto
  have "rexpool s' = rexpool s" "rexfunds s' = rexfunds s" "rexbalance s' = rexbalance s"
    "rexorders s' = rexorders s" "cpuloans s' = cpuloans s" "netloans s' = netloans s"
    using u [of Rexpool] u [of Rexfunds] u [of Rexbalance] u [of Rexorders] u [of Cpuloans] u [of Netloans]
    by simp_all
  then show ?thesis by (simp add: rex_view_def fund_of_def fun_eq_iff)
qed

section \<open>Tokens paid in\<close>

text \<open>
  Everything an action sends is queued in the outbox. \<open>sends\<close> says that nothing of what was
  added takes tokens from \<open>eosio.rex\<close>.
\<close>

fun keeps_rex :: "inline_action \<Rightarrow> bool" where
  "keeps_rex (TokenAction _ (Transfer from to q memo)) \<longleftrightarrow> from \<noteq> rex_account"
| "keeps_rex (TokenAction _ (Retire q memo)) \<longleftrightarrow> False"
| "keeps_rex _ \<longleftrightarrow> True"

definition paid_in :: "symbol \<Rightarrow> inline_action \<Rightarrow> int" where
  "paid_in cs a = max 0 (inline_flow (sym_code cs) a rex_account)"

definition inflow :: "symbol \<Rightarrow> sys \<Rightarrow> int" where
  "inflow cs s = (\<Sum>a\<leftarrow>outbox s. paid_in cs a)"

definition sends :: "sys \<Rightarrow> sys \<Rightarrow> bool" where
  "sends s s' \<longleftrightarrow> (\<exists>xs. outbox s' = outbox s @ xs \<and> list_all keeps_rex xs)"

lemma sends_same: "outbox s' = outbox s \<Longrightarrow> sends s s'"
  by (simp add: sends_def)

lemma sends_refl [simp]: "sends s s"
  by (simp add: sends_same)

lemma sends_trans: "sends s s1 \<Longrightarrow> sends s1 s2 \<Longrightarrow> sends s s2"
  by (fastforce simp: sends_def)

lemma sends_writes: "writes F s s' \<Longrightarrow> Outbox \<notin> F \<Longrightarrow> sends s s'"
  using writes_unchanged [of F s s' Outbox] by (simp add: sends_same)

lemma sends_inline: "keeps_rex a \<Longrightarrow> sends s (send_inline a s)"
  by (simp add: sends_def send_inline_def)

lemma paid_in_nonneg: "0 \<le> paid_in cs a"
  by (simp add: paid_in_def)

lemma inflow_mono: "sends s s' \<Longrightarrow> inflow cs s \<le> inflow cs s'"
proof -
  assume "sends s s'"
  then obtain xs where "outbox s' = outbox s @ xs" by (auto simp: sends_def)
  moreover have "0 \<le> (\<Sum>a\<leftarrow>xs. paid_in cs a)"
    by (intro sum_list_nonneg) (auto simp: paid_in_nonneg)
  ultimately show ?thesis by (simp add: inflow_def)
qed

lemma inflow_same: "outbox s' = outbox s \<Longrightarrow> inflow cs s' = inflow cs s"
  by (simp add: inflow_def)

lemma inflow_send_inline: "inflow cs (send_inline a s) = inflow cs s + paid_in cs a"
  by (simp add: inflow_def send_inline_def)

lemma paid_in_transfer:
  assumes "symbol q = cs" "0 \<le> amount q" "src \<noteq> rex_account"
  shows "paid_in cs (send_transfer signers src rex_account q memo) = amount q"
  using assms by (simp add: paid_in_def send_transfer_def)

section \<open>Steps\<close>

text \<open>
  Every amount sent is positive, or the whole transaction fails; so a step may count on what it
  sends.
\<close>

definition all_positive :: "sys \<Rightarrow> bool" where
  "all_positive s \<longleftrightarrow> list_all positive (outbox s)"

lemma all_positive_before: "sends s s' \<Longrightarrow> all_positive s' \<Longrightarrow> all_positive s"
  by (auto simp: sends_def all_positive_def)

definition rex_step ::
  "symbol \<Rightarrow> name set \<Rightarrow> int \<Rightarrow> sys \<Rightarrow> name set \<Rightarrow> int \<Rightarrow> sys \<Rightarrow> bool" where
  "rex_step cs X d s X' d' s' \<longleftrightarrow> sends s s' \<and>
     (rex_ok cs X s \<and> 0 \<le> d \<and> all_positive s' \<and> owed s + d + (inflow cs s' - inflow cs s) \<le> rex_cap \<longrightarrow>
        rex_ok cs X' s' \<and> 0 \<le> d' \<and> owed s' + d' - inflow cs s' \<le> owed s + d - inflow cs s)"

lemma rex_step_trans [trans]:
  assumes "rex_step cs X d s X1 d1 s1" "rex_step cs X1 d1 s1 X2 d2 s2"
  shows "rex_step cs X d s X2 d2 s2"
proof -
  have m: "sends s s1" "sends s1 s2"
    using assms by (simp_all add: rex_step_def)
  show ?thesis
    unfolding rex_step_def
  proof (intro conjI impI)
    show "sends s s2" using m by (rule sends_trans)
    assume *: "rex_ok cs X s \<and> 0 \<le> d \<and> all_positive s2 \<and> owed s + d + (inflow cs s2 - inflow cs s) \<le> rex_cap"
    then have "owed s + d + (inflow cs s1 - inflow cs s) \<le> rex_cap" "all_positive s1"
      using inflow_mono [OF m(2), of cs] all_positive_before [OF m(2)] by (linarith, blast)
    then have 1: "rex_ok cs X1 s1" "0 \<le> d1" "owed s1 + d1 - inflow cs s1 \<le> owed s + d - inflow cs s"
      using * assms(1) by (auto simp: rex_step_def)
    then have "owed s1 + d1 + (inflow cs s2 - inflow cs s1) \<le> rex_cap"
      using * by linarith
    then have 2: "rex_ok cs X2 s2" "0 \<le> d2" "owed s2 + d2 - inflow cs s2 \<le> owed s1 + d1 - inflow cs s1"
      using 1 * assms(2) by (auto simp: rex_step_def)
    then show "rex_ok cs X2 s2" "0 \<le> d2" "owed s2 + d2 - inflow cs s2 \<le> owed s + d - inflow cs s"
      using 1 by auto
  qed
qed

lemma rex_stepI:
  assumes "sends s s'"
    and "rex_ok cs X s \<Longrightarrow> 0 \<le> d \<Longrightarrow> owed s + d + (inflow cs s' - inflow cs s) \<le> rex_cap \<Longrightarrow>
      rex_ok cs X' s' \<and> 0 \<le> d' \<and> owed s' + d' - inflow cs s' \<le> owed s + d - inflow cs s"
  shows "rex_step cs X d s X' d' s'"
  using assms by (simp add: rex_step_def)

text \<open>The invariant of the state before a step may be used to find the step.\<close>

lemma rex_step_assume:
  assumes "sends s s'"
    and "rex_ok cs X s \<Longrightarrow> 0 \<le> d \<Longrightarrow> owed s + d \<le> rex_cap \<Longrightarrow> rex_step cs X d s X' d' s'"
  shows "rex_step cs X d s X' d' s'"
  using assms inflow_mono [OF assms(1), of cs] by (auto simp: rex_step_def)

lemma rex_step_positive:
  assumes "sends s s'" "all_positive s' \<Longrightarrow> rex_step cs X d s X' d' s'"
  shows "rex_step cs X d s X' d' s'"
  using assms by (auto simp: rex_step_def)

text \<open>A step that sends nothing.\<close>

lemma rex_step_quietI:
  assumes "outbox s' = outbox s"
    and "rex_ok cs X s \<Longrightarrow> 0 \<le> d \<Longrightarrow> owed s + d \<le> rex_cap \<Longrightarrow>
      rex_ok cs X' s' \<and> 0 \<le> d' \<and> owed s' + d' \<le> owed s + d"
  shows "rex_step cs X d s X' d' s'"
  using assms(2) by (intro rex_stepI) (auto simp: sends_same assms(1) inflow_same [OF assms(1)])

lemma rex_ok_mono: "rex_ok cs X s \<Longrightarrow> X \<subseteq> Y \<Longrightarrow> rex_ok cs Y s"
  by (fastforce simp: rex_ok_def order_ok_def)

lemma rex_step_view:
  assumes "rex_view s' = rex_view s" "sends s s'" "X \<subseteq> Y"
  shows "rex_step cs X d s Y d s'"
  using rex_ok_mono [OF _ assms(3)] inflow_mono [OF assms(2), of cs] assms(2)
  by (intro rex_stepI) (auto simp: rex_view_ok [OF assms(1)] rex_view_owed [OF assms(1)])

lemma rex_step_refl: "X \<subseteq> Y \<Longrightarrow> rex_step cs X d s Y d s"
  by (rule rex_step_view) simp_all

text \<open>An operation whose writes miss the tables of the resource exchange.\<close>

lemma rex_step_writes:
  assumes "writes F s s'" "F \<inter> {Rexpool, Rexfunds, Rexbalance, Rexorders, Cpuloans, Netloans} = {}" "Outbox \<notin> F"
  shows "rex_step cs X d s X d s'"
  by (rule rex_step_view [OF writes_rex_view [OF assms(1,2)] sends_writes [OF assms(1,3)]]) simp

end
