(* ===== verification/Rex_Steps.thy ===== *)
theory Rex_Steps
  imports Rex_Ledger
begin

text \<open>
  The operations of \<open>rex.cpp\<close> as steps of the ledger: for each of them, where the tokens it
  moves come from and where they go.
\<close>

section \<open>Funds\<close>

lemma fund_of_update: "fund_of (s\<lparr>rexfunds := AList.update n a (rexfunds s)\<rparr>) = (fund_of s)(n := amount a)"
  by (auto simp: fund_of_def fun_eq_iff)

text \<open>States that differ in one user's fund only.\<close>

lemma rex_ok_fund:
  assumes "rex_ok cs X s" "0 \<le> x" "fund_of s' = (fund_of s)(n := x)"
    "rexpool s' = rexpool s" "rexbalance s' = rexbalance s" "rexorders s' = rexorders s"
    "cpuloans s' = cpuloans s" "netloans s' = netloans s"
  shows "rex_ok cs X s'" "owed s' = owed s - fund_of s n + x"
proof -
  have b: "held_of s' = held_of s" "matured_of s' = matured_of s" "proceeds_of s' = proceeds_of s"
    "rex_units s' = rex_units s" "lendable s' = lendable s"
    by (simp_all add: fun_eq_iff held_of_def matured_of_def proceeds_of_def rex_units_def lendable_def assms)
  show "rex_ok cs X s'"
    using assms(1,2) by (simp add: rex_ok_def b assms(3-))
  show "owed s' = owed s - fund_of s n + x"
    using sum_UNIV_upd [of "fund_of s" n x] by (simp add: owed_def b assms(3-))
qed

lemma transfer_from_fund_parts:
  assumes "asset_laws e" "transfer_from_fund e n q s = Inr s'"
  obtains bal where "tfind n (rexfunds s) = Some bal" "0 < amount q" "amount q \<le> amount bal"
    "s' = s\<lparr>rexfunds := AList.update n (add_amount (- amount q) bal) (rexfunds s)\<rparr>"
  using assms by (auto simp: transfer_from_fund_def asset_le_law split: option.splits if_split_asm)

lemma step_transfer_from_fund:
  assumes "asset_laws e" "transfer_from_fund e n q s = Inr s'"
  shows "rex_step cs X d s X (d + amount q) s'"
proof (rule rex_step_quietI)
  obtain bal where bal: "tfind n (rexfunds s) = Some bal" "0 < amount q" "amount q \<le> amount bal"
    and s': "s' = s\<lparr>rexfunds := AList.update n (add_amount (- amount q) bal) (rexfunds s)\<rparr>"
    by (rule transfer_from_fund_parts [OF assms])
  show "outbox s' = outbox s" by (simp add: s')
  assume ok: "rex_ok cs X s" and d: "0 \<le> d" "owed s + d \<le> rex_cap"
  have f: "fund_of s n = amount bal" using bal by (simp add: fund_of_def)
  then have "amount bal \<le> rex_cap"
    using owed_parts(1-5) [OF ok] owed_parts(6) [OF ok, of n] d by (simp add: owed_def)
  then have x: "i64 (amount bal - amount q) = amount bal - amount q"
    using bal by (intro i64_id) (simp_all add: rex_cap_def)
  have "fund_of s' = (fund_of s)(n := amount bal - amount q)"
    by (simp add: s' fund_of_update x)
  from rex_ok_fund [OF ok _ this] bal d s' f
  show "rex_ok cs X s' \<and> 0 \<le> d + amount q \<and> owed s' + (d + amount q) \<le> owed s + d" by simp
qed

lemma transfer_to_fund_parts:
  assumes "transfer_to_fund n q s = Inr s'"
  obtains a where "0 < amount q" "s' = s\<lparr>rexfunds := AList.update n a (rexfunds s)\<rparr> \<or>
      s' = s\<lparr>rexfunds := (n, a) # rexfunds s\<rparr>"
    "fund_of s' = (fund_of s)(n := amount a)"
    "0 \<le> fund_of s n \<Longrightarrow> fund_of s n + amount q \<le> rex_cap \<Longrightarrow> amount a = fund_of s n + amount q"
proof (cases "tfind n (rexfunds s)")
  case None
  show ?thesis
    using assms None by (intro that [of q]) (auto simp: transfer_to_fund_def fund_of_def fun_eq_iff)
next
  case (Some bal)
  have s': "s' = s\<lparr>rexfunds := AList.update n (add_amount (amount q) bal) (rexfunds s)\<rparr>" "0 < amount q"
    using assms Some by (auto simp: transfer_to_fund_def)
  show ?thesis
    using Some s'
    by (intro that [of "add_amount (amount q) bal"]) (auto simp: fund_of_update fund_of_def intro!: i64_id simp: rex_cap_def)
qed

text \<open>Tokens in hand go to a user's fund.\<close>

lemma step_transfer_to_fund:
  assumes "transfer_to_fund n q s = Inr s'"
  shows "rex_step cs X (amount q) s X 0 s'"
proof (rule rex_step_quietI)
  obtain a where q: "0 < amount q" and s': "s' = s\<lparr>rexfunds := AList.update n a (rexfunds s)\<rparr> \<or>
      s' = s\<lparr>rexfunds := (n, a) # rexfunds s\<rparr>"
    and f: "fund_of s' = (fund_of s)(n := amount a)"
    and a: "0 \<le> fund_of s n \<Longrightarrow> fund_of s n + amount q \<le> rex_cap \<Longrightarrow> amount a = fund_of s n + amount q"
    by (rule transfer_to_fund_parts [OF assms]) blast
  show "outbox s' = outbox s" using s' by auto
  assume ok: "rex_ok cs X s" and d: "owed s + amount q \<le> rex_cap"
  have "fund_of s n + amount q \<le> rex_cap"
    using owed_parts(1-5) [OF ok] owed_parts(6) [OF ok, of n] d by (simp add: owed_def)
  then have "amount a = fund_of s n + amount q"
    using rex_okD(3) [OF ok] by (intro a) auto
  then show "rex_ok cs X s' \<and> 0 \<le> (0 :: int) \<and> owed s' + 0 \<le> owed s + amount q"
    using rex_ok_fund [OF ok _ f] rex_okD(3) [OF ok, of n] q s' by auto
qed

section \<open>The pool\<close>

text \<open>States that differ in the pool and in one user's REX balance.\<close>

lemma rex_ok_trade:
  assumes ok: "rex_ok cs X s" and "\<And>p. rexpool s' = Some p \<Longrightarrow> pool_ok cs p"
    and b: "\<And>m. tfind m (rexbalance s') = (if m = n then Some rb else tfind m (rexbalance s))" "balance_ok rb"
    and units: "rex_units s' = rex_units s - held_of s n + amount (rex_held rb)"
    and covered: "n \<notin> Y \<Longrightarrow> matured_of s n \<le> matured_rex rb" "X \<subseteq> Y"
    and same: "fund_of s' = fund_of s" "rexorders s' = rexorders s" "cpuloans s' = cpuloans s" "netloans s' = netloans s"
  shows "rex_ok cs Y s'" "owed s' = owed s - lendable s + lendable s'"
proof -
  have h: "held_of s' = (held_of s)(n := amount (rex_held rb))"
    and m: "matured_of s' = (matured_of s)(n := matured_rex rb)"
    by (auto simp: fun_eq_iff held_of_def matured_of_def b(1))
  have "(\<Sum>m\<in>UNIV. held_of s' m) = rex_units s'"
    using sum_UNIV_upd [of "held_of s" n "amount (rex_held rb)"] rex_okD(2) [OF ok] by (simp add: h units)
  moreover have "order_ok (k \<notin> Y) (matured_of s' k) r" if "tfind k (rexorders s) = Some r" for k r
  proof -
    have "order_ok (k \<notin> X) (matured_of s k) r" using that by (rule rex_okD(5) [OF ok])
    then show ?thesis using covered by (auto simp: order_ok_def m)
  qed
  ultimately show "rex_ok cs Y s'"
    using ok assms(2) b by (auto simp: rex_ok_def same)
  show "owed s' = owed s - lendable s + lendable s'"
    by (simp add: owed_def proceeds_of_def same)
qed

lemma rex_ok_pool:
  assumes "rex_ok cs X s" "rexpool s' = Some p'" "pool_ok cs p'" "amount (total_rex p') = rex_units s"
    "fund_of s' = fund_of s" "rexbalance s' = rexbalance s" "rexorders s' = rexorders s"
    "cpuloans s' = cpuloans s" "netloans s' = netloans s"
  shows "rex_ok cs X s'" "owed s' = owed s - lendable s + amount (total_lendable p')"
proof -
  have b: "held_of s' = held_of s" "matured_of s' = matured_of s" "proceeds_of s' = proceeds_of s"
    "rex_units s' = rex_units s"
    by (simp_all add: fun_eq_iff held_of_def matured_of_def proceeds_of_def rex_units_def assms(2-))
  show "rex_ok cs X s'"
    using assms(1,3) by (simp add: rex_ok_def b assms(2,5-))
  show "owed s' = owed s - lendable s + amount (total_lendable p')"
    by (simp add: owed_def b lendable_def assms(2,5-))
qed

lemma pool_ok_channel:
  assumes "pool_ok cs p" "0 \<le> q" "amount (total_lendable p) + q \<le> rex_cap"
  shows "pool_ok cs (p\<lparr>total_unlent := add_amount q (total_unlent p), total_lendable := add_amount q (total_lendable p)\<rparr>)"
    "i64 (amount (total_lendable p) + q) = amount (total_lendable p) + q"
proof -
  note ok = pool_okD [OF assms(1)]
  show i: "i64 (amount (total_lendable p) + q) = amount (total_lendable p) + q"
    using ok assms(2,3) by (intro i64_id) (simp_all add: rex_cap_def)
  have "i64 (amount (total_unlent p) + amount (total_lent p) + q) = i64 (i64 (amount (total_unlent p) + amount (total_lent p)) + q)"
    by simp
  then have u: "i64 (amount (total_unlent p) + q + amount (total_lent p)) = i64 (amount (total_lendable p) + q)"
    unfolding ok(6) by (simp add: algebra_simps)
  show "pool_ok cs (p\<lparr>total_unlent := add_amount q (total_unlent p), total_lendable := add_amount q (total_lendable p)\<rparr>)"
    using ok assms(2,3) u by (simp add: pool_ok_def i rex_ratio_def)
qed

lemma step_channel_to_rex:
  assumes "symbol q = cs" "0 \<le> amount q" "src \<noteq> rex_account"
  shows "rex_step cs X d s X d (channel_to_rex e src q s)"
proof (cases "\<exists>p. rexpool s = Some p \<and> 0 < amount (total_rex p)")
  case True
  then obtain p where p: "rexpool s = Some p" "0 < amount (total_rex p)" by blast
  define p' where "p' = p\<lparr>total_unlent := add_amount (amount q) (total_unlent p),
    total_lendable := add_amount (amount q) (total_lendable p)\<rparr>"
  define s1 where "s1 = s\<lparr>rexpool := Some p'\<rparr>"
  obtain memo where s': "channel_to_rex e src q s = send_inline (send_transfer [src] src rex_account q memo) s1"
    using p by (simp add: channel_to_rex_def p'_def s1_def)
  have pay: "paid_in cs (send_transfer [src] src rex_account q memo) = amount q"
    using assms by (rule paid_in_transfer)
  have io: "inflow cs (channel_to_rex e src q s) = inflow cs s + amount q"
    unfolding s' inflow_send_inline pay by (simp add: s1_def inflow_def)
  show ?thesis
  proof (rule rex_stepI)
    show "sends s (channel_to_rex e src q s)"
      unfolding s' using assms by (intro sends_trans [OF _ sends_inline]) (simp_all add: s1_def sends_same send_transfer_def)
    assume ok: "rex_ok cs X s" and d: "0 \<le> d"
      "owed s + d + (inflow cs (channel_to_rex e src q s) - inflow cs s) \<le> rex_cap"
    have "lendable s + amount q \<le> rex_cap"
      using owed_parts(1-5) [OF ok] d io by (simp add: owed_def)
    then have c: "pool_ok cs p'" "amount (total_lendable p') = lendable s + amount q"
      using pool_ok_channel [OF rex_okD(1) [OF ok p(1)], of "amount q"] assms(2) p
      by (simp_all add: p'_def lendable_def)
    have v: "rex_view (channel_to_rex e src q s) = rex_view s1"
      unfolding s' by (simp add: rex_view_def send_inline_def fun_eq_iff fund_of_def)
    have "rex_ok cs X s1 \<and> owed s1 = owed s + amount q"
      using rex_ok_pool [OF ok, of s1 p'] c p by (simp add: s1_def p'_def rex_units_def fund_of_def fun_eq_iff)
    then show "rex_ok cs X (channel_to_rex e src q s) \<and> 0 \<le> d \<and>
        owed (channel_to_rex e src q s) + d - inflow cs (channel_to_rex e src q s) \<le> owed s + d - inflow cs s"
      using d io by (simp add: rex_view_ok [OF v] rex_view_owed [OF v])
  qed
next
  case False
  then have "channel_to_rex e src q s = s"
    by (auto simp: channel_to_rex_def split: option.splits)
  then show ?thesis by (simp add: rex_step_refl)
qed

text \<open>The count of name-bid proceeds is not part of what is owed.\<close>

lemma step_namebid_count:
  assumes "rexpool s = Some p" "symbol (namebid_proceeds p') = symbol (namebid_proceeds p)"
    "p' = p\<lparr>namebid_proceeds := x\<rparr>"
  shows "rex_step cs X d s X d (s\<lparr>rexpool := Some p'\<rparr>)"
proof (rule rex_step_quietI)
  assume ok: "rex_ok cs X s" and d: "0 \<le> d"
  have "pool_ok cs p = pool_ok cs p'" using assms(2,3) by (simp add: pool_ok_def)
  then have "pool_ok cs p'" using rex_okD(1) [OF ok assms(1)] by simp
  then show "rex_ok cs X (s\<lparr>rexpool := Some p'\<rparr>) \<and> 0 \<le> d \<and> owed (s\<lparr>rexpool := Some p'\<rparr>) + d \<le> owed s + d"
    using rex_ok_pool [OF ok, of "s\<lparr>rexpool := Some p'\<rparr>" p'] d assms(1,3)
    by (simp add: rex_units_def lendable_def fund_of_def fun_eq_iff)
qed simp

lemma step_channel_proceeds:
  assumes "channel_proceeds e s = Inr s'"
  shows "rex_step cs X d s X d s'"
proof -
  obtain p where p: "rexpool s = Some p" using assms by (auto simp: channel_proceeds_def the_pool_def)
  show ?thesis
  proof (cases "0 < amount (namebid_proceeds p)")
    case True
    define s1 where "s1 = channel_to_rex e names_account (namebid_proceeds p) s"
    obtain p1 where p1: "rexpool s1 = Some p1"
      and s': "s' = s1\<lparr>rexpool := Some (p1\<lparr>namebid_proceeds := set_amount 0 (namebid_proceeds p1)\<rparr>)\<rparr>"
      using assms True p by (auto simp: channel_proceeds_def the_pool_def s1_def Let_def)
    have "rex_step cs X d s1 X d s'"
      unfolding s' by (rule step_namebid_count [OF p1]) simp_all
    moreover have "rex_step cs X d s X d s1" if "symbol (namebid_proceeds p) = cs"
      unfolding s1_def using that True by (intro step_channel_to_rex) simp_all
    ultimately have "symbol (namebid_proceeds p) = cs \<Longrightarrow> rex_step cs X d s X d s'"
      using rex_step_trans by blast
    moreover have "sends s s'"
      using writes_channel_proceeds [OF assms]
      by (auto simp: s' s1_def channel_to_rex_def p sends_def send_inline_def send_transfer_def)
    ultimately show ?thesis
      using rex_okD(1) [OF _ p] pool_okD(7) by (auto simp: rex_step_def)
  next
    case False
    then show ?thesis using assms p by (auto simp: channel_proceeds_def the_pool_def intro: rex_step_refl)
  qed
qed

section \<open>Loans\<close>

lemma loans_ok_update:
  assumes "loans_ok t" "tfind k t = Some l" "loan_ok l'"
  shows "loans_ok (AList.update k l' t)"
    "loan_sum (AList.update k l' t) = loan_sum t - amount (loan_balance l) + amount (loan_balance l')"
  using assms by (auto simp: loans_ok_def loan_sum_def tsum_AList_update)

lemma loans_ok_erase:
  assumes "loans_ok t" "tfind k t = Some l"
  shows "loans_ok (terase k t)" "loan_sum (terase k t) = loan_sum t - amount (loan_balance l)"
  using assms by (auto simp: loans_ok_def loan_sum_def tsum_terase)

lemma put_loans_parts [simp]:
  "loans r (put_loans r t s) = t" "rexpool (put_loans r t s) = rexpool s" "outbox (put_loans r t s) = outbox s"
  "rexfunds (put_loans r t s) = rexfunds s" "rexbalance (put_loans r t s) = rexbalance s"
  "rexorders (put_loans r t s) = rexorders s" "core_symbol (put_loans r t s) = core_symbol s"
  "put_loans r t (s\<lparr>rexfunds := u\<rparr>) = (put_loans r t s)\<lparr>rexfunds := u\<rparr>"
  "loans r (s\<lparr>rexpool := pl\<rparr>) = loans r s" "loans r (s\<lparr>rexfunds := u\<rparr>) = loans r s"
  by (cases r; simp add: core_symbol_def)+

lemma rex_ok_loans:
  assumes "rex_ok cs X s" "loans_ok t"
  shows "rex_ok cs X (put_loans r t s)" "owed (put_loans r t s) = owed s - loan_sum (loans r s) + loan_sum t"
proof -
  have f: "fund_of (put_loans r t s) = fund_of s" "held_of (put_loans r t s) = held_of s"
    "matured_of (put_loans r t s) = matured_of s" "proceeds_of (put_loans r t s) = proceeds_of s"
    "lendable (put_loans r t s) = lendable s" "rex_units (put_loans r t s) = rex_units s"
    by (simp_all add: fun_eq_iff fund_of_def held_of_def matured_of_def proceeds_of_def lendable_def rex_units_def)
  show "rex_ok cs X (put_loans r t s)"
    using assms by (cases r) (simp_all add: rex_ok_def f [unfolded put_loans.simps(1)]
        fund_of_def held_of_def matured_of_def rex_units_def)
  show "owed (put_loans r t s) = owed s - loan_sum (loans r s) + loan_sum t"
    by (cases r) (simp_all add: owed_def f fund_of_def proceeds_of_def lendable_def)
qed

lemma loans_ok_of: "rex_ok cs X s \<Longrightarrow> loans_ok (loans r s)"
  by (cases r) (simp_all add: rex_ok_def)

lemma loan_le_owed: "rex_ok cs X s \<Longrightarrow> loan_sum (loans r s) + lendable s \<le> owed s"
  using owed_parts(1-5) [of cs X s] by (cases r) (simp_all add: owed_def)

text \<open>A loan that ends moves between the two parts of the pool only.\<close>

lemma step_remove_loan:
  assumes "rexpool s = Some p" "remove_loan_from_rex_pool l p = Inr p1"
  shows "rex_step cs X d s X d (s\<lparr>rexpool := Some p1\<rparr>)"
proof (rule rex_step_quietI)
  assume ok: "rex_ok cs X s" and d: "0 \<le> d"
  note p1 = pool_ok_remove_loan [OF rex_okD(1) [OF ok assms(1)] assms(2)]
  show "rex_ok cs X (s\<lparr>rexpool := Some p1\<rparr>) \<and> 0 \<le> d \<and> owed (s\<lparr>rexpool := Some p1\<rparr>) + d \<le> owed s + d"
    using rex_ok_pool [OF ok, of "s\<lparr>rexpool := Some p1\<rparr>" p1] p1 d assms(1)
    by (simp add: rex_units_def lendable_def fund_of_def fun_eq_iff)
qed simp

text \<open>A payment in hand enters the pool.\<close>

lemma step_add_loan:
  assumes "rexpool s = Some p" "0 \<le> amount q" "0 \<le> d"
  shows "rex_step cs X (d + amount q) s X d (s\<lparr>rexpool := Some (add_loan_to_rex_pool q rented new p)\<rparr>)"
proof (rule rex_step_quietI)
  assume ok: "rex_ok cs X s" and room: "owed s + (d + amount q) \<le> rex_cap"
  have "amount (total_lendable p) + amount q \<le> rex_cap"
    using owed_parts(1-5) [OF ok] room assms(1,3) by (simp add: owed_def lendable_def)
  note p' = pool_ok_add_loan [OF rex_okD(1) [OF ok assms(1)] assms(2) this, of rented new]
  define s' where "s' = s\<lparr>rexpool := Some (add_loan_to_rex_pool q rented new p)\<rparr>"
  have "rex_ok cs X s' \<and> owed s' = owed s + amount q"
    using rex_ok_pool [OF ok, of s' "add_loan_to_rex_pool q rented new p"] p' assms(1)
    by (simp add: s'_def rex_units_def lendable_def fund_of_def fun_eq_iff)
  then show "rex_ok cs X (s\<lparr>rexpool := Some (add_loan_to_rex_pool q rented new p)\<rparr>) \<and> 0 \<le> d \<and>
      owed (s\<lparr>rexpool := Some (add_loan_to_rex_pool q rented new p)\<rparr>) + d \<le> owed s + (d + amount q)"
    using assms(3) by (simp add: s'_def)
qed simp

lemma step_loan_update:
  assumes "tfind k (loans r s) = Some l" "amount (loan_balance l') = amount (loan_balance l) - x"
    "amount (loan_payment l') = amount (loan_payment l)" "0 \<le> x \<Longrightarrow> x \<le> amount (loan_balance l)" "0 \<le> d + x"
  shows "rex_step cs X d s X (d + x) (put_loans r (AList.update k l' (loans r s)) s)"
proof (rule rex_step_quietI)
  assume ok: "rex_ok cs X s" and d: "0 \<le> d"
  have l: "loan_ok l" using loans_ok_of [OF ok, of r] assms(1) by (auto simp: loans_ok_def)
  then have "loan_ok l'" using assms(2-4) by (cases "0 \<le> x") (simp_all add: loan_ok_def)
  from loans_ok_update [OF loans_ok_of [OF ok] assms(1) this]
  show "rex_ok cs X (put_loans r (AList.update k l' (loans r s)) s) \<and> 0 \<le> d + x \<and>
      owed (put_loans r (AList.update k l' (loans r s)) s) + (d + x) \<le> owed s + d"
    using rex_ok_loans [OF ok] assms(2,5) by simp
qed simp

lemma step_loan_erase:
  assumes "tfind k (loans r s) = Some l"
  shows "rex_step cs X d s X (d + amount (loan_balance l)) (put_loans r (terase k (loans r s)) s)"
proof (rule rex_step_quietI)
  assume ok: "rex_ok cs X s" and d: "0 \<le> d"
  have "loan_ok l" using loans_ok_of [OF ok, of r] assms(1) by (auto simp: loans_ok_def)
  with loans_ok_erase [OF loans_ok_of [OF ok] assms(1)]
  show "rex_ok cs X (put_loans r (terase k (loans r s)) s) \<and> 0 \<le> d + amount (loan_balance l) \<and>
      owed (put_loans r (terase k (loans r s)) s) + (d + amount (loan_balance l)) \<le> owed s + d"
    using rex_ok_loans [OF ok] d by (simp add: loan_ok_def)
qed simp

lemma transfer_to_fund_put_loans:
  "transfer_to_fund n q s = Inr s' \<Longrightarrow> transfer_to_fund n q (put_loans r t s) = Inr (put_loans r t s')"
  by (auto simp: transfer_to_fund_def split: option.splits)

lemma rex_view_put_loans: "rex_view s' = rex_view s \<Longrightarrow> rex_view (put_loans r t s') = rex_view (put_loans r t s)"
  by (cases r) (simp_all add: rex_view_def fun_eq_iff fund_of_def)

lemma writes_limits_view:
  "limits_for_loan r e n x s = Inr s' \<Longrightarrow> rex_view s' = rex_view s \<and> outbox s' = outbox s"
  using writes_limits_for_loan [of r e n x s s'] writes_unchanged [of "{Userres, Limits}" s s' Outbox]
  by (auto intro: writes_rex_view)

text \<open>A renewed loan pays its rent out of its own balance.\<close>

lemma step_renewed_loan:
  assumes ok: "rex_ok cs X s" "owed s \<le> rex_cap" and l: "tfind k (loans r s) = Some l"
    and funded: "amount (loan_payment l) \<le> amount (loan_balance l)"
    and p: "rexpool s = Some p" "remove_loan_from_rex_pool l p = Inr p1"
    and l': "update_renewed_loan rented l = (delta, l')"
  shows "rex_step cs X 0 s X 0 (put_loans r (AList.update k l' (loans r s))
      (s\<lparr>rexpool := Some (add_loan_to_rex_pool (loan_payment l) rented False p1)\<rparr>))"
proof -
  define s1 where "s1 = s\<lparr>rexpool := Some p1\<rparr>"
  define s2 where "s2 = put_loans r (AList.update k l' (loans r s1)) s1"
  have lo: "loan_ok l" using loans_ok_of [OF ok(1), of r] l by (auto simp: loans_ok_def)
  have "amount (loan_balance l) \<le> rex_cap"
    using loan_le_sum [OF loans_ok_of [OF ok(1)] l] loan_le_owed [OF ok(1), of r] owed_parts(3) [OF ok(1)] ok(2) by linarith
  then have "i64 (amount (loan_balance l) - amount (loan_payment l)) = amount (loan_balance l) - amount (loan_payment l)"
    using lo funded by (intro i64_id) (auto simp: loan_ok_def rex_cap_def)
  then have bal: "amount (loan_balance l') = amount (loan_balance l) - amount (loan_payment l)"
    "amount (loan_payment l') = amount (loan_payment l)"
    using l' by (auto simp: update_renewed_loan_def)
  have "rex_step cs X 0 s X 0 s1"
    unfolding s1_def by (rule step_remove_loan [OF p])
  also have "rex_step cs X 0 s1 X (0 + amount (loan_payment l)) s2"
    unfolding s2_def using l lo funded bal by (intro step_loan_update) (auto simp: s1_def loan_ok_def)
  also have "rex_step cs X (0 + amount (loan_payment l)) s2 X 0
      (s2\<lparr>rexpool := Some (add_loan_to_rex_pool (loan_payment l) rented False p1)\<rparr>)"
    using lo by (intro step_add_loan) (auto simp: s2_def s1_def loan_ok_def)
  also have "s2\<lparr>rexpool := Some (add_loan_to_rex_pool (loan_payment l) rented False p1)\<rparr> =
      put_loans r (AList.update k l' (loans r s))
        (s\<lparr>rexpool := Some (add_loan_to_rex_pool (loan_payment l) rented False p1)\<rparr>)"
    by (cases r) (simp_all add: s2_def s1_def)
  finally show ?thesis .
qed

text \<open>A deleted loan's balance goes back to the fund of the account that rented.\<close>

lemma step_deleted_loan:
  assumes ok: "rex_ok cs X s" and l: "tfind k (loans r s) = Some l"
    and p: "rexpool s = Some p" "remove_loan_from_rex_pool l p = Inr p1"
    and refunded: "(if 0 < amount (loan_balance l) then transfer_to_fund (loan_from l) (loan_balance l) (s\<lparr>rexpool := Some p1\<rparr>)
      else Inr (s\<lparr>rexpool := Some p1\<rparr>)) = Inr s2"
    and s3: "rex_view s3 = rex_view s2" "outbox s3 = outbox s2"
  shows "rex_step cs X 0 s X 0 (put_loans r (terase k (loans r s3)) s3)"
proof -
  define s1 where "s1 = s\<lparr>rexpool := Some p1\<rparr>"
  define t where "t = terase k (loans r s)"
  have lo: "loan_ok l" using loans_ok_of [OF ok, of r] l by (auto simp: loans_ok_def)
  have "loans r s2 = loans r s \<and> outbox s2 = outbox s"
    using refunded by (cases r) (auto simp: transfer_to_fund_def split: if_split_asm option.splits)
  moreover have "loans r s3 = loans r s2"
    using rex_view_parts(4,5) [OF s3(1)] by (cases r) simp_all
  ultimately have t: "terase k (loans r s3) = t" "outbox s2 = outbox s" by (simp_all add: t_def)
  have "rex_step cs X 0 s X 0 s1"
    unfolding s1_def by (rule step_remove_loan [OF p])
  also have "rex_step cs X 0 s1 X (amount (loan_balance l)) (put_loans r t s1)"
    using step_loan_erase [where k = k and r = r and s = s1 and l = l and d = 0] l by (simp add: t_def s1_def)
  also have "rex_step cs X (amount (loan_balance l)) (put_loans r t s1) X 0 (put_loans r t s2)"
  proof (cases "0 < amount (loan_balance l)")
    case True
    then show ?thesis
      using refunded by (intro step_transfer_to_fund [OF transfer_to_fund_put_loans]) (simp add: s1_def)
  next
    case False
    then have "s2 = s1" "amount (loan_balance l) = 0" using refunded lo by (simp_all add: s1_def loan_ok_def)
    then show ?thesis by (simp add: rex_step_refl)
  qed
  also have "rex_step cs X 0 (put_loans r t s2) X 0 (put_loans r t s3)"
    using s3 by (intro rex_step_view rex_view_put_loans sends_same) simp_all
  finally show ?thesis by (simp add: t)
qed

lemma step_expired_loan_round:
  assumes e: "asset_laws e" and r: "expired_loan_round r e s = Inr (Some s')"
  shows "rex_step cs X 0 s X 0 s'"
proof (rule rex_step_assume)
  show "sends s s'"
    by (rule sends_writes [OF writes_expired_loan_round [OF r]]) simp
  assume ok: "rex_ok cs X s" and cap: "owed s + 0 \<le> rex_cap"
  obtain k l rest where idx: "tindex by_expr (loans r s) = (k, l) # rest"
    using r by (auto simp: expired_loan_round_def split: list.splits)
  have l: "tfind k (loans r s) = Some l"
    using loans_ok_of [OF ok, of r] idx by (auto simp: loans_ok_def intro: tindex_hd_find)
  obtain x where p0: "process_expired_loan r e k l s = Inr x"
    and c0: "(case x of (del, delta, s1) \<Rightarrow>
        ebind (if delta \<noteq> 0 then limits_for_loan r e (loan_receiver l) delta s1 else Inr s1) (\<lambda>s2.
        Inr (Some (if del then put_loans r (terase k (loans r s2)) s2 else s2)))) = Inr (Some s')"
    using r idx by (auto simp: expired_loan_round_def split: if_split_asm)
  obtain del delta s1 where x: "x = (del, delta, s1)" by (cases x)
  have p: "process_expired_loan r e k l s = Inr (del, delta, s1)" using p0 x by simp
  obtain s2 where lim: "(if delta \<noteq> 0 then limits_for_loan r e (loan_receiver l) delta s1 else Inr s1) = Inr s2"
    and s': "s' = (if del then put_loans r (terase k (loans r s2)) s2 else s2)"
    using c0 unfolding x prod.case ebind_eq_Inr by blast
  have v: "rex_view s2 = rex_view s1" "outbox s2 = outbox s1"
    using lim by (auto split: if_split_asm dest!: writes_limits_view)
  obtain pl pl1 rented funded where pl: "rexpool s = Some pl" "remove_loan_from_rex_pool l pl = Inr pl1"
    and f: "asset_le e (loan_payment l) (loan_balance l) = Inr funded"
    and c: "(if funded \<and> amount (loan_payment l) < rented \<and> rex_loans_available (s\<lparr>rexpool := Some pl1\<rparr>)
        then case update_renewed_loan rented l of
               (delta_stake, l') \<Rightarrow>
                 Inr (False, delta_stake,
                      put_loans r (AList.update k l' (loans r (s\<lparr>rexpool := Some pl1\<rparr>)))
                        ((s\<lparr>rexpool := Some pl1\<rparr>)\<lparr>rexpool := Some (add_loan_to_rex_pool (loan_payment l) rented False pl1)\<rparr>))
        else ebind (if 0 < amount (loan_balance l)
                    then transfer_to_fund (loan_from l) (loan_balance l) (s\<lparr>rexpool := Some pl1\<rparr>)
                    else Inr (s\<lparr>rexpool := Some pl1\<rparr>)) (\<lambda>s2.
             Inr (True, i64 (- amount (loan_staked l)), s2))) = Inr (del, delta, s1)"
    using p by (auto simp: process_expired_loan_def the_pool_def Let_def)
  show "rex_step cs X 0 s X 0 s'"
  proof (cases del)
    case False
    then obtain l' where l': "update_renewed_loan rented l = (delta, l')" and fd: funded
      and s1: "s1 = put_loans r (AList.update k l' (loans r s))
        (s\<lparr>rexpool := Some (add_loan_to_rex_pool (loan_payment l) rented False pl1)\<rparr>)"
      using c by (auto split: if_split_asm prod.splits)
    have "amount (loan_payment l) \<le> amount (loan_balance l)"
      using f fd e by (auto simp: asset_le_law split: if_split_asm)
    then have "rex_step cs X 0 s X 0 s1"
      unfolding s1 using ok cap l pl l' by (intro step_renewed_loan) auto
    also have "rex_step cs X 0 s1 X 0 s2"
      using v by (intro rex_step_view sends_same) auto
    finally show ?thesis using s' False by simp
  next
    case True
    then have "(if 0 < amount (loan_balance l)
        then transfer_to_fund (loan_from l) (loan_balance l) (s\<lparr>rexpool := Some pl1\<rparr>)
        else Inr (s\<lparr>rexpool := Some pl1\<rparr>)) = Inr s1"
      using c by (auto split: if_split_asm prod.splits)
    from step_deleted_loan [OF ok l pl this v] show ?thesis using s' True by simp
  qed
qed

lemma step_process_loans:
  assumes "asset_laws e"
  shows "process_loans r e n s = Inr s' \<Longrightarrow> rex_step cs X 0 s X 0 s'"
proof (induction n arbitrary: s)
  case (Suc n)
  then obtain nxt where r: "expired_loan_round r e s = Inr nxt"
    and c: "(case nxt of None \<Rightarrow> Inr s | Some s' \<Rightarrow> process_loans r e n s') = Inr s'" by auto
  show ?case
  proof (cases nxt)
    case (Some s1)
    have "rex_step cs X 0 s X 0 s1"
      by (rule step_expired_loan_round [OF assms]) (use r Some in simp)
    also have "rex_step cs X 0 s1 X 0 s'"
      by (rule Suc.IH) (use c Some in simp)
    finally show ?thesis .
  qed (use c in \<open>simp add: rex_step_refl\<close>)
qed (simp add: rex_step_refl)

end
