(* ===== verification/Rex_Trades.thy ===== *)
theory Rex_Trades
  imports Rex_Steps
begin

text \<open>
  Buying and selling as steps of the ledger: a filled order takes its proceeds out of the pool,
  a payment enters it; the maintenance \<open>runrex\<close>; the settlement of an account.
\<close>

section \<open>Filling an order\<close>

lemma i64_rest: "i64 (i64 (S - T) + T) = i64 S"
  by simp

lemma fill_rex_order_filled:
  assumes pool: "pool_ok cs p" and b: "balance_ok rb" "amount (rex_held rb) \<le> amount (total_rex p)"
    and x: "0 \<le> amount rex" "amount rex \<le> matured_rex rb"
    and f: "fill_rex_order e cs' rex p rb = Inr (oc, p', rb')" "success oc"
  shows "pool_ok cs p'" "0 \<le> amount (proceeds oc)"
    "amount (total_lendable p') = amount (total_lendable p) - amount (proceeds oc)"
    "amount (total_rex p') = amount (total_rex p) - amount rex"
    "balance_ok rb'" "amount (rex_held rb') = amount (rex_held rb) - amount rex"
proof -
  note ok = pool_okD [OF pool]
  define S R x where d: "S = amount (total_lendable p)" "R = amount (total_rex p)" "x = amount rex"
  note bd = balance_okD [OF b(1)]
  have xR: "0 \<le> x" "x \<le> R" using x bd b(2) by (simp_all add: d)
  obtain pr cv where pr: "muldiv128 x S R = Inr pr"
    and succ: "proceeds oc = mk_asset pr cs'"
    and p': "p' = p\<lparr>total_rex := set_amount (i64 (R - x)) (total_rex p),
                     total_lendable := set_amount (i64 (S - pr)) (total_lendable p),
                     total_unlent := set_amount (i64 (i64 (S - pr) - amount (total_lent p))) (total_unlent p)\<rparr>"
    and rb': "rb' = rb\<lparr>vote_stake := set_amount (i64 (cv - pr)) (vote_stake rb),
                       rex_held := add_amount (- x) (rex_held rb), matured_rex := i64 (matured_rex rb - x)\<rparr>"
    using f by (auto simp: fill_rex_order_def Let_def d split: if_split_asm)
  have "u128 R \<noteq> 0" using pr by (auto simp: muldiv128_def)
  then have R: "0 < R" using ok(3) by (cases "R = 0") (auto simp: d u128_def)
  have S: "0 \<le> S" "S \<le> rex_cap" "R \<le> rex_limit" "R \<le> rex_ratio * S"
    using ok by (simp_all add: d rex_limit_def)
  note sh = sell_shares [OF xR R S(1)]
  have "muldiv128 x S R = Inr (x * S div R)"
    using xR R S sh by (intro muldiv128_exact) (simp_all add: rex_cap_def rex_limit_def)
  then have pr': "pr = x * S div R" using pr by simp
  then have prb: "0 \<le> pr" "pr \<le> S" using sh by simp_all
  have m: "x \<le> matured_rex rb" "matured_rex rb \<le> R" "amount (rex_held rb) \<le> R" "0 \<le> amount (rex_held rb)"
    using bd b(2) x by (simp_all add: d)
  have i: "i64 (R - x) = R - x" "i64 (matured_rex rb - x) = matured_rex rb - x"
    "i64 (amount (rex_held rb) - x) = amount (rex_held rb) - x"
    using xR m S(3) by (intro i64_id; simp add: rex_limit_def)+
  have i2: "i64 (S - pr) = S - pr"
    using prb S(1,2) by (intro i64_id) (simp_all add: rex_cap_def)
  have "R - x \<le> rex_ratio * (S - pr)"
    unfolding pr' by (rule ratio_sell [OF xR R S(1) S(4)]) (simp add: rex_ratio_def)
  moreover have "i64 (i64 (S - pr - amount (total_lent p)) + amount (total_lent p)) = S - pr"
    unfolding i64_rest i2 ..
  ultimately show "pool_ok cs p'"
    using ok(7) xR S sh by (simp add: pool_ok_def p' i i2 i2 [unfolded pr'] pr' del: i64_add_left i64_add_right)
  show "0 \<le> amount (proceeds oc)" using sh by (simp add: succ pr')
  show "amount (total_lendable p') = amount (total_lendable p) - amount (proceeds oc)"
    by (simp add: p' i2 succ) (simp add: d)
  show "amount (total_rex p') = amount (total_rex p) - amount rex"
    by (simp add: p' i) (simp add: d)
  show "amount (rex_held rb') = amount (rex_held rb) - amount rex"
    by (simp add: rb' i) (simp add: d)
  moreover have "matured_rex rb' = matured_rex rb - amount rex" "rex_maturities rb' = rex_maturities rb"
    by (simp_all add: rb' i) (simp add: d)
  ultimately show "balance_ok rb'"
    using b(1) x by (simp add: balance_ok_def buckets_ok_def rex_in_def)
qed

lemma fill_order_of_parts:
  assumes "fill_order_of e owner rb rex s = Inr (oc, s')"
  obtains cs' p p' rb' where "rexpool s = Some p" "fill_rex_order e cs' rex p rb = Inr (oc, p', rb')"
    "s' = s\<lparr>rexpool := Some p', rexbalance := AList.update owner rb' (rexbalance s)\<rparr>"
  using assms by (auto simp: fill_order_of_def the_pool_def)

text \<open>A filled order leaves its proceeds in hand.\<close>

lemma step_fill_success:
  assumes f: "fill_order_of e owner rb rex s = Inr (oc, s')" "success oc"
    and rb: "tfind owner (rexbalance s) = Some rb" and x: "0 \<le> amount rex" "amount rex \<le> matured_rex rb"
  shows "rex_step cs X d s (insert owner X) (d + amount (proceeds oc)) s'"
proof -
  obtain cs' p p' rb' where p: "rexpool s = Some p" and fill: "fill_rex_order e cs' rex p rb = Inr (oc, p', rb')"
    and s': "s' = s\<lparr>rexpool := Some p', rexbalance := AList.update owner rb' (rexbalance s)\<rparr>"
    by (rule fill_order_of_parts [OF f(1)])
  show ?thesis
  proof (rule rex_step_quietI)
    show "outbox s' = outbox s" by (simp add: s')
    assume ok: "rex_ok cs X s" and d: "0 \<le> d"
    have h: "held_of s owner = amount (rex_held rb)" "rex_units s = amount (total_rex p)" "lendable s = amount (total_lendable p)"
      by (simp_all add: held_of_def rb rex_units_def lendable_def p)
    then have le: "amount (rex_held rb) \<le> amount (total_rex p)"
      using held_of_le [OF ok, of owner] by simp
    note r = fill_rex_order_filled [OF rex_okD(1) [OF ok p] rex_okD(4) [OF ok rb] le x fill f(2)]
    have "rex_ok cs (insert owner X) s' \<and> owed s' = owed s - lendable s + lendable s'"
      by (intro conjI; rule rex_ok_trade [OF ok, where n = owner and rb = rb' and Y = "insert owner X"])
        (use r h in \<open>auto simp: s' rex_units_def fund_of_def fun_eq_iff\<close>)
    then show "rex_ok cs (insert owner X) s' \<and> 0 \<le> d + amount (proceeds oc) \<and>
        owed s' + (d + amount (proceeds oc)) \<le> owed s + d"
      using r h d by (simp add: lendable_def s')
  qed
qed

lemma fill_failure:
  assumes "fill_order_of e owner rb rex s = Inr (oc, s')" "\<not> success oc" "tfind owner (rexbalance s) = Some rb"
  shows "s' = s" "amount (proceeds oc) = 0" "amount (stake_change oc) = 0"
  using assms by (auto simp: fill_order_of_def fill_rex_order_def the_pool_def Let_def update_same split: if_split_asm)

section \<open>The queue\<close>

lemma rex_ok_order:
  assumes ok: "rex_ok cs X s" and r: "order_ok (n \<notin> Y) (matured_of s n) r" and X: "X - {n} \<subseteq> Y"
  defines "s' \<equiv> s\<lparr>rexorders := AList.update n r (rexorders s)\<rparr>"
  shows "rex_ok cs Y s'" "owed s' = owed s - proceeds_of s n + amount (order_proceeds r)"
proof -
  have f: "fund_of s' = fund_of s" "held_of s' = held_of s" "matured_of s' = matured_of s"
    "lendable s' = lendable s" "rex_units s' = rex_units s"
    by (simp_all add: s'_def fun_eq_iff fund_of_def held_of_def matured_of_def lendable_def rex_units_def)
  have p: "proceeds_of s' = (proceeds_of s)(n := amount (order_proceeds r))"
    by (auto simp: s'_def proceeds_of_def fun_eq_iff)
  have "order_ok (k \<notin> Y) (matured_of s k) q" if "tfind k (rexorders s') = Some q" for k q
  proof (cases "k = n")
    case True
    then show ?thesis using that r by (simp add: s'_def)
  next
    case False
    then have "order_ok (k \<notin> X) (matured_of s k) q"
      using that by (intro rex_okD(5) [OF ok]) (simp add: s'_def)
    then show ?thesis using False X by (auto simp: order_ok_def)
  qed
  then show "rex_ok cs Y s'"
    using ok unfolding rex_ok_def f by (simp add: s'_def)
  show "owed s' = owed s - proceeds_of s n + amount (order_proceeds r)"
    using sum_UNIV_upd [of "proceeds_of s" n "amount (order_proceeds r)"]
    by (simp add: owed_def f p) (simp add: s'_def)
qed

lemma rex_ok_order_erased:
  fixes n :: name
  assumes ok: "rex_ok cs X s"
  defines "s' \<equiv> s\<lparr>rexorders := terase n (rexorders s)\<rparr>"
  shows "rex_ok cs (X - {n}) s'" "owed s' = owed s - proceeds_of s n"
proof -
  have f: "fund_of s' = fund_of s" "held_of s' = held_of s" "matured_of s' = matured_of s"
    "lendable s' = lendable s" "rex_units s' = rex_units s"
    by (simp_all add: s'_def fun_eq_iff fund_of_def held_of_def matured_of_def lendable_def rex_units_def)
  have p: "proceeds_of s' = (proceeds_of s)(n := 0)"
    by (auto simp: s'_def proceeds_of_def fun_eq_iff)
  show "rex_ok cs (X - {n}) s'"
    using ok unfolding rex_ok_def f by (auto simp: s'_def)
  show "owed s' = owed s - proceeds_of s n"
    using sum_UNIV_upd [of "proceeds_of s" n 0] by (simp add: owed_def f p) (simp add: s'_def)
qed

text \<open>One queued order: when it is filled, the proceeds go into the order, which is closed.\<close>

lemma step_fill_queued:
  assumes f: "fill_queued_order e (owner, r) s = Inr s'" and r: "tfind owner (rexorders s) = Some r" "is_open r"
    and X: "owner \<notin> X"
  shows "rex_step cs X 0 s X 0 s'"
proof (rule rex_step_assume)
  show "sends s s'"
    using f by (auto simp: fill_queued_order_def fill_order_of_def sends_def send_inline_def split: option.splits)
  assume ok: "rex_ok cs X s"
  have o: "amount (order_proceeds r) = 0" "0 < amount (rex_requested r)" "amount (rex_requested r) \<le> matured_of s owner"
    using rex_okD(5) [OF ok r(1)] r(2) X by (simp_all add: order_ok_def)
  then obtain rb where rb: "tfind owner (rexbalance s) = Some rb"
    by (auto simp: matured_of_def split: option.splits)
  obtain oc s1 where fill: "fill_order_of e owner rb (rex_requested r) s = Inr (oc, s1)"
    and s': "s' = (if success oc then send_inline (RexResult (OrderResult owner (proceeds oc)))
        (s1\<lparr>rexorders := AList.update owner
           (r\<lparr>order_proceeds := set_amount (amount (proceeds oc)) (order_proceeds r),
              order_stake_change := set_amount (amount (stake_change oc)) (order_stake_change r),
              is_open := False\<rparr>) (rexorders s1)\<rparr>) else s1)"
    using f by (auto simp: fill_queued_order_def rb)
  show "rex_step cs X 0 s X 0 s'"
  proof (cases "success oc")
    case False
    then show ?thesis using fill_failure [OF fill _ rb] s' by (simp add: rex_step_refl)
  next
    case True
    define r' where "r' = r\<lparr>order_proceeds := set_amount (amount (proceeds oc)) (order_proceeds r),
      order_stake_change := set_amount (amount (stake_change oc)) (order_stake_change r), is_open := False\<rparr>"
    define s2 where "s2 = s1\<lparr>rexorders := AList.update owner r' (rexorders s1)\<rparr>"
    have ro: "rexorders s1 = rexorders s"
      using fill by (auto simp: fill_order_of_def)
    have "rex_step cs X 0 s (insert owner X) (0 + amount (proceeds oc)) s1"
      using fill True rb o by (intro step_fill_success) (auto simp: matured_of_def)
    also have "rex_step cs (insert owner X) (0 + amount (proceeds oc)) s1 X 0 s2"
    proof (rule rex_step_quietI)
      assume ok1: "rex_ok cs (insert owner X) s1" and d: "0 \<le> 0 + amount (proceeds oc)"
      have "order_ok (owner \<notin> X) (matured_of s1 owner) r'" using d by (simp add: order_ok_def r'_def)
      from rex_ok_order [OF ok1 this] X
      have "rex_ok cs X s2 \<and> owed s2 = owed s1 - proceeds_of s1 owner + amount (order_proceeds r')"
        by (simp add: s2_def)
      then show "rex_ok cs X s2 \<and> 0 \<le> (0 :: int) \<and> owed s2 + 0 \<le> owed s1 + (0 + amount (proceeds oc))"
        using r o by (simp add: proceeds_of_def ro r'_def)
    qed (simp add: s2_def)
    also have "rex_step cs X 0 s2 X 0 s'"
      using s' True by (intro rex_step_view)
        (simp_all add: s2_def r'_def rex_view_def fun_eq_iff fund_of_def send_inline_def sends_def)
    finally show ?thesis .
  qed
qed

text \<open>
  The loop over the queue sees each owner's order as it was before the loop; an order that
  was not reached yet is still there.
\<close>

lemma fill_queued_others:
  assumes "fill_queued_order e (owner, r) s = Inr s'" "n \<noteq> owner"
  shows "tfind n (rexorders s') = tfind n (rexorders s)"
  using assms by (auto simp: fill_queued_order_def fill_order_of_def send_inline_def split: option.splits)

lemma step_fill_all:
  assumes "efold (fill_queued_order e) xs s = Inr s'" "distinct (map fst xs)"
    and "\<And>n r. (n, r) \<in> set xs \<Longrightarrow> tfind n (rexorders s) = Some r \<and> is_open r \<and> n \<notin> X"
  shows "rex_step cs X 0 s X 0 s'"
  using assms
proof (induction xs arbitrary: s)
  case (Cons x xs)
  obtain n r where x: "x = (n, r)" by force
  obtain s1 where s1: "fill_queued_order e (n, r) s = Inr s1" "efold (fill_queued_order e) xs s1 = Inr s'"
    using Cons.prems(1) x by auto
  have "rex_step cs X 0 s X 0 s1"
    using Cons.prems(3) [of n r] x by (intro step_fill_queued [OF s1(1)]) auto
  also have "rex_step cs X 0 s1 X 0 s'"
  proof (rule Cons.IH [OF s1(2)])
    show "distinct (map fst xs)" using Cons.prems(2) by simp
    fix m q
    assume m: "(m, q) \<in> set xs"
    then have "m \<noteq> n" using Cons.prems(2) x by force
    then show "tfind m (rexorders s1) = Some q \<and> is_open q \<and> m \<notin> X"
      using fill_queued_others [OF s1(1)] Cons.prems(3) [of m q] m by simp
  qed
  finally show ?case .
qed (simp add: rex_step_refl)

lemma distinct_map_takeWhile: "distinct (map f xs) \<Longrightarrow> distinct (map f (takeWhile P (take n xs)))"
  by (metis append_take_drop_id distinct_append map_append takeWhile_dropWhile_id)

lemma sends_process_orders: "process_orders e n s = Inr s' \<Longrightarrow> sends s s'"
  unfolding process_orders_def
  by (erule efold_invariant [where P = "sends s"], simp, erule sends_trans)
    (auto simp: fill_queued_order_def fill_order_of_def sends_def send_inline_def split: option.splits if_split_asm)

text \<open>The orders the loop goes through.\<close>

lemma queue_rows:
  fixes n :: nat
  assumes "rex_ok cs {} s"
  defines "xs \<equiv> takeWhile (\<lambda>(_, r). is_open r) (take n (tindex by_time (rexorders s)))"
  shows "distinct (map fst xs)" "(m, q) \<in> set xs \<Longrightarrow> tfind m (rexorders s) = Some q \<and> is_open q \<and> m \<notin> {}"
proof -
  show "distinct (map fst xs)"
    unfolding xs_def by (rule distinct_map_takeWhile [OF distinct_tindex [OF rex_okD(6) [OF assms(1)]]])
  assume m: "(m, q) \<in> set xs"
  then have "(m, q) \<in> set (rexorders s)" "is_open q"
    using set_takeWhileD [of "(m, q)" "\<lambda>(_, r). is_open r"] in_set_takeD [of "(m, q)" n "tindex by_time (rexorders s)"]
    by (auto simp: xs_def)
  then show "tfind m (rexorders s) = Some q \<and> is_open q \<and> m \<notin> {}"
    using rex_okD(6) [OF assms(1)] by (simp add: twf_def)
qed

lemma step_process_orders:
  assumes "process_orders e n s = Inr s'"
  shows "rex_step cs {} 0 s {} 0 s'"
proof (rule rex_step_assume [OF sends_process_orders [OF assms]])
  assume ok: "rex_ok cs {} s"
  show "rex_step cs {} 0 s {} 0 s'"
    by (rule step_fill_all [OF assms [unfolded process_orders_def] queue_rows [OF ok]])
qed

section \<open>Maintenance\<close>

lemma step_runrex:
  assumes "asset_laws e" "runrex e n s = Inr s'"
  shows "rex_step cs {} 0 s {} 0 s'"
proof -
  obtain s1 s2 s3 where s1: "channel_proceeds e s = Inr s1" and s2: "process_loans CPU e n s1 = Inr s2"
    and s3: "process_loans NET e n s2 = Inr s3" and s': "process_orders e n s3 = Inr s'"
    using assms(2) by (auto simp: runrex_def)
  have "rex_step cs {} 0 s {} 0 s1" by (rule step_channel_proceeds [OF s1])
  also have "rex_step cs {} 0 s1 {} 0 s2" by (rule step_process_loans [OF assms(1) s2])
  also have "rex_step cs {} 0 s2 {} 0 s3" by (rule step_process_loans [OF assms(1) s3])
  also have "rex_step cs {} 0 s3 {} 0 s'" by (rule step_process_orders [OF s'])
  finally show ?thesis .
qed

section \<open>Buying\<close>

lemma add_to_rex_pool_parts:
  assumes e: "asset_laws e" and a: "add_to_rex_pool e q s = Inr (got, s')" and cs: "core_symbol s = Inr cs"
    and ok: "rex_ok cs X s" and q: "0 < amount q" "owed s + amount q \<le> rex_cap"
  obtains p' where "s' = s\<lparr>rexpool := Some p'\<rparr>" "pool_ok cs p'" "0 \<le> amount got"
    "amount (total_rex p') = rex_units s + amount got" "amount (total_lendable p') \<le> lendable s + amount q"
proof -
  have cap: "lendable s + amount q \<le> rex_cap" "0 \<le> lendable s"
    using owed_parts(1-5) [OF ok] q(2) by (simp_all add: owed_def)
  then have q': "amount q \<le> rex_cap" by simp
  have fresh: "i64 (amount q * rex_ratio) = amount q * rex_ratio" "i64 (amount q) = amount q"
    using q(1) q' by (intro i64_id; simp add: rex_cap_def rex_ratio_def)+
  show ?thesis
  proof (cases "rexpool s")
    case None
    obtain u where u: "asset_minus e q (mk_asset 0 cs) = Inr u" and
      s': "got = mk_asset (amount q * rex_ratio) rex_symbol"
      "s' = s\<lparr>rexpool := Some \<lparr>total_lent = mk_asset 0 cs, total_unlent = u, total_rent = mk_asset init_total_rent cs,
         total_lendable = q, total_rex = mk_asset (amount q * rex_ratio) rex_symbol,
         namebid_proceeds = mk_asset 0 cs, loan_num = 0\<rparr>\<rparr>"
      using a cs None fresh by (auto simp: add_to_rex_pool_def Let_def)
    have "amount u = amount q"
      using u e fresh by (auto simp: asset_minus_i64 split: if_split_asm)
    then show ?thesis
      using q q' fresh s' by (intro that) (auto simp: None pool_ok_def rex_units_def lendable_def rex_ratio_def)
  next
    case (Some p)
    note pk = pool_okD [OF rex_okD(1) [OF ok Some]]
    show ?thesis
    proof (cases "0 < amount (total_rex p)")
      case False
      then have "amount (total_rex p) = 0" using pk(3) by simp
      then show ?thesis
        using a cs Some False q q' fresh pk
        by (intro that) (auto simp: add_to_rex_pool_def Let_def pool_ok_def rex_units_def lendable_def rex_ratio_def)
    next
      case True
      define S R where d: "S = amount (total_lendable p)" "R = amount (total_rex p)"
      have i: "i64 (S + amount q) = S + amount q"
        using cap q(1) by (intro i64_id) (simp_all add: d lendable_def Some rex_cap_def)
      obtain R1 where S: "0 < S" and R1: "muldiv128 (S + amount q) R S = Inr R1"
        and s': "got = mk_asset (i64 (R1 - R)) rex_symbol"
          "s' = s\<lparr>rexpool := Some (p\<lparr>total_lendable := set_amount (S + amount q) (total_lendable p),
                total_rex := set_amount R1 (total_rex p),
                total_unlent := set_amount (i64 (S + amount q - amount (total_lent p))) (total_unlent p)\<rparr>)\<rparr>"
        using a cs Some True i by (auto simp: add_to_rex_pool_def Let_def d)
      have R: "0 < R" "R \<le> rex_ratio * S" "S + amount q \<le> rex_cap"
        using True pk cap by (simp_all add: d lendable_def Some)
      note b = buy_shares(1) [OF S less_imp_le [OF R(1)] less_imp_le [OF q(1)]]
        ratio_buy [OF S less_imp_le [OF R(1)] less_imp_le [OF q(1)] R(2)]
      have "rex_ratio * (S + amount q) \<le> 4000000000000000000"
        using R(3) by (simp add: rex_ratio_def rex_cap_def)
      then have lim: "(S + amount q) * R div S \<le> 4000000000000000000" "R \<le> 4000000000000000000"
        using b by linarith+
      have "muldiv128 (S + amount q) R S = Inr ((S + amount q) * R div S)"
        using S R q lim by (intro muldiv128_exact) (simp_all add: rex_cap_def)
      then have R1': "R1 = (S + amount q) * R div S" using R1 by simp
      have i2: "i64 (R1 - R) = R1 - R" using lim b(1) R(1) R1' by (intro i64_id) simp_all
      have i3: "i64 (i64 (S + amount q - amount (total_lent p)) + amount (total_lent p)) = S + amount q"
        unfolding i64_rest i ..
      define p' where "p' = p\<lparr>total_lendable := set_amount (S + amount q) (total_lendable p),
                total_rex := set_amount R1 (total_rex p),
                total_unlent := set_amount (i64 (S + amount q - amount (total_lent p))) (total_unlent p)\<rparr>"
      have "pool_ok cs p'"
        using S R q b pk(7) i3 by (simp add: pool_ok_def p'_def R1' del: i64_add_left i64_add_right)
      then show ?thesis
        using s' b i2 by (intro that [of p']) (simp_all add: p'_def Some rex_units_def lendable_def d R1')
    qed
  qed
qed

lemma add_to_rex_balance_parts:
  assumes "add_to_rex_balance e n q got s = Inr (delta, s')"
  obtains rb where "s' = s\<lparr>rexbalance := AList.update n (add_maturing_rex e (amount got) rb) (rexbalance s)\<rparr>"
    "case tfind n (rexbalance s) of
       None \<Rightarrow> rex_held rb = got \<and> matured_rex rb = 0 \<and> rex_maturities rb = []
     | Some old \<Rightarrow> amount (rex_held rb) = i64 (amount (rex_held old) + amount got) \<and>
         matured_rex rb = matured_rex old \<and> rex_maturities rb = rex_maturities old"
proof (cases "tfind n (rexbalance s)")
  case None
  then show ?thesis using assms
    by (intro that [of "\<lparr>vote_stake = q, rex_held = got, matured_rex = 0, rex_maturities = []\<rparr>"])
      (auto simp: add_to_rex_balance_def)
next
  case (Some old)
  then obtain st where "s' = s\<lparr>rexbalance := AList.update n (add_maturing_rex e (amount got)
      (old\<lparr>rex_held := add_amount (amount got) (rex_held old), vote_stake := set_amount st (vote_stake old)\<rparr>)) (rexbalance s)\<rparr>"
    using assms by (auto simp: add_to_rex_balance_def the_pool_def Let_def)
  then show ?thesis using Some by (intro that) auto
qed

text \<open>A payment in hand buys REX: the pool and the buyer's balance grow by the same units.\<close>

lemma step_buy:
  assumes e: "asset_laws e" and a: "add_to_rex_pool e q s = Inr (got, s1)" and b: "add_to_rex_balance e n q got s1 = Inr (delta, s')"
    and cs: "core_symbol s = Inr cs" and q: "0 < amount q"
  shows "rex_step cs X (amount q) s X 0 s'"
proof (rule rex_step_quietI)
  show "outbox s' = outbox s"
    using writes_unchanged [OF writes_add_to_rex_pool [OF a], of Outbox]
      writes_unchanged [OF writes_add_to_rex_balance [OF b], of Outbox] by simp
  assume ok: "rex_ok cs X s" and room: "owed s + amount q \<le> rex_cap"
  obtain p' where s1: "s1 = s\<lparr>rexpool := Some p'\<rparr>" and p': "pool_ok cs p'" "0 \<le> amount got"
    "amount (total_rex p') = rex_units s + amount got" "amount (total_lendable p') \<le> lendable s + amount q"
    by (rule add_to_rex_pool_parts [OF e a cs ok q room])
  obtain rb where s': "s' = s1\<lparr>rexbalance := AList.update n (add_maturing_rex e (amount got) rb) (rexbalance s1)\<rparr>"
    and rb: "case tfind n (rexbalance s1) of
       None \<Rightarrow> rex_held rb = got \<and> matured_rex rb = 0 \<and> rex_maturities rb = []
     | Some old \<Rightarrow> amount (rex_held rb) = i64 (amount (rex_held old) + amount got) \<and>
         matured_rex rb = matured_rex old \<and> rex_maturities rb = rex_maturities old"
    by (rule add_to_rex_balance_parts [OF b])
  have lim: "held_of s n + amount got \<le> rex_limit"
    using held_of_le [OF ok, of n] pool_okD(4) [OF p'(1)] p'(3) by (simp add: rex_limit_def)
  have h0: "0 \<le> held_of s n" by (rule held_of_nonneg [OF ok])
  have r: "buckets_ok rb" "amount (rex_held rb) = held_of s n + amount got" "rex_in rb = held_of s n" "matured_rex rb = matured_of s n"
  proof -
    have "buckets_ok rb \<and> amount (rex_held rb) = held_of s n + amount got \<and> rex_in rb = held_of s n \<and> matured_rex rb = matured_of s n"
    proof (cases "tfind n (rexbalance s)")
      case None
      then show ?thesis using rb by (simp add: s1 buckets_ok_def rex_in_def held_of_def matured_of_def)
    next
      case (Some old)
      have "i64 (amount (rex_held old) + amount got) = amount (rex_held old) + amount got"
        using lim h0 p'(2) Some by (intro i64_below) (simp_all add: held_of_def rex_limit_def)
      then show ?thesis
        using rb rex_okD(4) [OF ok Some] Some by (simp add: s1 balance_ok_def buckets_ok_def rex_in_def held_of_def matured_of_def)
    qed
    then show "buckets_ok rb" "amount (rex_held rb) = held_of s n + amount got" "rex_in rb = held_of s n" "matured_rex rb = matured_of s n"
      by auto
  qed
  define rb' where "rb' = add_maturing_rex e (amount got) rb"
  have rb': "balance_ok rb'" "amount (rex_held rb') = held_of s n + amount got" "matured_of s n \<le> matured_rex rb'"
    unfolding rb'_def using add_maturing_keeps [OF r(1) p'(2), of e] lim r by (simp_all add: balance_ok_def)
  have "rex_ok cs X s' \<and> owed s' = owed s - lendable s + lendable s'"
    by (intro conjI; rule rex_ok_trade [OF ok, where n = n and rb = rb' and Y = X])
      (use p' rb' in \<open>auto simp: s' s1 rb'_def [symmetric] rex_units_def fund_of_def fun_eq_iff\<close>)
  then show "rex_ok cs X s' \<and> 0 \<le> (0 :: int) \<and> owed s' + 0 \<le> owed s + amount q"
    using p'(4) by (simp add: s' s1 lendable_def)
qed

section \<open>Settling an account\<close>

lemma writes_voting_view:
  assumes "(if b then update_voting_power e n q s else Inr s) = Inr s'"
  shows "rex_view s' = rex_view s" "outbox s' = outbox s" "rexbalance s' = rexbalance s" "rexorders s' = rexorders s"
proof -
  have w: "writes vote_fields s s'"
    using assms by (auto split: if_split_asm dest: writes_votes(1))
  show "rex_view s' = rex_view s" by (rule writes_rex_view [OF w]) simp
  show "outbox s' = outbox s" "rexbalance s' = rexbalance s" "rexorders s' = rexorders s"
    using writes_unchanged [OF w, of Outbox] writes_unchanged [OF w, of Rexbalance] writes_unchanged [OF w, of Rexorders]
    by simp_all
qed

text \<open>What the caller learns: the REX in the open order, if there is one.\<close>

lemma update_rex_account_pending:
  assumes "update_rex_account e n pr delta force s = Inr (pending, s')"
  shows "rexbalance s' = rexbalance s" "outbox s' = outbox s"
    "case tfind n (rexorders s') of
       None \<Rightarrow> amount pending = 0
     | Some r \<Rightarrow> is_open r \<and> amount pending = amount (rex_requested r)"
    "m \<noteq> n \<Longrightarrow> tfind m (rexorders s') = tfind m (rexorders s)"
proof -
  obtain to_fund to_stake s1 s2 where s1: "(case tfind n (rexorders s) of
          None \<Rightarrow> (pr, delta, mk_asset 0 rex_symbol, s)
        | Some order \<Rightarrow>
            if is_open order
            then (pr, delta, mk_asset (amount (rex_requested order)) rex_symbol, s)
            else (add_amount (amount (order_proceeds order)) pr, add_amount (amount (order_stake_change order)) delta,
                  mk_asset 0 rex_symbol, s\<lparr>rexorders := terase n (rexorders s)\<rparr>)) = (to_fund, to_stake, pending, s1)"
    and s2: "(if 0 < amount to_fund then transfer_to_fund n to_fund s1 else Inr s1) = Inr s2"
    and s3: "(if force \<or> amount to_stake \<noteq> 0 then update_voting_power e n to_stake s2 else Inr s2) = Inr s'"
    using assms by (auto simp: update_rex_account_def split: prod.splits)
  have w: "writes {Rexfunds} s1 s2"
    using s2 by (auto split: if_split_asm dest: writes_transfer_to_fund)
  have s2_parts: "rexbalance s2 = rexbalance s1" "outbox s2 = outbox s1" "rexorders s2 = rexorders s1"
    using writes_unchanged [OF w, of Rexbalance] writes_unchanged [OF w, of Outbox] writes_unchanged [OF w, of Rexorders] by simp_all
  note v = writes_voting_view [OF s3]
  show "rexbalance s' = rexbalance s" "outbox s' = outbox s"
    using s1 by (auto simp: v s2_parts split: option.splits if_split_asm)
  show "case tfind n (rexorders s') of
       None \<Rightarrow> amount pending = 0
     | Some r \<Rightarrow> is_open r \<and> amount pending = amount (rex_requested r)"
    using s1 by (auto simp: v s2_parts split: option.splits if_split_asm)
  show "m \<noteq> n \<Longrightarrow> tfind m (rexorders s') = tfind m (rexorders s)"
    using s1 by (auto simp: v s2_parts split: option.splits if_split_asm)
qed

lemma step_maybe_to_fund:
  assumes "(if 0 < amount q then transfer_to_fund n q s else Inr s) = Inr s'"
  shows "rex_step cs X (amount q) s X 0 s'"
proof (cases "0 < amount q")
  case True
  then show ?thesis using assms by (auto intro: step_transfer_to_fund)
next
  case False
  then have "s' = s" using assms by simp
  then show ?thesis using False by (auto simp: rex_step_def)
qed

lemma step_collect_proceeds:
  assumes r: "tfind n (rexorders s) = Some r" "\<not> is_open r"
  shows "rex_step cs X d s X (d + amount (order_proceeds r)) (s\<lparr>rexorders := terase n (rexorders s)\<rparr>)"
proof (rule rex_step_quietI)
  assume ok: "rex_ok cs X s" and d: "0 \<le> d"
  have "0 \<le> amount (order_proceeds r)" using rex_okD(5) [OF ok r(1)] by (simp add: order_ok_def)
  then show "rex_ok cs X (s\<lparr>rexorders := terase n (rexorders s)\<rparr>) \<and> 0 \<le> d + amount (order_proceeds r) \<and>
      owed (s\<lparr>rexorders := terase n (rexorders s)\<rparr>) + (d + amount (order_proceeds r)) \<le> owed s + d"
    using rex_ok_order_erased [OF ok, of n] d r by (auto simp: proceeds_of_def intro: rex_ok_mono)
qed simp

lemma step_update_rex_account:
  assumes "update_rex_account e n pr delta force s = Inr (pending, s')"
  shows "rex_step cs X (amount pr) s X 0 s'"
proof (rule rex_step_assume)
  show "sends s s'"
    by (rule sends_same) (rule update_rex_account_pending(2) [OF assms])
  assume ok: "rex_ok cs X s" and room: "0 \<le> amount pr" "owed s + amount pr \<le> rex_cap"
  show "rex_step cs X (amount pr) s X 0 s'"
  proof (cases "\<exists>r. tfind n (rexorders s) = Some r \<and> \<not> is_open r")
    case True
    then obtain r where r: "tfind n (rexorders s) = Some r" "\<not> is_open r" by blast
    define s1 where "s1 = s\<lparr>rexorders := terase n (rexorders s)\<rparr>"
    define q where "q = add_amount (amount (order_proceeds r)) pr"
    define to_stake where "to_stake = add_amount (amount (order_stake_change r)) delta"
    obtain s2 where s2: "(if 0 < amount q then transfer_to_fund n q s1 else Inr s1) = Inr s2"
      and s3: "(if force \<or> amount to_stake \<noteq> 0 then update_voting_power e n to_stake s2 else Inr s2) = Inr s'"
      using assms r by (auto simp: update_rex_account_def simp flip: q_def s1_def to_stake_def)
    have "amount (order_proceeds r) \<le> owed s" "0 \<le> amount (order_proceeds r)"
      using owed_parts(1-5) [OF ok] owed_parts(7) [OF ok, of n] rex_okD(5) [OF ok r(1)] r
      by (simp_all add: owed_def proceeds_of_def order_ok_def)
    then have q: "amount q = amount pr + amount (order_proceeds r)"
      using room unfolding q_def add_amount_simps by (intro i64_id) (simp_all add: rex_cap_def)
    have "rex_step cs X (amount pr) s X (amount q) s1"
      unfolding s1_def q by (rule step_collect_proceeds [OF r])
    also have "rex_step cs X (amount q) s1 X 0 s2"
      by (rule step_maybe_to_fund [OF s2])
    also have "rex_step cs X 0 s2 X 0 s'"
      using writes_voting_view [OF s3] by (intro rex_step_view sends_same) auto
    finally show ?thesis .
  next
    case False
    then obtain to_stake s2 where s2: "(if 0 < amount pr then transfer_to_fund n pr s else Inr s) = Inr s2"
      and s3: "(if force \<or> amount to_stake \<noteq> 0 then update_voting_power e n to_stake s2 else Inr s2) = Inr s'"
      using assms by (auto simp: update_rex_account_def split: option.splits)
    have "rex_step cs X (amount pr) s X 0 s2"
      by (rule step_maybe_to_fund [OF s2])
    also have "rex_step cs X 0 s2 X 0 s'"
      using writes_voting_view [OF s3] by (intro rex_step_view sends_same) auto
    finally show ?thesis .
  qed
qed

lemma step_settle_account:
  assumes "settle_account e n force s = Inr (pending, s')"
  shows "rex_step cs X 0 s X 0 s'"
  using assms step_update_rex_account [of e n "mk_asset 0 c" "mk_asset 0 c" force s pending s' cs X for c]
  by (auto simp: settle_account_def)

lemma settle_pending:
  assumes "settle_account e n force s = Inr (pending, s')"
  shows "rexbalance s' = rexbalance s" "outbox s' = outbox s"
    "case tfind n (rexorders s') of
       None \<Rightarrow> amount pending = 0
     | Some r \<Rightarrow> is_open r \<and> amount pending = amount (rex_requested r)"
  using assms update_rex_account_pending
  by (auto simp: settle_account_def)

section \<open>Balances\<close>

text \<open>A change inside a user's balance; an open order of the user stays covered.\<close>

lemma step_put_balance:
  assumes rb: "tfind n (rexbalance s) = Some rb"
    and new: "balance_ok rb \<Longrightarrow> rex_in rb \<le> rex_limit \<Longrightarrow> balance_ok rb' \<and> amount (rex_held rb') = amount (rex_held rb)"
    and covered: "\<And>r. balance_ok rb \<Longrightarrow> rex_in rb \<le> rex_limit \<Longrightarrow> tfind n (rexorders s) = Some r \<Longrightarrow> is_open r \<Longrightarrow>
      amount (rex_requested r) \<le> matured_rex rb \<Longrightarrow> amount (rex_requested r) \<le> matured_rex rb'"
  shows "rex_step cs X d s X d (put_rex_balance n rb' s)"
proof (rule rex_step_quietI)
  assume ok: "rex_ok cs X s" and d: "0 \<le> d"
  have b: "balance_ok rb" "rex_in rb \<le> rex_limit"
    using rex_okD(4) [OF ok rb] held_of_le [OF ok, of n] rex_units_bounds [OF ok] rb
    by (auto simp: held_of_def balance_ok_def)
  note n = new [OF b]
  define s' where "s' = put_rex_balance n rb' s"
  have f: "fund_of s' = fund_of s" "proceeds_of s' = proceeds_of s" "rex_units s' = rex_units s" "lendable s' = lendable s"
    by (simp_all add: s'_def put_rex_balance_def fun_eq_iff fund_of_def proceeds_of_def rex_units_def lendable_def)
  have h: "held_of s' = held_of s" and m: "matured_of s' = (matured_of s)(n := matured_rex rb')"
    using n rb by (auto simp: s'_def put_rex_balance_def fun_eq_iff held_of_def matured_of_def)
  have "order_ok (k \<notin> X) (matured_of s' k) r" if r: "tfind k (rexorders s) = Some r" for k r
  proof (cases "k = n")
    case False
    then show ?thesis using rex_okD(5) [OF ok r] by (simp add: m)
  next
    case True
    have "order_ok (n \<notin> X) (matured_rex rb) r"
      using rex_okD(5) [OF ok r] rb True by (simp add: matured_of_def)
    then show ?thesis using covered [OF b] r True by (auto simp: order_ok_def m)
  qed
  then have "rex_ok cs X s'"
    using ok n unfolding rex_ok_def f h by (auto simp: s'_def put_rex_balance_def)
  moreover have "owed s' = owed s"
    unfolding owed_def f by (simp add: s'_def put_rex_balance_def)
  ultimately show "rex_ok cs X (put_rex_balance n rb' s) \<and> 0 \<le> d \<and> owed (put_rex_balance n rb' s) + d \<le> owed s + d"
    using d by (simp add: s'_def)
qed (simp add: put_rex_balance_def)

end
