(* ===== verification/Claims.thy ===== *)
theory Claims
  imports Producer_Pay
begin

text \<open>
  A successful claim taken apart: the guards it passed and the states between its steps.
\<close>

lemma claimrewards_parts:
  assumes "claimrewards e n s = Inr s'"
  obtains p cs q s1 updated share p2 pay s2 s3 where
    "has_auth e n" "tfind n (producers s) = Some p" "is_active p"
    "min_activated_stake \<le> total_activated_stake (gstate s)"
    "useconds_per_day < i64 (current_time e - last_claim_time p)"
    "core_symbol s = Inr cs" "get_supply (tokens s) (sym_code cs) = Inr q" "fill_buckets e cs (amount q) s = Inr s1"
    "claimer_share (current_time e) n p s1 = (updated, share, p2)"
    "per_vote_share (current_time e) p share (i64 (last_claim_time p + 3 * useconds_per_day) \<le> current_time e)
       (s1\<lparr>producers2 := AList.update n p2 (producers2 s1)\<rparr>) = Inr (pay, s2)"
    "pay_producer e bpay_account n (per_block_pay (gstate s1) p) ''producer block pay'' cs
       (book_claim (current_time e) n p updated share (if pay < min_pervote_daily_pay then 0 else pay)
         (per_block_pay (gstate s1) p) s2) = Inr s3"
    "pay_producer e vpay_account n (if pay < min_pervote_daily_pay then 0 else pay) ''producer vote pay'' cs s3 = Inr s'"
proof -
  obtain p where auth: "has_auth e n" and p: "tfind n (producers s) = Some p"
    using assms by (auto simp: claimrewards_def split: option.splits)
  have r: "is_active p \<and> min_activated_stake \<le> total_activated_stake (gstate s) \<and>
      useconds_per_day < i64 (current_time e - last_claim_time p) \<and>
      ebind (core_symbol s) (\<lambda>cs. ebind (get_supply (tokens s) (sym_code cs)) (\<lambda>q.
      ebind (fill_buckets e cs (amount q) s) (\<lambda>s1.
        case claimer_share (current_time e) n p s1 of (updated, share, p2) \<Rightarrow>
        ebind (per_vote_share (current_time e) p share (i64 (last_claim_time p + 3 * useconds_per_day) \<le> current_time e)
           (s1\<lparr>producers2 := AList.update n p2 (producers2 s1)\<rparr>)) (\<lambda>(pay, s2).
        ebind (pay_producer e bpay_account n (per_block_pay (gstate s1) p) ''producer block pay'' cs
           (book_claim (current_time e) n p updated share (if pay < min_pervote_daily_pay then 0 else pay)
             (per_block_pay (gstate s1) p) s2)) (\<lambda>s3.
        pay_producer e vpay_account n (if pay < min_pervote_daily_pay then 0 else pay) ''producer vote pay'' cs s3))))) = Inr s'"
    using assms unfolding claimrewards_def p option.case Let_def require_auth_eq_Inr check_eq_Inr by blast
  then obtain cs q s1 where 1: "core_symbol s = Inr cs" "get_supply (tokens s) (sym_code cs) = Inr q"
    "fill_buckets e cs (amount q) s = Inr s1"
    and c: "(case claimer_share (current_time e) n p s1 of (updated, share, p2) \<Rightarrow>
        ebind (per_vote_share (current_time e) p share (i64 (last_claim_time p + 3 * useconds_per_day) \<le> current_time e)
           (s1\<lparr>producers2 := AList.update n p2 (producers2 s1)\<rparr>)) (\<lambda>(pay, s2).
        ebind (pay_producer e bpay_account n (per_block_pay (gstate s1) p) ''producer block pay'' cs
           (book_claim (current_time e) n p updated share (if pay < min_pervote_daily_pay then 0 else pay)
             (per_block_pay (gstate s1) p) s2)) (\<lambda>s3.
        pay_producer e vpay_account n (if pay < min_pervote_daily_pay then 0 else pay) ''producer vote pay'' cs s3))) = Inr s'"
    unfolding ebind_eq_Inr by blast
  obtain updated share p2 where 2: "claimer_share (current_time e) n p s1 = (updated, share, p2)"
    using prod_cases3 by blast
  obtain pay s2 s3 where
    "per_vote_share (current_time e) p share (i64 (last_claim_time p + 3 * useconds_per_day) \<le> current_time e)
       (s1\<lparr>producers2 := AList.update n p2 (producers2 s1)\<rparr>) = Inr (pay, s2)"
    "pay_producer e bpay_account n (per_block_pay (gstate s1) p) ''producer block pay'' cs
       (book_claim (current_time e) n p updated share (if pay < min_pervote_daily_pay then 0 else pay)
         (per_block_pay (gstate s1) p) s2) = Inr s3"
    "pay_producer e vpay_account n (if pay < min_pervote_daily_pay then 0 else pay) ''producer vote pay'' cs s3 = Inr s'"
    using c unfolding 2 prod.case by auto
  with that auth p r 1 2 show ?thesis by blast
qed

end
