(* ===== verification/Rex_Actions.thy ===== *)
theory Rex_Actions
  imports Rex_Trades Claims
begin

text \<open>
  Every action of the system contract as a step of the ledger: those of the resource exchange
  one by one, the others because they neither touch its tables nor send tokens away from
  \<open>eosio.rex\<close>. Only \<open>withdraw\<close> pays out.
\<close>

section \<open>Sending\<close>

lemma rex_view_send [simp]: "rex_view (send_inline a s) = rex_view s"
  by (simp add: rex_view_def send_inline_def fund_of_def fun_eq_iff)

lemma core_symbol_send [simp]: "core_symbol (send_inline a s) = core_symbol s"
  by (simp add: core_symbol_def send_inline_def)

lemma step_send: "keeps_rex a \<Longrightarrow> rex_step cs X d s X d (send_inline a s)"
  by (rule rex_step_view) (simp_all add: sends_inline)

text \<open>A transfer to \<open>eosio.rex\<close> puts its amount in hand.\<close>

lemma step_pay_in:
  assumes "symbol q = cs" "0 \<le> amount q" "src \<noteq> rex_account"
  shows "rex_step cs X d s X (d + amount q) (send_inline (send_transfer signers src rex_account q memo) s)"
proof (rule rex_stepI)
  define s' where "s' = send_inline (send_transfer signers src rex_account q memo) s"
  have v: "rex_view s' = rex_view s" by (simp add: s'_def)
  have i: "inflow cs s' = inflow cs s + amount q"
    unfolding s'_def inflow_send_inline paid_in_transfer [OF assms] ..
  show "sends s (send_inline (send_transfer signers src rex_account q memo) s)"
    using assms(3) by (intro sends_inline) (simp add: send_transfer_def)
  assume "rex_ok cs X s" "0 \<le> d"
  then show "rex_ok cs X (send_inline (send_transfer signers src rex_account q memo) s) \<and> 0 \<le> d + amount q \<and>
      owed (send_inline (send_transfer signers src rex_account q memo) s) + (d + amount q) -
        inflow cs (send_inline (send_transfer signers src rex_account q memo) s) \<le> owed s + d - inflow cs s"
    using assms(2) i rex_view_ok [OF v, of cs X] rex_view_owed [OF v] by (simp add: s'_def)
qed

lemma writes_core_symbol: "writes F s s' \<Longrightarrow> Rammarket \<notin> F \<Longrightarrow> core_symbol s' = core_symbol s"
  using writes_unchanged [of F s s' Rammarket] by (simp add: core_symbol_def)

section \<open>Funds\<close>

lemma step_deposit:
  assumes "deposit e n q s = Inr s'" "not_signed_by_rex e" "core_symbol s = Inr cs"
  shows "rex_step cs {} 0 s {} 0 s'"
proof -
  define s1 where "s1 = send_inline (send_transfer [n] n rex_account q ''deposit to REX fund'') s"
  have q: "symbol q = cs" "0 < amount q" "n \<noteq> rex_account" and t: "transfer_to_fund n q s1 = Inr s'"
    using assms by (auto simp: deposit_def s1_def not_signed_by_rex_def)
  have "rex_step cs {} 0 s {} (0 + amount q) s1"
    unfolding s1_def using q by (intro step_pay_in) auto
  also have "rex_step cs {} (0 + amount q) s1 {} 0 s'"
    using step_transfer_to_fund [OF t] by simp
  finally show ?thesis .
qed

section \<open>Buying\<close>

lemma step_buyrex:
  assumes e: "asset_laws e" and a: "buyrex e n q s = Inr s'" and cs: "core_symbol s = Inr cs"
  shows "rex_step cs {} 0 s {} 0 s'"
proof -
  obtain s1 got s2 delta s3 s4 pending s5 where q: "0 < amount q"
    and s1: "transfer_from_fund e n q s = Inr s1" and s2: "add_to_rex_pool e q s1 = Inr (got, s2)"
    and s3: "add_to_rex_balance e n q got s2 = Inr (delta, s3)" and s4: "runrex e 2 s3 = Inr s4"
    and s5: "update_rex_account e n (mk_asset 0 cs) delta False s4 = Inr (pending, s5)"
    and s': "s' = send_inline (RexResult (BuyResult got)) s5"
    using a cs by (auto simp: buyrex_def)
  have cs1: "core_symbol s1 = Inr cs"
    using writes_core_symbol [OF writes_transfer_from_fund [OF s1]] cs by simp
  have "rex_step cs {} 0 s {} (0 + amount q) s1" by (rule step_transfer_from_fund [OF e s1])
  also have "rex_step cs {} (0 + amount q) s1 {} 0 s3" using step_buy [OF e s2 s3 cs1 q] by simp
  also have "rex_step cs {} 0 s3 {} 0 s4" by (rule step_runrex [OF e s4])
  also have "rex_step cs {} 0 s4 {} 0 s5" using step_update_rex_account [OF s5] by simp
  also have "rex_step cs {} 0 s5 {} 0 s'" unfolding s' by (rule step_send) simp
  finally show ?thesis .
qed

lemma step_unstaketorex:
  assumes e: "asset_laws e" and a: "unstaketorex e n m from_net from_cpu s = Inr s'" and cs: "core_symbol s = Inr cs"
  shows "rex_step cs {} 0 s {} 0 s'"
proof -
  obtain s1 s2 q got s3 s4 delta s5 s6 pending s7 where sy: "symbol from_net = cs" "symbol from_cpu = cs"
    and s1: "unstake_for_rex n m from_net from_cpu s = Inr s1"
    and s2: "update_resource_limits e m (i64 (- amount from_net)) (i64 (- amount from_cpu)) s1 = Inr s2"
    and q: "asset_plus e from_net from_cpu = Inr q"
    and s3: "s3 = send_inline (send_transfer [stake_account] stake_account rex_account q ''buy REX with staked tokens'') s2"
    and s4: "add_to_rex_pool e q s3 = Inr (got, s4)" and s5: "add_to_rex_balance e n q got s4 = Inr (delta, s5)"
    and s6: "runrex e 2 s5 = Inr s6"
    and s7: "update_rex_account e n (mk_asset 0 cs) (mk_asset 0 cs) True s6 = Inr (pending, s7)"
    and s': "s' = send_inline (RexResult (BuyResult got)) s7"
    using a cs by (auto simp: unstaketorex_def Let_def)
  have qs: "symbol q = cs" using q sy e by (auto simp: asset_plus_i64 split: if_split_asm)
  have cs3: "core_symbol s3 = Inr cs"
    using writes_core_symbol [OF writes_unstake_for_rex [OF s1]]
      writes_core_symbol [OF writes_update_resource_limits [OF s2]] cs by (simp add: s3)
  have 2: "rex_step cs {} 0 s {} 0 s2"
    using rex_step_writes [OF writes_unstake_for_rex [OF s1]] rex_step_writes [OF writes_update_resource_limits [OF s2]]
      rex_step_trans by fastforce
  have 57: "rex_step cs {} 0 s5 {} 0 s'"
  proof -
    have "rex_step cs {} 0 s5 {} 0 s6" by (rule step_runrex [OF e s6])
    also have "rex_step cs {} 0 s6 {} 0 s7" using step_update_rex_account [OF s7] by simp
    also have "rex_step cs {} 0 s7 {} 0 s'" unfolding s' by (rule step_send) simp
    finally show ?thesis .
  qed
  have sends: "sends s s2" "sends s2 s3" "sends s3 s5" "sends s5 s'"
  proof -
    show "sends s s2" "sends s5 s'" using 2 57 by (simp_all add: rex_step_def)
    show "sends s2 s3" unfolding s3 by (rule sends_inline) (simp add: send_transfer_def)
    show "sends s3 s5"
      by (rule sends_trans [OF sends_writes [OF writes_add_to_rex_pool [OF s4]] sends_writes [OF writes_add_to_rex_balance [OF s5]]]) simp_all
  qed
  show ?thesis
  proof (rule rex_step_positive)
    show "sends s s'" using sends sends_trans by blast
    assume "all_positive s'"
    then have "all_positive s3" using sends all_positive_before by blast
    then have pos: "0 < amount q" by (simp add: s3 all_positive_def send_inline_def send_transfer_def)
    note 2
    also have "rex_step cs {} 0 s2 {} (0 + amount q) s3"
      unfolding s3 using pos qs by (intro step_pay_in) auto
    also have "rex_step cs {} (0 + amount q) s3 {} 0 s5" using step_buy [OF e s4 s5 cs3 pos] by simp
    also note 57
    finally show "rex_step cs {} 0 s {} 0 s'" .
  qed
qed

section \<open>Selling\<close>

lemma step_covered:
  assumes "\<And>r. tfind n (rexorders s) = Some r \<Longrightarrow> is_open r \<Longrightarrow> amount (rex_requested r) \<le> matured_of s n"
  shows "rex_step cs {n} d s {} d s"
proof (rule rex_step_quietI)
  assume ok: "rex_ok cs {n} s" and "0 \<le> d"
  have "order_ok (k \<notin> {}) (matured_of s k) r" if "tfind k (rexorders s) = Some r" for k r
    using rex_okD(5) [OF ok that] assms [of r] that by (cases "k = n") (auto simp: order_ok_def)
  then have "rex_ok cs {} s" using ok by (simp add: rex_ok_def)
  then show "rex_ok cs {} s \<and> 0 \<le> d \<and> owed s + d \<le> owed s + d" using \<open>0 \<le> d\<close> by simp
qed simp

lemma step_process_maturities:
  assumes "tfind n (rexbalance s) = Some rb"
  shows "rex_step cs X d s X d (put_rex_balance n (process_rex_maturities e rb) s)"
  by (rule step_put_balance [OF assms])
    (use process_maturities_keeps [of rb e] in \<open>auto simp: balance_ok_def\<close>)

lemma step_queue_order:
  assumes q: "queue_order e n rex s = Inr (r, s')" and x: "0 < amount rex" "amount rex \<le> matured_of s n"
    and open_only: "\<And>r. tfind n (rexorders s) = Some r \<Longrightarrow> is_open r"
  shows "rex_step cs {} d s {n} d s'" "tfind n (rexorders s') = Some r" "rexbalance s' = rexbalance s" "outbox s' = outbox s"
proof -
  have s': "s' = s\<lparr>rexorders := AList.update n r (rexorders s)\<rparr> \<or>
      tfind n (rexorders s) = None \<and> s' = s\<lparr>rexorders := (n, r) # rexorders s\<rparr>"
    using q by (auto simp: queue_order_def Let_def split: option.splits)
  then show f: "tfind n (rexorders s') = Some r" "rexbalance s' = rexbalance s" "outbox s' = outbox s" by auto
  have upd: "rexorders s' = AList.update n r (rexorders s) \<or>
      (tfind n (rexorders s) = None \<and> rexorders s' = (n, r) # rexorders s)" using s' by auto
  show "rex_step cs {} d s {n} d s'"
  proof (rule rex_step_quietI [OF f(3)])
    assume ok: "rex_ok cs {} s" and d: "0 \<le> d"
    have m: "matured_of s n \<le> rex_limit"
      using balance_okD(2) rex_okD(4) [OF ok, of n] held_of_le [OF ok, of n] rex_units_bounds [OF ok]
      by (fastforce simp: matured_of_def held_of_def rex_limit_def split: option.splits)
    have r: "order_ok False (matured_of s n) r" "amount (order_proceeds r) = proceeds_of s n"
    proof -
      have "order_ok False (matured_of s n) r \<and> amount (order_proceeds r) = proceeds_of s n"
      proof (cases "tfind n (rexorders s)")
        case None
        then show ?thesis using q x by (auto simp: queue_order_def Let_def order_ok_def proceeds_of_def)
      next
        case (Some old)
        have old: "is_open old" "0 < amount (rex_requested old)" "amount (rex_requested old) \<le> matured_of s n"
          "amount (order_proceeds old) = 0"
          using rex_okD(5) [OF ok Some] open_only [OF Some] by (auto simp: order_ok_def)
        then have "i64 (amount (rex_requested old) + amount rex) = amount (rex_requested old) + amount rex"
          using x m by (intro i64_below) auto
        then show ?thesis using q Some old x by (auto simp: queue_order_def Let_def order_ok_def proceeds_of_def)
      qed
      then show "order_ok False (matured_of s n) r" "amount (order_proceeds r) = proceeds_of s n" by auto
    qed
    have f: "fund_of s' = fund_of s" "held_of s' = held_of s" "matured_of s' = matured_of s" "lendable s' = lendable s"
      "rex_units s' = rex_units s"
      using s' by (auto simp: fun_eq_iff fund_of_def held_of_def matured_of_def lendable_def rex_units_def)
    have look: "tfind k (rexorders s') = (if k = n then Some r else tfind k (rexorders s))" for k
      using upd by auto
    have "proceeds_of s' = proceeds_of s"
      using r(2) by (auto simp: fun_eq_iff proceeds_of_def look)
    moreover have "order_ok (k \<notin> {n}) (matured_of s k) q" if "tfind k (rexorders s') = Some q" for k q
      using that r(1) rex_okD(5) [OF ok, of k q] by (auto simp: look split: if_split_asm)
    moreover have "twf (rexorders s')" using upd rex_okD(6) [OF ok] by auto
    ultimately show "rex_ok cs {n} s' \<and> 0 \<le> d \<and> owed s' + d \<le> owed s + d"
      using ok d s' by (auto simp: rex_ok_def f owed_def)
  qed
qed

lemma step_finish_sell:
  assumes a: "finish_sell e n rex oc s = Inr s'" and x: "0 < amount rex"
    and failed: "\<not> success oc \<Longrightarrow> X = {} \<and> amount (proceeds oc) = 0 \<and> amount rex \<le> matured_of s n" and X: "X \<subseteq> {n}"
  shows "rex_step cs X (amount (proceeds oc)) s {} 0 s'"
proof -
  obtain pending s1 ps s3 rb where s1: "update_rex_account e n (proceeds oc) (stake_change oc) False s = Inr (pending, s1)"
    and q: "(if success oc then Inr (amount pending, s1)
        else check (n \<noteq> b1_account) ''b1 sellrex orders should not be queued''
             (ebind (queue_order e n rex s1) (\<lambda>(order, s2). Inr (amount (rex_requested order), s2)))) = Inr (ps, s3)"
    and rb: "tfind n (rexbalance s3) = Some rb" "ps \<le> matured_rex rb"
    and s': "s' = (if success oc then send_inline (RexResult (SellResult (proceeds oc))) s3 else s3)"
    using a by (auto simp: finish_sell_def the_rex_balance_def simp del: if_error_eq_Inr)
  note pend = update_rex_account_pending [OF s1]
  have "rex_step cs X (amount (proceeds oc)) s X 0 s1" by (rule step_update_rex_account [OF s1])
  also have "rex_step cs X 0 s1 {} 0 s'"
  proof (cases "success oc")
    case True
    then have p: "ps = amount pending" "s3 = s1" using q by auto
    have "rex_step cs X 0 s1 {n} 0 s1" using X by (intro rex_step_refl)
    also have "rex_step cs {n} 0 s1 {} 0 s1"
      using pend(3) rb p by (intro step_covered) (auto simp: matured_of_def)
    also have "rex_step cs {} 0 s1 {} 0 s'" using True p s' by (simp add: step_send)
    finally show ?thesis .
  next
    case False
    then obtain r where r: "queue_order e n rex s1 = Inr (r, s3)" "ps = amount (rex_requested r)" using q by auto
    have m: "amount rex \<le> matured_of s1 n"
      using failed [OF False] pend(1) by (simp add: matured_of_def)
    have "is_open r" if "tfind n (rexorders s1) = Some r" for r using pend(3) that by simp
    note q = step_queue_order [OF r(1) x m this]
    have "rex_step cs {} 0 s1 {n} 0 s3" by (rule q(1))
    also have "rex_step cs {n} 0 s3 {} 0 s3"
      using q(2) rb r(2) by (intro step_covered) (auto simp: matured_of_def)
    finally show ?thesis using failed [OF False] s' False by simp
  qed
  finally show ?thesis .
qed

lemma step_sellrex:
  assumes e: "asset_laws e" and a: "sellrex e n rex s = Inr s'"
  shows "rex_step cs {} 0 s {} 0 s'"
proof -
  obtain s1 rb0 where s1: "runrex e 2 s = Inr s1" and rb0: "tfind n (rexbalance s1) = Some rb0"
    and x: "0 < amount rex" and xm: "amount rex \<le> matured_rex (process_rex_maturities e rb0)"
    and c: "ebind (fill_order_of e n (process_rex_maturities e rb0) rex (put_rex_balance n (process_rex_maturities e rb0) s1))
      (\<lambda>(oc, s3). check (\<not> (success oc \<and> amount (proceeds oc) = 0)) ''proceeds are negligible''
        (finish_sell e n rex oc s3)) = Inr s'"
    using a by (auto simp: sellrex_def Let_def the_rex_balance_def)
  define rb where "rb = process_rex_maturities e rb0"
  define s2 where "s2 = put_rex_balance n rb s1"
  have rb: "tfind n (rexbalance s2) = Some rb" by (simp add: s2_def put_rex_balance_def)
  obtain oc s3 where s3: "fill_order_of e n rb rex s2 = Inr (oc, s3)" and fin: "finish_sell e n rex oc s3 = Inr s'"
    using c by (auto simp: s2_def rb_def)
  have "rex_step cs {} 0 s {} 0 s1" by (rule step_runrex [OF e s1])
  also have "rex_step cs {} 0 s1 {} 0 s2" unfolding s2_def rb_def by (rule step_process_maturities [OF rb0])
  also have "rex_step cs {} 0 s2 {} 0 s'"
  proof (cases "success oc")
    case True
    have "rex_step cs {} 0 s2 {n} (0 + amount (proceeds oc)) s3"
      using x xm by (intro step_fill_success [OF s3 True rb]) (auto simp: rb_def)
    also have "rex_step cs {n} (0 + amount (proceeds oc)) s3 {} 0 s'"
      using step_finish_sell [OF fin x, of "{n}"] True by simp
    finally show ?thesis .
  next
    case False
    note nf = fill_failure [OF s3 False rb]
    have "amount rex \<le> matured_of s2 n" using rb xm by (simp add: matured_of_def rb_def)
    then show ?thesis using step_finish_sell [OF fin x, of "{}"] nf by simp
  qed
  finally show ?thesis .
qed

lemma step_cnclrexorder:
  assumes "cnclrexorder e n s = Inr s'"
  shows "rex_step cs {} 0 s {} 0 s'"
proof -
  obtain r where r: "tfind n (rexorders s) = Some r" "is_open r" and s': "s' = s\<lparr>rexorders := terase n (rexorders s)\<rparr>"
    using assms by (auto simp: cnclrexorder_def split: option.splits)
  show ?thesis
  proof (rule rex_step_quietI)
    assume ok: "rex_ok cs {} s"
    have "proceeds_of s n = 0" using rex_okD(5) [OF ok r(1)] r by (simp add: order_ok_def proceeds_of_def)
    then show "rex_ok cs {} s' \<and> 0 \<le> (0 :: int) \<and> owed s' + 0 \<le> owed s + 0"
      using rex_ok_order_erased [OF ok, of n] by (simp add: s')
  qed (simp add: s')
qed

section \<open>Renting\<close>

lemma step_new_loan:
  assumes "templace k l (loans r s) = Inr t" "0 \<le> amount (loan_balance l)" "0 \<le> amount (loan_payment l)" "0 \<le> d"
  shows "rex_step cs X (d + amount (loan_balance l)) s X d (put_loans r t s)"
proof (rule rex_step_quietI)
  assume ok: "rex_ok cs X s"
  have "loans_ok t" "loan_sum t = loan_sum (loans r s) + amount (loan_balance l)"
    using loans_ok_of [OF ok, of r] assms(1-3) by (auto simp: loans_ok_def loan_sum_def loan_ok_def)
  then show "rex_ok cs X (put_loans r t s) \<and> 0 \<le> d \<and> owed (put_loans r t s) + d \<le> owed s + (d + amount (loan_balance l))"
    using rex_ok_loans [OF ok] assms(4) by simp
qed simp

text \<open>A sum of two amounts that wraps around is negative.\<close>

lemma i64_positive:
  assumes "0 \<le> x" "x < 2 ^ 64" "0 < i64 x"
  shows "i64 x = x"
proof (cases "x < 2 ^ 63")
  case False
  have "i64 x = i64 (x - 2 ^ 64)" by (simp add: i64_eq_iff)
  also have "\<dots> = x - 2 ^ 64" using assms(1,2) False by (intro i64_id) simp_all
  finally show ?thesis using assms(2,3) by simp
qed (use assms in \<open>simp add: i64_id\<close>)

lemma step_rent_rex:
  assumes e: "asset_laws e" and a: "rent_rex r e n m q f s0 = Inr (rented, s')" and t: "asset_typed q" "asset_typed f"
  shows "rex_step cs {} 0 s0 {} 0 s'"
proof -
  obtain s c tot s1 p staked tb where s: "runrex e 2 s0 = Inr s" and pos: "0 < amount q" "0 \<le> amount f"
    and tot: "asset_plus e q f = Inr tot" and s1: "transfer_from_fund e n tot s = Inr s1" and p: "rexpool s1 = Some p"
    and tb: "templace (loan_num (add_loan_to_rex_pool q rented True p))
       \<lparr>loan_from = n, loan_receiver = m, loan_payment = q, loan_balance = f, loan_staked = staked,
        loan_expiration = i64 (current_time e + days_30)\<rparr> (loans r s1) = Inr tb"
    and s': "s' = send_inline (RexResult (RentResult staked))
       (put_loans r tb (s1\<lparr>rexpool := Some (add_loan_to_rex_pool q rented True p)\<rparr>))"
    using a by (auto simp: rent_rex_def the_pool_def Let_def simp del: templace_eq_Inr)
  have "0 < amount tot" using transfer_from_fund_parts [OF e s1] by blast
  moreover have tot': "amount tot = i64 (amount q + amount f)"
    using tot e by (auto simp: asset_plus_i64 split: if_split_asm)
  ultimately have sum: "amount tot = amount f + amount q"
    using t pos i64_positive [of "amount q + amount f"] by (simp add: asset_typed_def)
  define s2 where "s2 = s1\<lparr>rexpool := Some (add_loan_to_rex_pool q rented True p)\<rparr>"
  have "rex_step cs {} 0 s0 {} 0 s" by (rule step_runrex [OF e s])
  also have "rex_step cs {} 0 s {} (0 + amount tot) s1" by (rule step_transfer_from_fund [OF e s1])
  also have "rex_step cs {} (0 + amount tot) s1 {} (amount f) s2"
    using step_add_loan [OF p, of q "amount f"] pos sum by (simp add: s2_def)
  also have "rex_step cs {} (amount f) s2 {} 0 (put_loans r tb s2)"
    using step_new_loan [of _ _ r s2 tb 0] tb pos by (fastforce simp: s2_def simp del: templace_eq_Inr)
  also have "rex_step cs {} 0 (put_loans r tb s2) {} 0 s'" unfolding s' s2_def [symmetric] by (rule step_send) simp
  finally show ?thesis .
qed

lemma step_rent:
  assumes "asset_laws e" "asset_typed q" "asset_typed f"
  shows "rentcpu e n m q f s = Inr s' \<Longrightarrow> rex_step cs {} 0 s {} 0 s'"
    "rentnet e n m q f s = Inr s' \<Longrightarrow> rex_step cs {} 0 s {} 0 s'"
proof -
  have u: "rex_step cs {} 0 s {} 0 s'"
    if "rent_rex r e n m q f s = Inr (x, s1)" "update_resource_limits e m a b s1 = Inr s'" for r x s1 a b
    by (rule rex_step_trans [OF step_rent_rex [OF assms(1) that(1) assms(2,3)]
        rex_step_writes [OF writes_update_resource_limits [OF that(2)]]]) simp_all
  show "rentcpu e n m q f s = Inr s' \<Longrightarrow> rex_step cs {} 0 s {} 0 s'"
    "rentnet e n m q f s = Inr s' \<Longrightarrow> rex_step cs {} 0 s {} 0 s'"
    by (auto simp: rentcpu_def rentnet_def intro: u)
qed

lemma loan_payment_bound:
  assumes ok: "rex_ok cs X s" "owed s \<le> rex_cap" and l: "tfind k (loans r s) = Some l"
  shows "0 \<le> amount (loan_balance l)" "amount (loan_balance l) \<le> owed s"
  using loans_ok_of [OF ok(1), of r] l loan_le_sum [OF loans_ok_of [OF ok(1)] l] loan_le_owed [OF ok(1), of r]
    owed_parts(3) [OF ok(1)]
  by (auto simp: loans_ok_def loan_ok_def)

lemma step_fund_loan:
  assumes e: "asset_laws e" and a: "fund_rex_loan r e n k q s = Inr s'"
  shows "rex_step cs {} 0 s {} 0 s'"
proof -
  obtain s1 l where s1: "transfer_from_fund e n q s = Inr s1" and l: "tfind k (loans r s1) = Some l"
    and s': "s' = put_loans r (AList.update k (l\<lparr>loan_balance := add_amount (amount q) (loan_balance l)\<rparr>) (loans r s1)) s1"
    using a by (auto simp: fund_rex_loan_def split: option.splits)
  have q: "0 < amount q" using transfer_from_fund_parts [OF e s1] by blast
  have "rex_step cs {} 0 s {} (0 + amount q) s1" by (rule step_transfer_from_fund [OF e s1])
  also have "rex_step cs {} (0 + amount q) s1 {} 0 s'"
  proof (rule rex_step_assume)
    show "sends s1 s'" by (rule sends_same) (simp add: s')
    assume ok: "rex_ok cs {} s1" and room: "owed s1 + (0 + amount q) \<le> rex_cap"
    have b: "0 \<le> amount (loan_balance l)" "amount (loan_balance l) \<le> owed s1"
      using loan_payment_bound [OF ok _ l] room q by simp_all
    then have "i64 (amount (loan_balance l) + amount q) = amount (loan_balance l) + amount q"
      using room q by (intro i64_id) (simp_all add: rex_cap_def)
    then show "rex_step cs {} (0 + amount q) s1 {} 0 s'"
      using step_loan_update [OF l, of "l\<lparr>loan_balance := add_amount (amount q) (loan_balance l)\<rparr>" "- amount q" "amount q" cs "{}"] q
      by (simp add: s')
  qed
  finally show ?thesis .
qed

lemma step_defund_loan:
  assumes e: "asset_laws e" and a: "defund_rex_loan r e n k q s = Inr s'"
  shows "rex_step cs {} 0 s {} 0 s'"
proof -
  obtain l where l: "tfind k (loans r s) = Some l" and le: "amount q \<le> amount (loan_balance l)"
    and t: "transfer_to_fund n q (put_loans r
       (AList.update k (l\<lparr>loan_balance := add_amount (- amount q) (loan_balance l)\<rparr>) (loans r s)) s) = Inr s'"
    using a e by (auto simp: defund_rex_loan_def asset_le_law split: option.splits if_split_asm)
  define s1 where "s1 = put_loans r (AList.update k (l\<lparr>loan_balance := add_amount (- amount q) (loan_balance l)\<rparr>) (loans r s)) s"
  have q: "0 < amount q" using transfer_to_fund_parts [OF t] by blast
  have "rex_step cs {} 0 s {} (0 + amount q) s1"
  proof (rule rex_step_assume)
    show "sends s s1" by (rule sends_same) (simp add: s1_def)
    assume ok: "rex_ok cs {} s" and room: "owed s + 0 \<le> rex_cap"
    have b: "0 \<le> amount (loan_balance l)" "amount (loan_balance l) \<le> owed s"
      using loan_payment_bound [OF ok _ l] room by simp_all
    then have "i64 (amount (loan_balance l) - amount q) = amount (loan_balance l) - amount q"
      using room q le by (intro i64_id) (simp_all add: rex_cap_def)
    then show "rex_step cs {} 0 s {} (0 + amount q) s1"
      unfolding s1_def using le q by (intro step_loan_update [OF l]) simp_all
  qed
  also have "rex_step cs {} (0 + amount q) s1 {} 0 s'"
    using step_transfer_to_fund [OF t] by (simp add: s1_def)
  finally show ?thesis .
qed

section \<open>Balances\<close>

lemma step_updaterex:
  assumes e: "asset_laws e" and a: "updaterex e n s = Inr s'"
  shows "rex_step cs {} 0 s {} 0 s'"
proof -
  obtain s1 rb vs c delta pending s2 rb2 where s1: "runrex e 2 s = Inr s1" and rb: "tfind n (rexbalance s1) = Some rb"
    and s2: "update_rex_account e n (mk_asset 0 c) delta True (put_rex_balance n (rb\<lparr>vote_stake := vs\<rparr>) s1) = Inr (pending, s2)"
    and rb2: "tfind n (rexbalance s2) = Some rb2" and s': "s' = put_rex_balance n (process_rex_maturities e rb2) s2"
    using a by (auto simp: updaterex_def the_rex_balance_def Let_def)
  have "rex_step cs {} 0 s {} 0 s1" by (rule step_runrex [OF e s1])
  also have "rex_step cs {} 0 s1 {} 0 (put_rex_balance n (rb\<lparr>vote_stake := vs\<rparr>) s1)"
    by (rule step_put_balance [OF rb]) (simp_all add: balance_ok_def buckets_ok_def rex_in_def)
  also have "rex_step cs {} 0 (put_rex_balance n (rb\<lparr>vote_stake := vs\<rparr>) s1) {} 0 s2"
    using step_update_rex_account [OF s2] by simp
  also have "rex_step cs {} 0 s2 {} 0 s'" unfolding s' by (rule step_process_maturities [OF rb2])
  finally show ?thesis .
qed

lemma settled_pending_range:
  assumes "rex_ok cs {} s" "tfind n (rexbalance s) = Some rb"
    and "case tfind n (rexorders s) of None \<Rightarrow> amount pending = 0
         | Some r \<Rightarrow> is_open r \<and> amount pending = amount (rex_requested r)"
  shows "0 \<le> amount pending" "amount pending \<le> matured_rex rb"
  using assms rex_okD(5) [OF assms(1), of n] balance_okD(1) [OF rex_okD(4) [OF assms(1,2)]]
  by (fastforce simp: order_ok_def matured_of_def split: option.splits)+

lemma step_consolidate:
  assumes e: "asset_laws e" and a: "consolidate e n s = Inr s'"
  shows "rex_step cs {} 0 s {} 0 s'"
proof -
  obtain s1 pending s2 rb where s1: "runrex e 2 s = Inr s1" and s2: "settle_account e n False s1 = Inr (pending, s2)"
    and rb: "tfind n (rexbalance s2) = Some rb" and s': "s' = put_rex_balance n (consolidate_rex_balance e pending rb) s2"
    using a by (auto simp: consolidate_def the_rex_balance_def)
  have "rex_step cs {} 0 s {} 0 s1" by (rule step_runrex [OF e s1])
  also have "rex_step cs {} 0 s1 {} 0 s2" by (rule step_settle_account [OF s2])
  also have "rex_step cs {} 0 s2 {} 0 s'"
  proof (rule rex_step_assume)
    show "sends s2 s'" by (rule sends_same) (simp add: s' put_rex_balance_def)
    assume ok: "rex_ok cs {} s2"
    note p = settled_pending_range [OF ok rb settle_pending(3) [OF s2]]
    show "rex_step cs {} 0 s2 {} 0 s'"
      unfolding s' using p consolidate_keeps [of rb pending e] settle_pending(3) [OF s2]
      by (intro step_put_balance [OF rb]) (auto simp: balance_ok_def)
  qed
  finally show ?thesis .
qed

lemma step_mvtosavings:
  assumes e: "asset_laws e" and a: "mvtosavings e n rex s = Inr s'" and t: "asset_typed rex"
  shows "rex_step cs {} 0 s {} 0 s'"
proof -
  obtain s1 rb0 pending s2 rb where s1: "runrex e 2 s = Inr s1" and x: "0 < amount rex"
    and s2: "settle_account e n False s1 = Inr (pending, s2)" and rb: "tfind n (rexbalance s2) = Some rb"
    and c: "(case read_rex_savings rb of
         (rex_in_savings, rb1) \<Rightarrow>
           check (i64 (amount rex + amount pending + rex_in_savings) \<le> amount (rex_held rb1)) ''insufficient REX balance''
           (ebind (move_to_savings rex pending (process_rex_maturities e rb1)) (\<lambda>rb2.
            Inr (put_rex_balance n (put_rex_savings (i64 (rex_in_savings + amount rex)) rb2) s2)))) = Inr s'"
    using a by (auto simp: mvtosavings_def the_rex_balance_def)
  obtain v rb1 where v: "read_rex_savings rb = (v, rb1)" by force
  obtain rb2 where rb2: "move_to_savings rex pending (process_rex_maturities e rb1) = Inr rb2"
    and s': "s' = put_rex_balance n (put_rex_savings (i64 (v + amount rex)) rb2) s2"
    using c v by auto
  have "rex_step cs {} 0 s {} 0 s1" by (rule step_runrex [OF e s1])
  also have "rex_step cs {} 0 s1 {} 0 s2" by (rule step_settle_account [OF s2])
  also have "rex_step cs {} 0 s2 {} 0 s'"
  proof (rule rex_step_assume)
    show "sends s2 s'" by (rule sends_same) (simp add: s' put_rex_balance_def)
    assume ok: "rex_ok cs {} s2"
    note p = settled_pending_range [OF ok rb settle_pending(3) [OF s2]]
    have keep: "balance_ok (put_rex_savings (i64 (v + amount rex)) rb2) \<and>
        rex_held (put_rex_savings (i64 (v + amount rex)) rb2) = rex_held rb \<and>
        amount pending \<le> matured_rex (put_rex_savings (i64 (v + amount rex)) rb2)"
      if b: "balance_ok rb" "rex_in rb \<le> rex_limit"
    proof -
      have "buckets_ok rb" using b by (simp add: balance_ok_def)
      note 1 = read_savings_keeps [OF v this]
      have 2: "buckets_ok (process_rex_maturities e rb1)" "rex_in (process_rex_maturities e rb1) = rex_in rb1"
        "rex_held (process_rex_maturities e rb1) = rex_held rb" "matured_rex rb \<le> matured_rex (process_rex_maturities e rb1)"
        using process_maturities_keeps [of rb1 e] 1 b by auto
      have 3: "buckets_ok rb2" "rex_in rb2 + amount rex = rex_in rb1" "rex_held rb2 = rex_held rb" "amount pending \<le> matured_rex rb2"
        using move_to_savings_keeps [OF rb2 2(1) _ x] 1 2 p t b by (auto simp: asset_typed_def)
      have "0 \<le> rex_in rb2" by (rule rex_in_nonneg [OF 3(1)])
      then have "i64 (v + amount rex) = v + amount rex" using 1 3 b x by (intro i64_below) (auto simp: rex_limit_def)
      then show ?thesis using put_savings_keeps [of rb2 "v + amount rex"] 1 3 b x by (auto simp: balance_ok_def)
    qed
    show "rex_step cs {} 0 s2 {} 0 s'"
      unfolding s' using keep settle_pending(3) [OF s2] by (intro step_put_balance [OF rb]) auto
  qed
  finally show ?thesis .
qed

lemma step_mvfrsavings:
  assumes e: "asset_laws e" and a: "mvfrsavings e n rex s = Inr s'"
  shows "rex_step cs {} 0 s {} 0 s'"
proof -
  obtain s1 rb where s1: "runrex e 2 s = Inr s1" and rb: "tfind n (rexbalance s1) = Some rb" and x: "0 < amount rex"
    and c: "(case read_rex_savings rb of
         (rex_in_savings, rb1) \<Rightarrow>
           check (amount rex \<le> rex_in_savings) ''insufficient REX in savings''
           (let rb2 = add_rex_bucket e (amount rex) (process_rex_maturities e rb1);
                rb3 = put_rex_savings (i64 (rex_in_savings - amount rex)) rb2
            in ebind (settle_account e n False (put_rex_balance n rb3 s1)) (\<lambda>(_, s2). Inr s2))) = Inr s'"
    using a by (auto simp: mvfrsavings_def the_rex_balance_def)
  obtain v rb1 where v: "read_rex_savings rb = (v, rb1)" by force
  define rb3 where "rb3 = put_rex_savings (i64 (v - amount rex)) (add_rex_bucket e (amount rex) (process_rex_maturities e rb1))"
  obtain pending where le: "amount rex \<le> v" and s': "settle_account e n False (put_rex_balance n rb3 s1) = Inr (pending, s')"
    using c v by (auto simp: rb3_def Let_def)
  have "rex_step cs {} 0 s {} 0 s1" by (rule step_runrex [OF e s1])
  also have "rex_step cs {} 0 s1 {} 0 (put_rex_balance n rb3 s1)"
  proof (rule step_put_balance [OF rb])
    have keep: "balance_ok rb3 \<and> rex_held rb3 = rex_held rb \<and> matured_rex rb \<le> matured_rex rb3"
      if b: "balance_ok rb" "rex_in rb \<le> rex_limit"
    proof -
      have "buckets_ok rb" using b by (simp add: balance_ok_def)
      note 1 = read_savings_keeps [OF v this]
      have n: "0 \<le> rex_in rb1" by (rule rex_in_nonneg [OF 1(1)])
      have 2: "buckets_ok (process_rex_maturities e rb1)" "rex_in (process_rex_maturities e rb1) = rex_in rb1"
        "rex_held (process_rex_maturities e rb1) = rex_held rb" "matured_rex rb \<le> matured_rex (process_rex_maturities e rb1)"
        using process_maturities_keeps [of rb1 e] 1 b by auto
      note 3 = add_bucket_keeps [OF 2(1) less_imp_le [OF x], of e]
      have "i64 (v - amount rex) = v - amount rex" using 1 n b x le by (intro i64_below) (auto simp: rex_limit_def)
      then show ?thesis
        unfolding rb3_def
        using put_savings_keeps [of "add_rex_bucket e (amount rex) (process_rex_maturities e rb1)" "v - amount rex"] 1 2 3 b le
        by (auto simp: balance_ok_def)
    qed
    show "balance_ok rb \<Longrightarrow> rex_in rb \<le> rex_limit \<Longrightarrow> balance_ok rb3 \<and> amount (rex_held rb3) = amount (rex_held rb)"
      "\<And>r. balance_ok rb \<Longrightarrow> rex_in rb \<le> rex_limit \<Longrightarrow> tfind n (rexorders s1) = Some r \<Longrightarrow> is_open r \<Longrightarrow>
        amount (rex_requested r) \<le> matured_rex rb \<Longrightarrow> amount (rex_requested r) \<le> matured_rex rb3"
      using keep by auto
  qed
  also have "rex_step cs {} 0 (put_rex_balance n rb3 s1) {} 0 s'" by (rule step_settle_account [OF s'])
  finally show ?thesis .
qed

section \<open>The pool's rent, maintenance, closing\<close>

lemma step_setrex:
  assumes "setrex e q s = Inr s'"
  shows "rex_step cs {} 0 s {} 0 s'"
proof -
  obtain p where p: "rexpool s = Some p" and s': "s' = s\<lparr>rexpool := Some (p\<lparr>total_rent := q\<rparr>)\<rparr>"
    using assms by (auto simp: setrex_def split: option.splits)
  show ?thesis
  proof (rule rex_step_quietI)
    assume ok: "rex_ok cs {} s"
    have "pool_ok cs (p\<lparr>total_rent := q\<rparr>) = pool_ok cs p" by (simp add: pool_ok_def)
    then show "rex_ok cs {} s' \<and> 0 \<le> (0 :: int) \<and> owed s' + 0 \<le> owed s + 0"
      using rex_ok_pool [OF ok, of s' "p\<lparr>total_rent := q\<rparr>"] rex_okD(1) [OF ok p] p
      by (simp add: s' rex_units_def lendable_def fund_of_def fun_eq_iff)
  qed (simp add: s')
qed

lemma step_erase_balance:
  assumes rb: "tfind n (rexbalance s) = Some rb" "amount (rex_held rb) = 0"
  shows "rex_step cs X d s X d (s\<lparr>rexbalance := terase n (rexbalance s)\<rparr>)"
proof (rule rex_step_quietI)
  define s' where "s' = s\<lparr>rexbalance := terase n (rexbalance s)\<rparr>"
  assume ok: "rex_ok cs X s" and d: "0 \<le> d"
  have "matured_rex rb = 0" using balance_okD [OF rex_okD(4) [OF ok rb(1)]] rb(2) by simp
  then have f: "fund_of s' = fund_of s" "held_of s' = held_of s" "matured_of s' = matured_of s" "lendable s' = lendable s"
    "rex_units s' = rex_units s" "proceeds_of s' = proceeds_of s"
    using rb by (auto simp: s'_def fun_eq_iff fund_of_def held_of_def matured_of_def lendable_def rex_units_def proceeds_of_def)
  have "rex_ok cs X s'" using ok unfolding rex_ok_def f by (auto simp: s'_def split: if_split_asm)
  moreover have "owed s' = owed s" unfolding owed_def f by (simp add: s'_def)
  ultimately show "rex_ok cs X (s\<lparr>rexbalance := terase n (rexbalance s)\<rparr>) \<and> 0 \<le> d \<and>
      owed (s\<lparr>rexbalance := terase n (rexbalance s)\<rparr>) + d \<le> owed s + d"
    using d by (simp add: s'_def)
qed simp

lemma step_closerex:
  assumes e: "asset_laws e" and a: "closerex e n s = Inr s'"
  shows "rex_step cs {} 0 s {} 0 s'"
proof -
  obtain s1 pending s2 where s1: "(if rex_system_initialized s then runrex e 2 s else Inr s) = Inr s1"
    and s2: "settle_account e n False s1 = Inr (pending, s2)"
    and c: "(let no_outstanding_rex_fund = (case tfind n (rexfunds s2) of None \<Rightarrow> False | Some bal \<Rightarrow> amount bal = 0);
          s3 = (if \<not> has_loan CPU n s2 \<and> \<not> has_loan NET n s2 \<and> no_outstanding_rex_fund
                then s2\<lparr>rexfunds := terase n (rexfunds s2)\<rparr> else s2)
      in case tfind n (rexbalance s3) of
           None \<Rightarrow> Inr s3
         | Some rb \<Rightarrow>
             check (amount (rex_held rb) = 0) ''account has remaining REX balance, must sell first''
               (Inr (s3\<lparr>rexbalance := terase n (rexbalance s3)\<rparr>))) = Inr s'"
    using a by (auto simp: closerex_def simp del: if_error_eq_Inr)
  define s3 where "s3 = (if \<not> has_loan CPU n s2 \<and> \<not> has_loan NET n s2 \<and>
      (case tfind n (rexfunds s2) of None \<Rightarrow> False | Some bal \<Rightarrow> amount bal = 0)
    then s2\<lparr>rexfunds := terase n (rexfunds s2)\<rparr> else s2)"
  have v: "rex_view s3 = rex_view s2" "outbox s3 = outbox s2"
    by (auto simp: s3_def rex_view_def fund_of_def fun_eq_iff split: option.splits)
  have "rex_step cs {} 0 s {} 0 s1"
    using s1 by (auto intro: step_runrex [OF e] rex_step_refl split: if_split_asm)
  also have "rex_step cs {} 0 s1 {} 0 s2" by (rule step_settle_account [OF s2])
  also have "rex_step cs {} 0 s2 {} 0 s3" using v by (intro rex_step_view sends_same) auto
  also have "rex_step cs {} 0 s3 {} 0 s'"
    using c unfolding Let_def s3_def [symmetric]
    by (auto intro: rex_step_refl step_erase_balance split: option.splits)
  finally show ?thesis .
qed

section \<open>RAM fees\<close>

lemma step_ram_fee:
  assumes "symbol fee = cs" "n \<noteq> rex_account" "s1 = send_inline (send_transfer signers n ramfee_account fee memo) s"
  shows "rex_step cs {} 0 s {} 0 (if 0 < amount fee then channel_to_rex e ramfee_account fee s1 else s)"
proof (cases "0 < amount fee")
  case True
  have "rex_step cs {} 0 s {} 0 s1"
    unfolding assms(3) using assms(2) by (intro step_send) (simp add: send_transfer_def)
  also have "rex_step cs {} 0 s1 {} 0 (channel_to_rex e ramfee_account fee s1)"
    using True assms(1) by (intro step_channel_to_rex) simp_all
  finally show ?thesis using True by simp
qed (simp add: rex_step_refl)

lemma core_symbol_supply: "update_ram_supply e s = Inr s' \<Longrightarrow> core_symbol s' = core_symbol s"
  by (auto simp: update_ram_supply_def grow_market_def tmodify_eq_Inr core_symbol_def Let_def split: if_split_asm)

text \<open>A purchase taken apart: the payments, the fee channelled to the pool, the trade.\<close>

lemma buyram_rex_parts:
  assumes a: "buyram e n m quant s0 = Inr s'" and auth: "not_signed_by_rex e" and cs: "core_symbol s0 = Inr cs"
  obtains s fee q s1 s2 out s3 g where "n \<noteq> rex_account" "update_ram_supply e s0 = Inr s" "symbol fee = cs"
    "s1 = send_inline (send_transfer [n, ram_account] n ram_account q ''buy ram'') s"
    "s2 = (if 0 < amount fee then channel_to_rex e ramfee_account fee
             (send_inline (send_transfer [n] n ramfee_account fee ''ram fee'') s1) else s1)"
    "convert_market e q ram_symbol (Check ''ram market does not exist'') s2 = Inr (out, s3)"
    "credit_ram m (amount out) (s3\<lparr>gstate := g\<rparr>) = Inr s'"
proof -
  obtain s where s: "update_ram_supply e s0 = Inr s" and n: "n \<noteq> rex_account"
    using a auth by (auto simp: buyram_def not_signed_by_rex_def)
  have cs': "core_symbol s = Inr cs" using core_symbol_supply [OF s] cs by simp
  define fee where "fee = set_amount (ram_fee (amount quant)) quant"
  define q where "q = add_amount (- amount fee) quant"
  define s1 where "s1 = send_inline (send_transfer [n, ram_account] n ram_account q ''buy ram'') s"
  define s1' where "s1' = send_inline (send_transfer [n] n ramfee_account fee ''ram fee'') s1"
  define s2 where "s2 = (if 0 < amount fee then channel_to_rex e ramfee_account fee s1' else s1)"
  have "symbol quant = cs \<and> ebind (convert_market e q ram_symbol (Check ''ram market does not exist'') s2) (\<lambda>(out, s3).
          check (0 < amount out) ''must reserve a positive amount''
          (credit_ram m (amount out)
             (s3\<lparr>gstate := (gstate s3)\<lparr>
                    total_ram_bytes_reserved := u64 (total_ram_bytes_reserved (gstate s3) + amount out),
                    total_ram_stake := i64 (total_ram_stake (gstate s3) + amount q)\<rparr>\<rparr>))) = Inr s'"
    using a
    unfolding buyram_def s cs' ebind_simps Let_def fee_def [symmetric] q_def [symmetric]
      s1_def [symmetric] s1'_def [symmetric] s2_def [symmetric] require_auth_eq_Inr check_eq_Inr
    by blast
  then obtain out s3 g where "symbol quant = cs"
    and conv: "convert_market e q ram_symbol (Check ''ram market does not exist'') s2 = Inr (out, s3)"
    and cred: "credit_ram m (amount out) (s3\<lparr>gstate := g\<rparr>) = Inr s'"
    by auto
  then have "symbol fee = cs" by (simp add: fee_def)
  from that [OF n s this s1_def s2_def [unfolded s1'_def] conv cred] show ?thesis .
qed

lemma step_buyram:
  assumes a: "buyram e n m quant s0 = Inr s'" and auth: "not_signed_by_rex e" and cs: "core_symbol s0 = Inr cs"
  shows "rex_step cs {} 0 s0 {} 0 s'"
proof (rule buyram_rex_parts [OF a auth cs])
  fix s fee q s1 s2 out s3 g
  assume n: "n \<noteq> rex_account" and s: "update_ram_supply e s0 = Inr s" and sy: "symbol fee = cs"
    and s1: "s1 = send_inline (send_transfer [n, ram_account] n ram_account q ''buy ram'') s"
    and s2: "s2 = (if 0 < amount fee then channel_to_rex e ramfee_account fee
               (send_inline (send_transfer [n] n ramfee_account fee ''ram fee'') s1) else s1)"
    and conv: "convert_market e q ram_symbol (Check ''ram market does not exist'') s2 = Inr (out, s3)"
    and cred: "credit_ram m (amount out) (s3\<lparr>gstate := g\<rparr>) = Inr s'"
  have "rex_step cs {} 0 s0 {} 0 s"
    by (rule rex_step_writes [OF writes_update_ram_supply [OF s]]) simp_all
  also have "rex_step cs {} 0 s {} 0 s1"
    unfolding s1 using n by (intro step_send) (simp add: send_transfer_def)
  also have "rex_step cs {} 0 s1 {} 0 s2"
    unfolding s2 using sy n by (intro step_ram_fee) simp_all
  also have "rex_step cs {} 0 s2 {} 0 s3"
    by (rule rex_step_writes [OF writes_convert_market [OF conv]]) simp_all
  also have "rex_step cs {} 0 s3 {} 0 (s3\<lparr>gstate := g\<rparr>)"
    by (rule rex_step_view) (simp_all add: rex_view_def fund_of_def fun_eq_iff sends_def)
  also have "rex_step cs {} 0 (s3\<lparr>gstate := g\<rparr>) {} 0 s'"
    by (rule rex_step_writes [OF writes_credit_ram [OF cred]]) simp_all
  finally show ?thesis .
qed

lemma step_buyrambytes:
  "buyrambytes e n m b s = Inr s' \<Longrightarrow> not_signed_by_rex e \<Longrightarrow> core_symbol s = Inr cs \<Longrightarrow> rex_step cs {} 0 s {} 0 s'"
  by (auto simp: buyrambytes_def split: option.splits intro: step_buyram)

lemma sellram_rex_parts:
  assumes a: "sellram e n b s0 = Inr s'" and auth: "not_signed_by_rex e" and cs: "core_symbol s0 = Inr cs"
  obtains s sold out fee s1 g t x s3 s4 where "n \<noteq> rex_account" "update_ram_supply e s0 = Inr s" "symbol fee = cs"
    "convert_market e sold cs MissingRow s = Inr (out, s1)" "set_ram_limit n x (s1\<lparr>gstate := g, userres := t\<rparr>) = Inr s3"
    "s4 = send_inline (send_transfer [ram_account, n] ram_account n out ''sell ram'') s3"
    "s' = (if 0 < amount fee then channel_to_rex e ramfee_account fee
             (send_inline (send_transfer [n] n ramfee_account fee ''sell ram fee'') s4) else s4)"
proof -
  obtain s where s: "update_ram_supply e s0 = Inr s" and n: "n \<noteq> rex_account"
    using a auth by (auto simp: sellram_def not_signed_by_rex_def)
  have cs': "core_symbol s = Inr cs" using core_symbol_supply [OF s] cs by simp
  obtain r where r: "tfind n (userres s) = Some r"
    using a s by (auto simp: sellram_def split: option.splits)
  obtain sold out s1 g t s3 where conv: "convert_market e sold cs MissingRow s = Inr (out, s1)"
    and s3: "set_ram_limit n (i64 (ram_bytes r - b)) (s1\<lparr>gstate := g, userres := t\<rparr>) = Inr s3"
    and c: "(let s4 = send_inline (send_transfer [ram_account, n] ram_account n out ''sell ram'') s3;
                 fee = ram_fee (amount out)
             in if 0 < fee
                then ebind (new_asset e fee cs) (\<lambda>fee_asset.
                     Inr (channel_to_rex e ramfee_account fee_asset
                            (send_inline (send_transfer [n] n ramfee_account fee_asset ''sell ram fee'') s4)))
                else Inr s4) = Inr s'"
    using a unfolding sellram_def s cs' r ebind_simps option.case by (auto simp del: if_error_eq_Inr simp: Let_def)
  define s4 where "s4 = send_inline (send_transfer [ram_account, n] ram_account n out ''sell ram'') s3"
  define fee where "fee = mk_asset (ram_fee (amount out)) cs"
  have "s' = (if 0 < amount fee then channel_to_rex e ramfee_account fee
      (send_inline (send_transfer [n] n ramfee_account fee ''sell ram fee'') s4) else s4)"
    using c by (auto simp: Let_def s4_def fee_def split: if_split_asm)
  moreover have "symbol fee = cs" by (simp add: fee_def)
  ultimately show ?thesis using that n s conv s3 s4_def by blast
qed

lemma step_sellram:
  assumes a: "sellram e n b s0 = Inr s'" and auth: "not_signed_by_rex e" and cs: "core_symbol s0 = Inr cs"
  shows "rex_step cs {} 0 s0 {} 0 s'"
proof (rule sellram_rex_parts [OF a auth cs])
  fix s sold out fee s1 g t x s3 s4
  assume n: "n \<noteq> rex_account" and s: "update_ram_supply e s0 = Inr s" and sy: "symbol fee = cs"
    and conv: "convert_market e sold cs MissingRow s = Inr (out, s1)"
    and s3: "set_ram_limit n x (s1\<lparr>gstate := g, userres := t\<rparr>) = Inr s3"
    and s4: "s4 = send_inline (send_transfer [ram_account, n] ram_account n out ''sell ram'') s3"
    and s': "s' = (if 0 < amount fee then channel_to_rex e ramfee_account fee
               (send_inline (send_transfer [n] n ramfee_account fee ''sell ram fee'') s4) else s4)"
  have "rex_step cs {} 0 s0 {} 0 s"
    by (rule rex_step_writes [OF writes_update_ram_supply [OF s]]) simp_all
  also have "rex_step cs {} 0 s {} 0 s1"
    by (rule rex_step_writes [OF writes_convert_market [OF conv]]) simp_all
  also have "rex_step cs {} 0 s1 {} 0 (s1\<lparr>gstate := g, userres := t\<rparr>)"
    by (rule rex_step_view) (simp_all add: rex_view_def fund_of_def fun_eq_iff sends_def)
  also have "rex_step cs {} 0 (s1\<lparr>gstate := g, userres := t\<rparr>) {} 0 s3"
    by (rule rex_step_writes [OF writes_set_ram_limit [OF s3]]) simp_all
  also have "rex_step cs {} 0 s3 {} 0 s4"
    unfolding s4 by (rule step_send) (simp add: send_transfer_def)
  also have "rex_step cs {} 0 s4 {} 0 s'"
    unfolding s' using n sy by (intro step_ram_fee) simp_all
  finally show ?thesis .
qed

section \<open>Actions that do not concern the exchange\<close>

lemma step_outbox:
  assumes "writes F s s'" "F \<inter> {Rexpool, Rexfunds, Rexbalance, Rexorders, Cpuloans, Netloans} = {}" "sends s s'"
  shows "rex_step cs {} 0 s {} 0 s'"
  by (rule rex_step_view [OF writes_rex_view [OF assms(1,2)] assms(3)]) simp

lemma sends_send: "sends s s1 \<Longrightarrow> keeps_rex a \<Longrightarrow> sends s (send_inline a s1)"
  by (rule sends_trans [OF _ sends_inline])

lemma keeps_rex_transfer [simp]: "keeps_rex (send_transfer signers src dst q memo) \<longleftrightarrow> src \<noteq> rex_account"
  by (simp add: send_transfer_def)

lemma accounts_not_rex [simp]:
  "eosio_account \<noteq> rex_account" "bpay_account \<noteq> rex_account" "vpay_account \<noteq> rex_account"
  by (simp_all add: account_defs)

lemma rex_view_vote_stake:
  assumes "tfind n (rexbalance s) = Some rb"
  shows "rex_view (s\<lparr>rexbalance := AList.update n (rb\<lparr>vote_stake := v\<rparr>) (rexbalance s)\<rparr>) = rex_view s"
  using assms by (simp add: rex_view_def fund_of_def fun_eq_iff)

lemma rex_view_voters [simp]: "rex_view (s\<lparr>voters := t\<rparr>) = rex_view s"
  by (simp add: rex_view_def fund_of_def fun_eq_iff)

lemma update_rex_stake_view: "update_rex_stake n s = Inr s' \<Longrightarrow> rex_view s' = rex_view s \<and> outbox s' = outbox s"
  by (auto simp: update_rex_stake_def rex_view_vote_stake split: option.splits if_split_asm)

lemma outbox_schedule [simp]: "outbox (schedule_refund b n s) = outbox s"
  by (simp add: schedule_refund_def Let_def cancel_deferred_def send_deferred_def)

lemma sends_transfer_stake:
  assumes t: "transfer_stake e t src n m net cpu s = Inr s'" and src: "src \<noteq> rex_account"
  shows "sends s s'"
proof (cases "stake_account = src")
  case False
  define c where "c = ((\<not> t \<and> n = m) \<or> i64 (amount net + amount cpu) < 0)"
  obtain b x y s1 q where r: "(if c then change_refund e n net cpu s else Inr (False, net, cpu, s)) = Inr (b, x, y, s1)"
    and s': "s' = (if 0 < amount q
        then send_inline (send_transfer [src] src stake_account q ''stake bandwidth'') (schedule_refund b n s1)
        else schedule_refund b n s1)"
    using t False by (auto simp: transfer_stake_def Let_def c_def [symmetric] simp del: if_error_eq_Inr)
  have "outbox s1 = outbox s"
  proof (cases c)
    case True
    then have "change_refund e n net cpu s = Inr (b, x, y, s1)" using r by simp
    from writes_unchanged [OF writes_change_refund [OF this], of Outbox] show ?thesis by simp
  qed (use r in simp)
  then have "sends s (schedule_refund b n s1)" by (intro sends_same) simp
  then show ?thesis using s' src by (simp add: sends_send)
qed (use t in \<open>simp add: transfer_stake_def\<close>)

lemma step_changebw:
  assumes a: "changebw e src m net cpu t s = Inr s'" and auth: "not_signed_by_rex e"
  shows "rex_step cs {} 0 s {} 0 s'"
proof -
  define n where "n = (if t then m else src)"
  obtain s1 s2 s3 s4 both where s1: "change_delegation e n m net cpu s = Inr s1" and s2: "change_totals e m net cpu s1 = Inr s2"
    and s3: "transfer_stake e t src n m net cpu s2 = Inr s3" and s4: "update_rex_stake n s3 = Inr s4"
    and s': "update_voting_power e n both s4 = Inr s'" and "has_auth e src"
    using a unfolding changebw_def Let_def n_def [symmetric] by auto
  then have src: "src \<noteq> rex_account" using auth by (auto simp: not_signed_by_rex_def)
  have "rex_step cs {} 0 s {} 0 s1" by (rule rex_step_writes [OF writes_change_delegation [OF s1]]) simp_all
  also have "rex_step cs {} 0 s1 {} 0 s2" by (rule rex_step_writes [OF writes_change_totals [OF s2]]) simp_all
  also have "rex_step cs {} 0 s2 {} 0 s3"
    by (rule step_outbox [OF writes_transfer_stake [OF s3] _ sends_transfer_stake [OF s3 src]]) simp
  also have "rex_step cs {} 0 s3 {} 0 s4"
    using update_rex_stake_view [OF s4] by (intro rex_step_view sends_same) auto
  also have "rex_step cs {} 0 s4 {} 0 s'" by (rule rex_step_writes [OF writes_votes(1) [OF s']]) simp_all
  finally show ?thesis .
qed

lemma step_delegate:
  assumes "not_signed_by_rex e"
  shows "delegatebw e src m net cpu t s = Inr s' \<Longrightarrow> rex_step cs {} 0 s {} 0 s'"
    "undelegatebw e src m net cpu s = Inr s' \<Longrightarrow> rex_step cs {} 0 s {} 0 s'"
  using step_changebw [OF _ assms] by (auto simp: delegatebw_def undelegatebw_def)

lemma step_refund: "refund e n s = Inr s' \<Longrightarrow> rex_step cs {} 0 s {} 0 s'"
proof (rule step_outbox [OF writes_refund])
  assume "refund e n s = Inr s'"
  then show "sends s s'"
    by (auto simp: refund_def split: option.splits intro!: sends_send intro: sends_same)
qed simp_all

lemma step_voteproducer: "voteproducer e n prx ps s = Inr s' \<Longrightarrow> rex_step cs {} 0 s {} 0 s'"
proof -
  assume "voteproducer e n prx ps s = Inr s'"
  then obtain s1 where s1: "update_rex_stake n s = Inr s1" and s': "update_votes e n prx ps True s1 = Inr s'"
    by (auto simp: voteproducer_def split: option.splits if_split_asm)
  have "rex_step cs {} 0 s {} 0 s1"
    using update_rex_stake_view [OF s1] by (intro rex_step_view sends_same) auto
  also have "rex_step cs {} 0 s1 {} 0 s'" by (rule rex_step_writes [OF writes_votes(2) [OF s']]) simp_all
  finally show ?thesis .
qed

lemma step_names:
  "bidrefund e n m s = Inr s' \<Longrightarrow> rex_step cs {} 0 s {} 0 s'"
  "init e v core s = Inr s' \<Longrightarrow> rex_step cs {} 0 s {} 0 s'"
proof -
  assume a: "bidrefund e n m s = Inr s'"
  then show "rex_step cs {} 0 s {} 0 s'"
    by (intro step_outbox [OF writes_bidrefund [OF a]])
      (auto simp: bidrefund_def Let_def sends_def send_inline_def split: option.splits)
next
  assume a: "init e v core s = Inr s'"
  then show "rex_step cs {} 0 s {} 0 s'"
    by (intro step_outbox [OF writes_init [OF a]]) (auto simp: init_def sends_def send_inline_def)
qed

lemma outbox_refund_outbid: "refund_outbid e cs n b s = Inr s' \<Longrightarrow> outbox s' = outbox s"
  using writes_unchanged [OF writes_refund_outbid, of e cs n b s s' Outbox] by simp

lemma step_bidname:
  assumes a: "bidname e n m q s = Inr s'" and auth: "not_signed_by_rex e"
  shows "rex_step cs {} 0 s {} 0 s'"
proof (rule step_outbox [OF writes_bidname [OF a]])
  have "n \<noteq> rex_account" using a auth by (auto simp: bidname_def not_signed_by_rex_def)
  then show "sends s s'"
    using a by (auto simp: bidname_def Let_def sends_def send_inline_def split: option.splits dest!: outbox_refund_outbid)
qed simp

lemma outbox_total_share [simp]: "outbox (snd (update_total_votepay_share ct a b s)) = outbox s"
  by (simp add: update_total_votepay_share_def Let_def)

lemma outbox_per_vote: "per_vote_share ct p x b s = Inr (y, s') \<Longrightarrow> outbox s' = outbox s"
  using writes_unchanged [OF writes_per_vote_share, of ct p x b s y s' Outbox] by simp

lemma sends_pay_producer: "pay_producer e bucket n x m c s = Inr s' \<Longrightarrow> bucket \<noteq> rex_account \<Longrightarrow> sends s s'"
  by (auto simp: pay_producer_def sends_send split: if_split_asm)

lemma sends_fill_buckets: "fill_buckets e c n s = Inr s' \<Longrightarrow> self e \<noteq> rex_account \<Longrightarrow> sends s s'"
  by (auto simp: fill_buckets_def send_inflation_def send_inline_def send_transfer_def sends_def Let_def split: if_split_asm)

lemma outbox_book_claim [simp]: "outbox (book_claim ct n p b x y z s) = outbox s"
  by (simp add: book_claim_def Let_def)

lemma step_claimrewards:
  assumes a: "claimrewards e n s = Inr s'" and self: "self e \<noteq> rex_account"
  shows "rex_step cs {} 0 s {} 0 s'"
proof (rule step_outbox [OF writes_claimrewards [OF a]])
  obtain c m s1 p u sh p2 v x s3 y z s5 where s1: "fill_buckets e c m s = Inr s1"
    and s3: "per_vote_share (current_time e) p sh v (s1\<lparr>producers2 := p2\<rparr>) = Inr (x, s3)"
    and s5: "pay_producer e bpay_account n y ''producer block pay'' c (book_claim (current_time e) n p u sh z y s3) = Inr s5"
    and s': "pay_producer e vpay_account n z ''producer vote pay'' c s5 = Inr s'"
    by (rule claimrewards_parts [OF a]) blast
  have "sends s s1" using s1 self by (rule sends_fill_buckets)
  moreover have "sends s1 (book_claim (current_time e) n p u sh z y s3)"
    using outbox_per_vote [OF s3] by (intro sends_same) simp
  ultimately show "sends s s'"
    using sends_pay_producer [OF s5] sends_pay_producer [OF s'] sends_trans by (metis accounts_not_rex(2,3))
qed simp

lemma step_close_auction: "rex_step cs {} 0 s {} 0 (close_auction e t s)"
proof (cases "close_auction e t s = s")
  case False
  then obtain m b where b: "highest_bid s = Some (m, b)"
    by (auto simp: close_auction_def split: option.splits)
  define s1 where "s1 = s\<lparr>gstate := (gstate s)\<lparr>last_name_close := t\<rparr>\<rparr>"
  define s2 where "s2 = channel_namebid_to_rex (high_bid b) s1"
  have c: "close_auction e t s = s2\<lparr>namebids := AList.update m (b\<lparr>high_bid := i64 (- high_bid b)\<rparr>) (namebids s2)\<rparr>"
    using b False by (auto simp: close_auction_def s1_def s2_def Let_def)
  have "rex_step cs {} 0 s {} 0 s1"
    by (rule rex_step_view) (simp_all add: s1_def rex_view_def fund_of_def fun_eq_iff sends_def)
  also have "rex_step cs {} 0 s1 {} 0 s2"
    by (auto simp: s2_def channel_namebid_to_rex_def intro: rex_step_refl step_namebid_count split: option.splits)
  also have "rex_step cs {} 0 s2 {} 0 (close_auction e t s)"
    by (rule rex_step_view) (simp_all add: c rex_view_def fund_of_def fun_eq_iff sends_def)
  finally show ?thesis .
qed (simp add: rex_step_refl)

lemma step_onblock: "onblock e t n s = Inr s' \<Longrightarrow> rex_step cs {} 0 s {} 0 s'"
proof -
  assume a: "onblock e t n s = Inr s'"
  define s1 where "s1 = s\<lparr>gstate2 := (gstate2 s)\<lparr>last_block_num := t\<rparr>\<rparr>"
  define s2 where "s2 = count_block n (if last_pervote_bucket_fill (gstate s1) = 0
    then s1\<lparr>gstate := (gstate s1)\<lparr>last_pervote_bucket_fill := current_time e\<rparr>\<rparr> else s1)"
  define s3 where "s3 = update_elected_producers e t s2"
  have v: "rex_view s1 = rex_view s" "rex_view s2 = rex_view s" "rex_view s3 = rex_view s"
    "outbox s1 = outbox s" "outbox s2 = outbox s" "outbox s3 = outbox s"
    by (simp_all add: s1_def s2_def s3_def count_block_def update_elected_producers_def rex_view_def fund_of_def fun_eq_iff
        Let_def split: option.splits)
  have *: "rex_step cs {} 0 s {} 0 s4" if "rex_view s4 = rex_view s" "outbox s4 = outbox s" for s4
    using that by (intro rex_step_view sends_same) auto
  have "s' \<in> {s1, s2, s3} \<or> s' = close_auction e t s3"
    using a by (auto simp: onblock_def Let_def s1_def [symmetric] s2_def [symmetric] s3_def [symmetric] split: if_split_asm)
  then show ?thesis
    using *[OF v(1,4)] *[OF v(2,5)] *[OF v(3,6)] rex_step_trans [OF *[OF v(3,6)] step_close_auction, of e t] by auto
qed

section \<open>Dispatch\<close>

lemma step_apply:
  assumes e: "sys_env_ok e" "not_signed_by_rex e" and t: "action_ok a" and s': "sys_apply e a s = Inr s'"
    and cs: "\<And>c. core_symbol s = Inr c \<Longrightarrow> c = cs" and nw: "\<And>n q. a \<noteq> A_withdraw n q"
  shows "rex_step cs {} 0 s {} 0 s'"
proof -
  have laws: "asset_laws e" and self: "self e \<noteq> rex_account"
    using e(1) by (simp_all add: sys_env_ok_def)
  have w: "rex_step cs {} 0 s {} 0 s'"
    if "footprint a \<inter> {Rexpool, Rexfunds, Rexbalance, Rexorders, Cpuloans, Netloans, Outbox} = {}"
    using that by (intro rex_step_writes [OF writes_apply [OF s']]) auto
  have core: "core_symbol s = Inr c \<Longrightarrow> core_symbol s = Inr cs" for c using cs by metis
  show ?thesis
  proof (cases a)
    case (A_deposit n q)
    then have "core_symbol s = Inr cs" using s' core by (auto simp: deposit_def)
    then show ?thesis using A_deposit s' step_deposit [OF _ e(2)] by simp
  next
    case (A_buyrex n q)
    then have "core_symbol s = Inr cs" using s' core by (auto simp: buyrex_def)
    then show ?thesis using A_buyrex s' step_buyrex [OF laws] by simp
  next
    case (A_unstaketorex n r a b)
    then have "core_symbol s = Inr cs" using s' core by (auto simp: unstaketorex_def)
    then show ?thesis using A_unstaketorex s' step_unstaketorex [OF laws] by simp
  next
    case (A_buyram p n q)
    then have "core_symbol s = Inr cs" using s' core by (auto simp: buyram_def core_symbol_supply)
    then show ?thesis using A_buyram s' step_buyram [OF _ e(2)] by simp
  next
    case (A_buyrambytes p n b)
    then have "core_symbol s = Inr cs" using s' core by (auto simp: buyrambytes_def split: option.splits)
    then show ?thesis using A_buyrambytes s' step_buyrambytes [OF _ e(2)] by simp
  next
    case (A_sellram n b)
    then have "core_symbol s = Inr cs" using s' core by (auto simp: sellram_def core_symbol_supply split: option.splits)
    then show ?thesis using A_sellram s' step_sellram [OF _ e(2)] by simp
  next
    case (A_withdraw n q)
    then show ?thesis using nw by blast
  qed (use s' t nw w laws self e(2) in
      \<open>auto simp: action_ok_def rexexec_def fundcpuloan_def fundnetloan_def defcpuloan_def defnetloan_def
        intro: step_sellrex step_cnclrexorder step_rent step_fund_loan step_defund_loan step_updaterex step_consolidate
          step_mvtosavings step_mvfrsavings step_setrex step_runrex step_closerex step_delegate step_refund
          step_voteproducer step_names step_bidname step_claimrewards step_onblock rex_step_refl\<close>)
qed

end
