(* ===== verification/Rex_Solvency.thy ===== *)
theory Rex_Solvency
  imports Rex_Actions Demo_Chain
begin

text \<open>
  The account \<open>eosio.rex\<close> can always pay. The steps of \<open>Rex_Actions\<close> bound what the
  system contract owes by what it tells the token contract to pay in; here the token contract
  does so, \<open>withdraw\<close> pays out what it has just taken from a fund, and nobody else can take
  tokens from the account.
\<close>

section \<open>What is sent is paid\<close>

lemma keeps_flow:
  assumes "keeps_rex a" "positive a"
  shows "inline_ok a" "inline_flow (sym_code cs) a rex_account = paid_in cs a"
  using assms by (induction a rule: keeps_rex.induct) (auto simp: paid_in_def)

lemma flow_paid_in:
  assumes "list_all keeps_rex xs" "list_all positive xs"
  shows "list_all inline_ok xs" "(\<Sum>a\<leftarrow>xs. inline_flow (sym_code cs) a rex_account) = (\<Sum>a\<leftarrow>xs. paid_in cs a)"
  using assms by (induction xs) (simp_all add: keeps_flow)

lemma run_pays_in:
  assumes laws: "asset_laws e" and inv: "token_inv t" and k: "list_all keeps_rex xs"
    and r: "run_inline e xs t = Inr t'"
  shows "balance t' rex_account (sym_code cs) = balance t rex_account (sym_code cs) + (\<Sum>a\<leftarrow>xs. paid_in cs a)"
proof -
  have e: "efold (\<lambda>a. run_inline e [a]) xs t = Inr t'"
    using r unfolding run_inline_efold [of e xs t] .
  note f = flow_paid_in [OF k run_inline_positive [OF r]]
  show ?thesis
    using ledger.run_flow [OF _ f(1) e, of rex_account "sym_code cs"] laws inv f(2) by simp
qed

text \<open>Only \<open>withdraw\<close> sends tokens away, and it has taken them from a fund before.\<close>

lemma step_withdraw:
  assumes "asset_laws e" "not_signed_by_rex e" "withdraw e n q s = Inr s'" "core_symbol s = Inr cs"
  obtains s2 where "rex_step cs {} 0 s {} (amount q) s2" "outbox s2 = outbox s"
    "s' = send_inline (send_transfer [rex_account] rex_account n q ''withdraw from REX fund'') s2"
    "symbol q = cs" "0 < amount q" "n \<noteq> rex_account"
proof -
  obtain pending s1 s2 where n: "has_auth e n" and q: "symbol q = cs" "0 < amount q"
    and s1: "settle_account e n False s = Inr (pending, s1)" and s2: "transfer_from_fund e n q s1 = Inr s2"
    and s': "s' = send_inline (send_transfer [rex_account] rex_account n q ''withdraw from REX fund'') s2"
    using assms(3,4) by (auto simp: withdraw_def)
  have "rex_step cs {} 0 s {} 0 s1" by (rule step_settle_account [OF s1])
  also have "rex_step cs {} 0 s1 {} (0 + amount q) s2"
    by (rule step_transfer_from_fund [OF assms(1) s2])
  finally have "rex_step cs {} 0 s {} (amount q) s2" by simp
  moreover have "outbox s2 = outbox s"
    using writes_unchanged [OF writes_settle_account [OF s1], of Outbox]
      writes_unchanged [OF writes_transfer_from_fund [OF s2], of Outbox] by simp
  ultimately show thesis using that s' q n assms(2) by (auto simp: not_signed_by_rex_def)
qed

section \<open>The core token stays\<close>

lemma core_symbol_gstate [simp]:
  "core_symbol (s\<lparr>gstate := g\<rparr>) = core_symbol s" "core_symbol (s\<lparr>gstate2 := g2\<rparr>) = core_symbol s"
  "core_symbol (s\<lparr>userres := u\<rparr>) = core_symbol s" "core_symbol (s\<lparr>outbox := xs\<rparr>) = core_symbol s"
  "core_symbol (s\<lparr>tokens := t\<rparr>) = core_symbol s" "core_symbol (s\<lparr>limits := l\<rparr>) = core_symbol s"
  by (simp_all add: core_symbol_def)

lemma core_symbol_grow: "grow_market r s = Inr s' \<Longrightarrow> core_symbol s' = core_symbol s"
  by (auto simp: grow_market_def core_symbol_def tmodify_eq_Inr)

lemma core_symbol_traded:
  assumes "tfind ramcore_symbol (rammarket s) = Some m" "market_ok cs m'"
  shows "core_symbol (s\<lparr>rammarket := AList.update ramcore_symbol m' (rammarket s)\<rparr>) = Inr cs"
  using assms by (simp add: core_symbol_def market_ok_def)

lemma core_symbol_bought:
  assumes "ram_inv s" "core_symbol s = Inr (symbol q)" "convert_market e q ram_symbol err s = Inr (out, s')"
  shows "core_symbol s' = Inr (symbol q)"
proof -
  obtain m m' where m: "tfind ramcore_symbol (rammarket s) = Some m" "convert e m q ram_symbol = Inr (m', out)"
    and s': "s' = s\<lparr>rammarket := AList.update ramcore_symbol m' (rammarket s)\<rparr>"
    using assms(3) by (auto simp: convert_market_eq_Inr)
  show ?thesis
    unfolding s' using convert_buy(2) [OF core_symbol_market [OF assms(2,1) m(1)] refl m(2)]
    by (rule core_symbol_traded [OF m(1)])
qed

lemma core_symbol_sold:
  assumes "ram_inv s" "core_symbol s = Inr cs" "convert_market e (mk_asset b ram_symbol) cs err s = Inr (out, s')"
  shows "core_symbol s' = Inr cs"
proof -
  obtain m m' where m: "tfind ramcore_symbol (rammarket s) = Some m"
    "convert e m (mk_asset b ram_symbol) cs = Inr (m', out)"
    and s': "s' = s\<lparr>rammarket := AList.update ramcore_symbol m' (rammarket s)\<rparr>"
    using assms(3) by (auto simp: convert_market_eq_Inr)
  show ?thesis
    unfolding s' using convert_sell(2) [OF core_symbol_market [OF assms(2,1) m(1)] _ m(2)]
    by (intro core_symbol_traded [OF m(1)]) simp
qed

lemma core_symbol_ram_supply: "update_ram_supply e s = Inr s' \<Longrightarrow> core_symbol s' = core_symbol s"
  by (auto simp: update_ram_supply_def Let_def dest: core_symbol_grow split: if_split_asm)

lemma core_symbol_buyram:
  assumes "ram_inv s0" "core_symbol s0 = Inr cs" "buyram e payer n quant s0 = Inr s'"
  shows "core_symbol s' = Inr cs"
proof -
  obtain s where s: "update_ram_supply e s0 = Inr s" using assms(3) by (auto simp: buyram_def)
  obtain s2 q err s3 out x where v: "ram_view s2 = ram_view s" and cs: "core_symbol s2 = Inr (symbol q)"
    and conv: "convert_market e q ram_symbol err s2 = Inr (out, s3)"
    and cred: "credit_ram n (amount out) (s3\<lparr>gstate := (gstate s3)\<lparr>
        total_ram_bytes_reserved := u64 (total_ram_bytes_reserved (gstate s3) + amount out), total_ram_stake := x\<rparr>\<rparr>) = Inr s'"
    using buyram_parts [OF s assms(3)] by blast
  have "ram_inv s2" using ram_inv_update_ram_supply [OF assms(1) s] ram_inv_frame [OF v] by simp
  from core_symbol_bought [OF this cs conv] have "core_symbol s' = Inr (symbol q)"
    using writes_core_symbol [OF writes_credit_ram [OF cred]] by simp
  moreover have "core_symbol s2 = Inr cs"
    using core_symbol_view [OF v] core_symbol_ram_supply [OF s] assms(2) by simp
  ultimately show ?thesis using cs by simp
qed

lemma core_symbol_sellram:
  assumes "ram_inv s0" "core_symbol s0 = Inr cs" "sellram e n b s0 = Inr s'"
  shows "core_symbol s' = Inr cs"
proof -
  obtain s where s: "update_ram_supply e s0 = Inr s" using assms(3) by (auto simp: sellram_def)
  have cs: "core_symbol s = Inr cs" using core_symbol_ram_supply [OF s] assms(2) by simp
  obtain out s1 g u x s2 where conv: "convert_market e (mk_asset b ram_symbol) cs MissingRow s = Inr (out, s1)"
    and lim: "set_ram_limit n x (s1\<lparr>gstate := g, userres := u\<rparr>) = Inr s2" and s': "ram_view s' = ram_view s2"
    using assms(3) cs by (fastforce simp: sellram_def s Let_def split: if_split_asm option.splits)
  have "core_symbol s1 = Inr cs"
    by (rule core_symbol_sold [OF ram_inv_update_ram_supply [OF assms(1) s] cs conv])
  then show ?thesis
    using writes_core_symbol [OF writes_set_ram_limit [OF lim]] core_symbol_view [OF s'] by simp
qed

lemma core_symbol_kept:
  assumes "ram_inv s" "core_symbol s = Inr cs" "sys_apply e a s = Inr s'"
  shows "core_symbol s' = Inr cs"
proof (cases "Rammarket \<in> footprint a")
  case False
  then show ?thesis using writes_core_symbol [OF writes_apply [OF assms(3)]] assms(2) by simp
next
  case True
  show ?thesis
  proof (cases a)
    case (A_init v c)
    then show ?thesis using assms by (auto simp: init_def core_symbol_eq_Inr)
  qed (use assms True in \<open>auto simp: setram_def setramrate_def buyrambytes_def split: option.splits
      dest: core_symbol_grow core_symbol_ram_supply core_symbol_buyram core_symbol_sellram\<close>)
qed

section \<open>Custody\<close>

definition custody_ok :: "symbol \<Rightarrow> sys \<Rightarrow> bool" where
  "custody_ok cs s \<longleftrightarrow> rex_ok cs {} s \<and> owed s \<le> balance (tokens s) rex_account (sym_code cs)"

definition compatible :: "symbol \<Rightarrow> sys \<Rightarrow> bool" where
  "compatible cs s \<longleftrightarrow> (\<forall>c. core_symbol s = Inr c \<longrightarrow> c = cs)"

definition capped :: "symbol \<Rightarrow> token_state \<Rightarrow> bool" where
  "capped cs t \<longleftrightarrow> (\<forall>st. tfind (sym_code cs) (stats t) = Some st \<longrightarrow> amount (st_max_supply st) \<le> rex_cap)"

lemma capped_balance: "capped cs t \<Longrightarrow> token_inv t \<Longrightarrow> balance t n (sym_code cs) \<le> rex_cap"
  using balance_le_max [of t n "sym_code cs"] by (fastforce simp: capped_def rex_cap_def split: option.splits)

lemma custody_withdraw:
  assumes e: "asset_laws e" "not_signed_by_rex e" and a: "withdraw e n q s = Inr s1" and cs: "core_symbol s = Inr cs"
    and s: "outbox s = []" "token_inv (tokens s)" "capped cs (tokens s)" "custody_ok cs s"
    and r: "run_inline e (outbox s1) (tokens s) = Inr t"
  shows "rex_ok cs {} s1 \<and> owed s1 \<le> balance t rex_account (sym_code cs)"
proof -
  obtain s2 where step: "rex_step cs {} 0 s {} (amount q) s2" and o: "outbox s2 = outbox s"
    and s1: "s1 = send_inline (send_transfer [rex_account] rex_account n q ''withdraw from REX fund'') s2"
    and q: "symbol q = cs" "0 < amount q" "n \<noteq> rex_account"
    by (rule step_withdraw [OF e a cs]) blast
  have "owed s \<le> rex_cap"
    using s(4) capped_balance [OF s(3,2), of rex_account] by (simp add: custody_ok_def)
  then have 2: "rex_ok cs {} s2" "owed s2 + amount q \<le> owed s"
    using step s(1,4) o by (auto simp: rex_step_def custody_ok_def all_positive_def inflow_same [OF o])
  have "rex_view s1 = rex_view s2" by (simp add: s1)
  then have 1: "rex_ok cs {} s1" "owed s1 = owed s2"
    using 2(1) rex_view_ok rex_view_owed by blast+
  have xs: "outbox s1 = [send_transfer [rex_account] rex_account n q ''withdraw from REX fund'']"
    using s(1) o by (simp add: s1 send_inline_def)
  have "balance t rex_account (sym_code cs) = balance (tokens s) rex_account (sym_code cs) - amount q"
    using inline_flow_exact [OF e(1) s(2) _ r [unfolded xs], of rex_account "sym_code cs"] q
    by (simp add: send_transfer_def)
  then show ?thesis using 1 2 s(4) by (simp add: custody_ok_def)
qed

lemma custody_apply:
  assumes e: "sys_env_ok e" "not_signed_by_rex e" and a: "action_ok a" "sys_apply e a s = Inr s1"
    and cs: "compatible cs s"
    and s: "outbox s = []" "token_inv (tokens s)" "capped cs (tokens s)" "custody_ok cs s"
    and r: "run_inline e (outbox s1) (tokens s) = Inr t" and t: "capped cs t"
  shows "rex_ok cs {} s1 \<and> owed s1 \<le> balance t rex_account (sym_code cs)"
proof (cases "\<exists>n q. a = A_withdraw n q")
  case True
  then obtain n q where w: "withdraw e n q s = Inr s1" using a(2) by auto
  then have "core_symbol s = Inr cs" using cs by (auto simp: withdraw_def compatible_def)
  then show ?thesis
    using custody_withdraw [OF _ e(2) w _ s r] e(1) by (simp add: sys_env_ok_def)
next
  case False
  have laws: "asset_laws e" using e(1) by (simp add: sys_env_ok_def)
  have step: "rex_step cs {} 0 s {} 0 s1"
    by (rule step_apply [OF e a]) (use cs False in \<open>auto simp: compatible_def\<close>)
  then have k: "list_all keeps_rex (outbox s1)" using s(1) by (auto simp: rex_step_def sends_def)
  have i: "inflow cs s = 0" "inflow cs s1 = (\<Sum>a\<leftarrow>outbox s1. paid_in cs a)"
    using s(1) by (simp_all add: inflow_def)
  have b: "balance t rex_account (sym_code cs) = balance (tokens s) rex_account (sym_code cs) + inflow cs s1"
    unfolding i(2) by (rule run_pays_in [OF laws s(2) k r])
  have "balance t rex_account (sym_code cs) \<le> rex_cap"
    by (rule capped_balance [OF t token_inv_run_inline [OF laws s(2) r]])
  then have "rex_ok cs {} s1 \<and> owed s1 - inflow cs s1 \<le> owed s"
    using step s(4) b i(1) run_inline_positive [OF r] by (auto simp: rex_step_def custody_ok_def all_positive_def)
  then show ?thesis using s(4) b by (auto simp: custody_ok_def)
qed

lemma capped_before:
  assumes "capped cs t'" "\<And>st. tfind (sym_code cs) (stats t) = Some st \<Longrightarrow>
    \<exists>st'. tfind (sym_code cs) (stats t') = Some st' \<and> st_max_supply st' = st_max_supply st"
  shows "capped cs t"
  using assms by (fastforce simp: capped_def)

lemma custody_genesis: "token_reachable t \<Longrightarrow> custody_ok cs (genesis t p l)"
  using acc_amount_nonneg [OF reachable_token_inv]
  by (simp add: custody_ok_def rex_ok_def owed_def genesis_def fund_of_def held_of_def proceeds_of_def lendable_def
      rex_units_def loan_sum_def loans_ok_def balance_acc_amount)

lemma custody_view:
  assumes "rex_view s' = rex_view s" "custody_ok cs s"
    and "balance (tokens s) rex_account (sym_code cs) \<le> balance (tokens s') rex_account (sym_code cs)"
  shows "custody_ok cs s'"
  using assms(2,3) rex_view_ok [OF assms(1)] rex_view_owed [OF assms(1)] by (simp add: custody_ok_def)

lemma rex_view_settled: "rex_view (s\<lparr>tokens := t, outbox := xs\<rparr>) = rex_view s"
  by (simp add: rex_view_def fund_of_def fun_eq_iff)

lemma custody_reachable:
  "sys_reachable s \<Longrightarrow> compatible cs s \<Longrightarrow> capped cs (tokens s) \<Longrightarrow> custody_ok cs s"
proof (induction rule: sys_reachable.induct)
  case (start t p l)
  then show ?case by (intro custody_genesis)
next
  case (action s e a s')
  obtain s1 t where s1: "sys_apply e a (s\<lparr>outbox := []\<rparr>) = Inr s1"
    and t: "run_inline e (outbox s1) (tokens s1) = Inr t" and s': "s' = s1\<lparr>tokens := t, outbox := []\<rparr>"
    using action.hyps(5) by (auto simp: sys_transact_eq_Inr)
  note inv = token_inv_reachable [OF action.hyps(1)]
  have s: "s\<lparr>outbox := []\<rparr> = s" using inv by simp
  have ts: "tokens s1 = tokens s" using tokens_apply [OF s1] by simp
  have c: "compatible cs s"
    using core_symbol_kept [OF ram_inv_reachable [OF action.hyps(1)] _ s1 [unfolded s]] action.prems(1)
    by (auto simp: compatible_def s')
  have cap: "capped cs t" "capped cs (tokens s)"
    using action.prems(2) capped_before [of cs t "tokens s"] run_keeps_max [OF t [unfolded ts]] by (auto simp: s')
  have "rex_ok cs {} s1 \<and> owed s1 \<le> balance t rex_account (sym_code cs)"
    using custody_apply [OF action.hyps(2-4) s1 [unfolded s] c _ _ cap(2) action.IH [OF c cap(2)] t [unfolded ts] cap(1)] inv
    by simp
  then have "custody_ok cs (s1\<lparr>tokens := t, outbox := []\<rparr>)"
    unfolding custody_ok_def using rex_view_ok [OF rex_view_settled] rex_view_owed [OF rex_view_settled] by simp
  then show ?case unfolding s' .
next
  case (token s e a s')
  obtain t where t: "token_transact e a (tokens s) = Inr t" and s': "s' = s\<lparr>tokens := t\<rparr>"
    using token.hyps(4) by (auto simp: user_token_transact_eq_Inr)
  have "capped cs (tokens s)"
    using token.prems(2) by (rule capped_before) (use transact_keeps_max [OF t] in \<open>simp add: s'\<close>)
  then have "custody_ok cs s"
    using token.IH token.prems(1) by (simp add: s' compatible_def)
  moreover have "balance (tokens s) rex_account (sym_code cs) \<le> balance t rex_account (sym_code cs)"
    using unsigned_keeps_balance [OF _ _ _ t] token_inv_reachable [OF token.hyps(1)] token.hyps(2,3)
    by (simp add: sys_env_ok_def not_signed_by_rex_def)
  ultimately show ?case
    by (intro custody_view [of s' s]) (simp_all add: s' rex_view_def fund_of_def fun_eq_iff)
next
  case (account s n)
  have "rex_view (new_limits n s) = rex_view s" "tokens (new_limits n s) = tokens s"
    "core_symbol (new_limits n s) = core_symbol s"
    by (simp_all add: new_limits_def rex_view_def fund_of_def fun_eq_iff)
  then show ?case using account.IH account.prems custody_view [of "new_limits n s" s cs] by (simp add: compatible_def)
qed

section \<open>Properties\<close>

lemma custody_capped:
  assumes "sys_reachable s" "core_symbol s = Inr cs" "tfind (sym_code cs) (stats (tokens s)) = Some st"
    and "amount (st_max_supply st) \<le> 400000000000000"
  shows "custody_ok cs s"
  using assms by (intro custody_reachable) (simp_all add: compatible_def capped_def rex_cap_def)

text \<open>
  C7. The resource exchange is solvent. In every reachable state, through any sequence of
  actions of the system and the token contract by any users but \<open>eosio.rex\<close>, which signs
  nothing itself, \<open>eosio.rex\<close> holds enough core tokens to pay at once every user's REX fund, every token the pool may lend, the balances of
  all loans and the proceeds of all filled orders, provided the token's maximum supply is at
  most 4 * 10^14 units (the EOS token's is 10^14), so that the products of 64 bits do not
  overflow. In particular every fund is covered.
\<close>

theorem rex_solvency:
  assumes "sys_reachable s" and "core_symbol s = Inr cs"
    and "tfind (sym_code cs) (stats (tokens s)) = Some st"
    and "amount (st_max_supply st) \<le> 400000000000000"
  shows "owed s \<le> balance (tokens s) rex_account (sym_code cs) \<and>
    (\<forall>n. 0 \<le> fund_of s n \<and> fund_of s n \<le> balance (tokens s) rex_account (sym_code cs))"
proof -
  have c: "rex_ok cs {} s" "owed s \<le> balance (tokens s) rex_account (sym_code cs)"
    using custody_capped [OF assms] by (simp_all add: custody_ok_def)
  have "fund_of s n \<le> owed s" for n
    using owed_parts(1-5) [OF c(1)] owed_parts(6) [OF c(1), of n] by (simp add: owed_def)
  with c rex_okD(3) [OF c(1)] show ?thesis by (meson order_trans)
qed

text \<open>
  C8. The books of the resource exchange balance in every state that is reachable while
  \<open>eosio.rex\<close> signs nothing itself, provided the token's maximum supply is at most 4 * 10^14
  units, beyond which the products of 64 bits can overflow: the REX of all accounts add up to the pool's total, every account's REX is its matured REX plus its maturity
  buckets, none of them negative, and the pool's lendable tokens are those lent out and those
  not. A unit of REX is always worth at least what the first one was: the pool never issues more
  than 10000 units of REX per lendable token unit.
\<close>

theorem rex_books_balance:
  assumes "sys_reachable s" and "core_symbol s = Inr cs"
    and "tfind (sym_code cs) (stats (tokens s)) = Some st"
    and "amount (st_max_supply st) \<le> 400000000000000"
  shows "(\<Sum>n\<in>UNIV. held_of s n) = rex_units s \<and>
    (\<forall>n rb. tfind n (rexbalance s) = Some rb \<longrightarrow>
       amount (rex_held rb) = matured_rex rb + (\<Sum>b\<leftarrow>rex_maturities rb. snd b) \<and>
       0 \<le> matured_rex rb \<and> (\<forall>b\<in>set (rex_maturities rb). 0 \<le> snd b)) \<and>
    (\<forall>p. rexpool s = Some p \<longrightarrow>
       amount (total_lendable p) = i64 (amount (total_unlent p) + amount (total_lent p)) \<and>
       0 \<le> amount (total_lendable p) \<and> 0 \<le> amount (total_rex p) \<and>
       amount (total_rex p) \<le> 10000 * amount (total_lendable p))"
proof -
  have ok: "rex_ok cs {} s" using custody_capped [OF assms] by (simp add: custody_ok_def)
  then show ?thesis
    by (auto simp: rex_ok_def balance_ok_def buckets_ok_def rex_in_def bsum_def all_nonneg_def pool_ok_def rex_ratio_def list_all_iff)
qed

text \<open>
  C9. Queued orders are covered. In every state that is reachable while \<open>eosio.rex\<close> signs
  nothing itself, provided the token's maximum supply is at most 4 * 10^14 units so that the
  products of 64 bits do not overflow, each queued sell order asks for a positive amount of REX that its
  owner's matured REX covers, and has no proceeds yet; so an order that comes up can be filled
  whatever happened to its owner's balance in the meantime.
\<close>

theorem rex_orders_covered:
  assumes "sys_reachable s" and "core_symbol s = Inr cs"
    and "tfind (sym_code cs) (stats (tokens s)) = Some st"
    and "amount (st_max_supply st) \<le> 400000000000000"
    and "tfind n (rexorders s) = Some r" "is_open r"
  shows "0 < amount (rex_requested r) \<and> amount (order_proceeds r) = 0 \<and>
    (\<exists>rb. tfind n (rexbalance s) = Some rb \<and> amount (rex_requested r) \<le> matured_rex rb \<and>
       matured_rex rb \<le> amount (rex_held rb))"
proof -
  have ok: "rex_ok cs {} s" using custody_capped [OF assms(1-4)] by (simp add: custody_ok_def)
  have o: "0 < amount (rex_requested r)" "amount (order_proceeds r) = 0" "amount (rex_requested r) \<le> matured_of s n"
    using rex_okD(5) [OF ok assms(5)] assms(6) by (simp_all add: order_ok_def)
  then obtain rb where rb: "tfind n (rexbalance s) = Some rb" by (fastforce simp: matured_of_def split: option.splits)
  then show ?thesis using o balance_okD(2) [OF rex_okD(4) [OF ok rb]] by (simp add: matured_of_def)
qed

lemma demo_rex_core: "core_symbol demo_rex = Inr eos_symbol"
  by code_simp

lemma demo_rex_stats: "tfind (sym_code eos_symbol) (stats (tokens demo_rex)) =
    Some \<lparr>st_supply = eos 10000000000000, st_max_supply = eos 100000000000000, st_issuer = eosio_account\<rparr>"
  by code_simp

lemmas demo_rex_state = demo_rex_reachable demo_rex_core demo_rex_stats

theorem rex_solvency_witness:
  "owed demo_rex \<le> balance (tokens demo_rex) rex_account 5459781 \<and> fund_of demo_rex alice = 99999850000"
  using rex_solvency [OF demo_rex_state] by (simp add: eos_def eos_symbol_def) (simp add: demo_rex_def fund_of_def eos_def)

theorem rex_books_balance_witness:
  "(\<Sum>n\<in>UNIV. held_of demo_rex n) = 5000000000000000 \<and> (\<exists>p. rexpool demo_rex = Some p \<and> 0 < amount (total_lent p))"
  using rex_books_balance [OF demo_rex_state] by (simp add: eos_def) (simp add: demo_rex_def rex_units_def eos_def)

theorem rex_orders_covered_witness:
  "\<exists>rb. tfind alice (rexbalance demo_sold) = Some rb \<and> 5000000000000000 \<le> matured_rex rb"
proof -
  have "core_symbol demo_sold = Inr eos_symbol" and "stats (tokens demo_sold) = stats (tokens demo_rex)"
    using demo_rex_core by (simp_all add: demo_sold_def core_symbol_def)
  moreover obtain r where "tfind alice (rexorders demo_sold) = Some r" "is_open r" "amount (rex_requested r) = 5000000000000000"
    by (simp add: demo_sold_def)
  ultimately show ?thesis
    using rex_orders_covered [OF demo_sold_reachable, of eos_symbol _ alice r] demo_rex_stats by (auto simp: eos_def)
qed

end
