(* ===== verification/Custody.thy ===== *)
theory Custody
  imports Signatures Rex_Solvency
begin

text \<open>
  The accounts on which the system contract keeps its users' tokens, \<open>eosio.stake\<close>,
  \<open>eosio.names\<close> and \<open>eosio.ram\<close>. The contract's tables say what it owes on such an account;
  the token contract says what the account has. The locale \<open>custodian\<close> is the contract between
  the two: an operation may only grow the debt by what it tells the token contract to pay in.
  Then the debt is covered in every state a chain can reach.
\<close>

section \<open>Reachable states\<close>

text \<open>
  The states a chain reaches while an account signs nothing but what the system contract sends
  in its name.
\<close>

inductive guarded :: "name \<Rightarrow> sys \<Rightarrow> bool" for acct :: name where
  start: "token_reachable t \<Longrightarrow> guarded acct (genesis t p l)"
| action: "guarded acct s \<Longrightarrow> sys_env_ok (e :: sys_env) \<Longrightarrow> not_signed_by_rex e \<Longrightarrow> \<not> has_auth e acct \<Longrightarrow>
     action_ok a \<Longrightarrow> sys_transact e a s = Inr s' \<Longrightarrow> guarded acct s'"
| token: "guarded acct s \<Longrightarrow> sys_env_ok (e :: sys_env) \<Longrightarrow> not_signed_by_rex e \<Longrightarrow> \<not> has_auth e acct \<Longrightarrow>
     user_token_transact e a s = Inr s' \<Longrightarrow> guarded acct s'"
| account: "guarded acct s \<Longrightarrow> guarded acct (new_limits n s)"

lemma guarded_reachable: "guarded acct s \<Longrightarrow> sys_reachable s"
  by (induction rule: guarded.induct) (blast intro: sys_reachable.intros)+

section \<open>The core token\<close>

text \<open>A token once created keeps its symbol; the core token exists from \<open>init\<close> on.\<close>

definition has_token :: "symbol \<Rightarrow> token_state \<Rightarrow> bool" where
  "has_token cs t \<longleftrightarrow> (\<exists>st. tfind (sym_code cs) (stats t) = Some st \<and> symbol (st_supply st) = cs)"

lemma has_token_kept:
  assumes inv: "token_inv t" "token_inv t'" and h: "has_token cs t"
    and k: "\<And>st. tfind (sym_code cs) (stats t) = Some st \<Longrightarrow>
      \<exists>st'. tfind (sym_code cs) (stats t') = Some st' \<and> st_max_supply st' = st_max_supply st"
  shows "has_token cs t'"
proof -
  obtain st where st: "tfind (sym_code cs) (stats t) = Some st" "symbol (st_supply st) = cs"
    using h by (auto simp: has_token_def)
  obtain st' where st': "tfind (sym_code cs) (stats t') = Some st'" "st_max_supply st' = st_max_supply st"
    using k [OF st(1)] by blast
  have "symbol (st_supply st') = cs"
    using stat_facts(2) [OF inv(1) st(1)] stat_facts(2) [OF inv(2) st'(1)] st st'(2) by simp
  then show ?thesis using st' by (auto simp: has_token_def)
qed

text \<open>Only \<open>init\<close> sets the core symbol.\<close>

lemma core_symbol_set:
  assumes s': "sys_apply e a s = Inr s'" "core_symbol s' = Inr cs" and s: "core_symbol s = Inl err"
  shows "has_token cs (tokens s)"
proof (cases "Rammarket \<in> footprint a")
  case False
  then show ?thesis using writes_core_symbol [OF writes_apply [OF s'(1)]] s'(2) s by simp
next
  case True
  show ?thesis
  proof (cases a)
    case (A_init v c)
    then show ?thesis
      using s' by (auto simp: init_def initial_market_def core_symbol_eq_Inr get_supply_def has_token_def
          send_inline_def split: option.splits)
  qed (use True s' s in \<open>auto simp: setram_def setramrate_def buyram_def buyrambytes_def sellram_def core_symbol_def
      split: option.splits dest!: core_symbol_grow core_symbol_ram_supply\<close>)
qed

lemma core_token: "sys_reachable s \<Longrightarrow> core_symbol s = Inr cs \<Longrightarrow> has_token cs (tokens s)"
proof (induction rule: sys_reachable.induct)
  case (start t p l)
  then show ?case by (simp add: genesis_def core_symbol_def)
next
  case (action s e a s')
  note inv = token_inv_reachable [OF action.hyps(1)]
  have s: "s\<lparr>outbox := []\<rparr> = s" using inv by simp
  obtain s1 t where s1: "sys_apply e a s = Inr s1" and t: "run_inline e (outbox s1) (tokens s) = Inr t"
    and s': "s' = s1\<lparr>tokens := t, outbox := []\<rparr>"
    using action.hyps(5) s tokens_apply by (fastforce simp: sys_transact_eq_Inr)
  have c1: "core_symbol s1 = Inr cs" using action.prems by (simp add: s')
  have "has_token cs (tokens s)"
  proof (cases "core_symbol s")
    case (Inl err)
    then show ?thesis using core_symbol_set [OF s1 c1] by blast
  next
    case (Inr c)
    then have "c = cs" using core_symbol_kept [OF ram_inv_reachable [OF action.hyps(1)] _ s1] c1 by simp
    then show ?thesis using action.IH Inr by simp
  qed
  moreover have "token_inv t" using token_inv_run_inline [OF _ _ t] inv action.hyps(2) by (simp add: sys_env_ok_def)
  ultimately show ?case using has_token_kept [of "tokens s" t cs] run_keeps_max [OF t] inv by (simp add: s')
next
  case (token s e a s')
  note inv = token_inv_reachable [OF token.hyps(1)]
  obtain t where t: "token_transact e a (tokens s) = Inr t" and s': "s' = s\<lparr>tokens := t\<rparr>"
    using token.hyps(4) by (auto simp: user_token_transact_eq_Inr)
  have "token_inv t" using token_inv_transact [OF _ _ t] inv token.hyps(2) by (simp add: sys_env_ok_def)
  then show ?case
    using token.IH token.prems has_token_kept [of "tokens s" t cs] transact_keeps_max [OF t] inv by (simp add: s')
qed (auto simp: new_limits_def core_symbol_def)

text \<open>A transfer the contract's own account can cover is carried out.\<close>

lemma payout_ledger:
  assumes e: "asset_laws e" "symbol_is_valid e cs" and t: "token_inv t" "has_token cs t"
    and q: "symbol q = cs" "0 < amount q" "amount q \<le> balance t src (sym_code cs)"
    and n: "src \<in> set signers" "src \<noteq> n" "is_account e n" "length memo \<le> 256"
  obtains t' where "run_inline e [send_transfer signers src n q memo] t = Inr t'" "token_inv t'" "has_token cs t'"
    "balance t' = ledger_add n (sym_code cs) (amount q) (ledger_add src (sym_code cs) (- amount q) (balance t))"
proof -
  let ?f = "inline_env e (map (\<lambda>n. PermissionLevel n active_permission) signers)"
  obtain st where st: "tfind (sym_code cs) (stats t) = Some st" "symbol (st_supply st) = cs"
    using t(2) by (auto simp: has_token_def)
  have "in_range q"
    using q balance_le_max [OF t(1), of src "sym_code cs"] stat_facts(5) [OF t(1) st(1)] st by (simp add: in_range_def)
  then have v: "asset_is_valid ?f q" "has_auth ?f src" "is_account ?f n"
    using e q n asset_valid_law [OF e(1), of q] by (auto simp: inline_env_def image_iff)
  obtain t' where t': "transfer ?f src n q memo t = Inr t'"
    using transfer_goes_through [of ?f t src n q memo st] e t v n q st by auto
  have l: "asset_laws ?f" using e(1) by simp
  have r: "run_inline e [send_transfer signers src n q memo] t = Inr t'"
    using t' by (simp add: send_transfer_def no_inline_def)
  moreover have "token_inv t'" by (rule token_inv_run_inline [OF e(1) t(1) r])
  moreover have "has_token cs t'" using transfer_effect(2) [OF l t(1) t'] t(2) by (simp add: has_token_def)
  ultimately show ?thesis using that transfer_effect(1) [OF l t(1) t'] q(1) by simp
qed

lemma payout_succeeds:
  assumes "asset_laws e" "symbol_is_valid e cs" "token_inv t" "has_token cs t"
    and "symbol q = cs" "0 < amount q" "amount q \<le> balance t src (sym_code cs)"
    and "src \<in> set signers" "src \<noteq> n" "is_account e n" "length memo \<le> 256"
  shows "\<exists>t'. run_inline e [send_transfer signers src n q memo] t = Inr t' \<and>
    balance t' n (sym_code cs) = balance t n (sym_code cs) + amount q"
  by (rule payout_ledger [OF assms]) (use assms(9) in \<open>auto simp: ledger_add_def\<close>)

text \<open>So an action that sends one such payment succeeds as a transaction.\<close>

lemma payment_transacts:
  assumes s: "sys_reachable s" "core_symbol s = Inr cs"
    and e: "sys_env_ok e" "symbol_is_valid e cs"
    and a: "sys_apply e a s = Inr s1" "limits s1 = limits s" "outbox s1 = [send_transfer signers src n q memo]"
    and q: "symbol q = cs" "0 < amount q" "amount q \<le> balance (tokens s) src (sym_code cs)"
    and n: "src \<in> set signers" "src \<noteq> n" "is_account e n" "length memo \<le> 256"
  shows "\<exists>t. sys_transact e a s = Inr (s1\<lparr>tokens := t, outbox := []\<rparr>) \<and>
    balance t n (sym_code cs) = balance (tokens s) n (sym_code cs) + amount q"
proof -
  note inv = token_inv_reachable [OF s(1)]
  have "s\<lparr>outbox := []\<rparr> = s" using inv by simp
  moreover obtain t where "run_inline e [send_transfer signers src n q memo] (tokens s) = Inr t"
    "balance t n (sym_code cs) = balance (tokens s) n (sym_code cs) + amount q"
    using payout_succeeds [OF _ e(2) _ core_token [OF s] q n] inv e(1) by (auto simp: sys_env_ok_def)
  ultimately show ?thesis
    using a tokens_apply [OF a(1)] by (intro exI [of _ t]) (simp add: sys_transact_eq_Inr)
qed

section \<open>What the outbox brings an account\<close>

text \<open>
  Debits count as they are; a credit counts only if its amount is positive, since the transaction
  fails otherwise.
\<close>

definition gain :: "name \<Rightarrow> 64 word \<Rightarrow> sys \<Rightarrow> int" where
  "gain n c s = (\<Sum>a\<leftarrow>outbox s. if debits n a then inline_flow c a n else max 0 (inline_flow c a n))"

lemma gain_empty: "outbox s = [] \<Longrightarrow> gain n c s = 0"
  by (simp add: gain_def)

lemma gain_outbox: "outbox s' = outbox s \<Longrightarrow> gain n c s' = gain n c s"
  by (simp add: gain_def)

lemma gain_send_inline [simp]:
  "gain n c (send_inline a s) =
     gain n c s + (if debits n a then inline_flow c a n else max 0 (inline_flow c a n))"
  by (simp add: gain_def send_inline_def)

lemma gain_flow:
  assumes "list_all positive (outbox s)" "list_all inline_ok (outbox s)"
  shows "gain n c s = (\<Sum>a\<leftarrow>outbox s. inline_flow c a n)"
proof -
  have "list_all positive xs \<Longrightarrow> list_all inline_ok xs \<Longrightarrow>
      (\<Sum>a\<leftarrow>xs. if debits n a then inline_flow c a n else max 0 (inline_flow c a n)) =
      (\<Sum>a\<leftarrow>xs. inline_flow c a n)" for xs
    by (induction xs) (auto simp: positive_flow)
  then show ?thesis using assms by (simp add: gain_def)
qed

lemma gain_kept:
  assumes "outbox s = []" "keeps N s s'" "n \<notin> N"
  shows "0 \<le> gain n c s'"
proof -
  have "\<not> debits n a" if "a \<in> set (outbox s')" for a
    using assms that by (auto simp: keeps_def debits_of_def filter_empty_conv)
  then show ?thesis
    unfolding gain_def by (intro sum_list_nonneg) auto
qed

text \<open>Nothing is ever retired: some account is not touched by any action.\<close>

lemma sends_no_retire:
  assumes e: "sys_env_ok e" "not_signed_by_rex e" "\<not> has_auth e acct" "acct \<noteq> rex_account"
    and s: "sys_apply e a s = Inr s'" "outbox s = []"
  shows "list_all inline_ok (outbox s')"
proof -
  have "\<exists>n. n \<notin> authors e \<union> spends (self e) a"
  proof (cases "\<exists>n q. a = A_withdraw n q")
    case True
    then show ?thesis using e(3,4) by (auto simp: spends_def)
  next
    case False
    then have "rex_account \<notin> authors e \<union> spends (self e) a"
      using e(1,2) by (cases a) (simp_all add: spends_def sys_env_ok_def not_signed_by_rex_def account_defs)
    then show ?thesis by blast
  qed
  then obtain n where "n \<notin> authors e \<union> spends (self e) a" by blast
  then have "debits_of n s' = []"
    using keeps_apply [OF s(1)] s(2) by (simp add: keeps_def debits_of_def)
  then have "\<not> debits n b" if "b \<in> set (outbox s')" for b
    using that by (auto simp: debits_of_def filter_empty_conv)
  moreover have "inline_ok b" if "\<not> debits n b" for b
    using that by (induction n b rule: debits.induct) auto
  ultimately show ?thesis by (simp add: list_all_iff)
qed

section \<open>The contract of a custodian\<close>

locale custodian =
  fixes acct :: name and due :: "sys \<Rightarrow> int" and ok :: "symbol \<Rightarrow> sys \<Rightarrow> bool"
  assumes not_rex: "acct \<noteq> rex_account"
    and ok_start: "ok cs (genesis t p l)" and due_start: "due (genesis t p l) = 0"
    and ok_frame: "ok cs (s\<lparr>tokens := t, outbox := xs, limits := l\<rparr>) \<longleftrightarrow> ok cs s"
    and due_frame: "due (s\<lparr>tokens := t, outbox := xs, limits := l\<rparr>) = due s"
    and covers: "sys_env_ok (e :: sys_env) \<Longrightarrow> not_signed_by_rex e \<Longrightarrow> \<not> has_auth e acct \<Longrightarrow> action_ok a \<Longrightarrow>
      sys_apply e a s = Inr s' \<Longrightarrow> compatible cs s \<Longrightarrow> sys_reachable s \<Longrightarrow> ok cs s \<Longrightarrow> due s \<le> max_amount \<Longrightarrow>
      list_all positive (outbox s') \<Longrightarrow> due s + gain acct (sym_code cs) s' \<le> max_amount \<Longrightarrow>
      ok cs s' \<and> due s' \<le> due s + gain acct (sym_code cs) s'"
begin

lemma settled_frame:
  "ok cs (s\<lparr>tokens := t, outbox := xs\<rparr>) \<longleftrightarrow> ok cs s" "due (s\<lparr>tokens := t, outbox := xs\<rparr>) = due s"
  "ok cs (new_limits n s) \<longleftrightarrow> ok cs s" "due (new_limits n s) = due s"
  using ok_frame [where s = s and l = "limits s" and t = t and xs = xs and cs = cs]
    due_frame [where s = s and l = "limits s" and t = t and xs = xs]
    ok_frame [where s = s and t = "tokens s" and xs = "outbox s" and cs = cs]
    due_frame [where s = s and t = "tokens s" and xs = "outbox s"]
  by (simp_all add: new_limits_def)

lemma covered:
  "guarded acct s \<Longrightarrow> compatible cs s \<Longrightarrow> ok cs s \<and> due s \<le> balance (tokens s) acct (sym_code cs)"
proof (induction rule: guarded.induct)
  case (start t p l)
  then show ?case
    using acc_amount_nonneg [OF reachable_token_inv [OF start.hyps]]
    by (simp add: ok_start due_start balance_acc_amount) (simp add: genesis_def)
next
  case (action s e a s')
  note reach = guarded_reachable [OF action.hyps(1)]
  note inv = token_inv_reachable [OF reach]
  have s: "s\<lparr>outbox := []\<rparr> = s" using inv by simp
  obtain s1 t where s1: "sys_apply e a s = Inr s1" and t: "run_inline e (outbox s1) (tokens s) = Inr t"
    and s': "s' = s1\<lparr>tokens := t, outbox := []\<rparr>"
    using action.hyps(6) s tokens_apply by (fastforce simp: sys_transact_eq_Inr)
  have c: "compatible cs s"
    using core_symbol_kept [OF ram_inv_reachable [OF reach] _ s1] action.prems by (auto simp: compatible_def s')
  have due: "ok cs s" "due s \<le> balance (tokens s) acct (sym_code cs)" using action.IH [OF c] by simp_all
  have le: "balance t' acct (sym_code cs) \<le> max_amount" if "token_inv t'" for t'
    using balance_le_max [of t' acct "sym_code cs"] stat_facts [of t' "sym_code cs"] that
    by (fastforce simp: max_amount_def split: option.splits)
  have ok: "list_all inline_ok (outbox s1)"
    using sends_no_retire [OF action.hyps(2-4) not_rex s1] inv by simp
  have laws: "token_inv (tokens s) \<and> asset_laws e" using inv action.hyps(2) by (simp add: sys_env_ok_def)
  have flow: "balance t acct (sym_code cs) = balance (tokens s) acct (sym_code cs) + gain acct (sym_code cs) s1"
    using ledger.run_flow [OF laws ok t [unfolded run_inline_efold [of e "outbox s1" "tokens s"]]]
    by (simp add: gain_flow [OF run_inline_positive [OF t] ok])
  have "token_inv t" using token_inv_run_inline [OF _ _ t] laws by simp
  then have cov: "ok cs s1 \<and> due s1 \<le> due s + gain acct (sym_code cs) s1"
    using covers [OF action.hyps(2-5) s1 c reach due(1) _ run_inline_positive [OF t]] le [of "tokens s"] le [of t] laws due(2) flow by simp
  then show ?case using cov due(2) flow by (simp add: s' settled_frame)
next
  case (token s e a s')
  obtain t where t: "token_transact e a (tokens s) = Inr t" and s': "s' = s\<lparr>tokens := t\<rparr>"
    using token.hyps(5) by (auto simp: user_token_transact_eq_Inr)
  have "balance (tokens s) acct (sym_code cs) \<le> balance t acct (sym_code cs)"
    using unsigned_keeps_balance [OF _ _ token.hyps(4) t] token_inv_reachable [OF guarded_reachable [OF token.hyps(1)]]
      token.hyps(2) by (simp add: sys_env_ok_def)
  then show ?case
    using token.IH token.prems settled_frame(1,2) [where s = s and t = t and xs = "outbox s"] by (simp add: s' compatible_def)
next
  case (account s n)
  have "tokens (new_limits n s) = tokens s" "core_symbol (new_limits n s) = core_symbol s"
    by (simp_all add: new_limits_def)
  then show ?case using account by (simp add: settled_frame compatible_def)
qed

end

end
