(* ===== verification/Demo_Custody.thy ===== *)
theory Demo_Custody
  imports Custody
begin

text \<open>
  A second concrete history of the example chain, for the witnesses of the theorems about the
  accounts the contract keeps tokens on: alice gives bob some tokens, stakes enough to activate
  the chain, appoints bob as her proxy, bids on a name and is outbid by bob, unstakes a part,
  and buys RAM.
\<close>

definition demo_run :: "(name list \<times> int \<times> (sys_action + token_action)) list \<Rightarrow> sys \<Rightarrow> sys res" where
  "demo_run = efold (\<lambda>(signers, t, x). case x of
     Inl a \<Rightarrow> sys_transact (demo_sys_env signers t) a
   | Inr a \<Rightarrow> user_token_transact (demo_sys_env signers t) a)"

lemma has_auth_demo [simp]: "has_auth (demo_sys_env signers t) n \<longleftrightarrow> n \<in> set signers"
  by (simp add: demo_sys_env_def env.defs ref_env_def)

lemma demo_run_guarded:
  "demo_run xs s = Inr s' \<Longrightarrow> guarded acct s \<Longrightarrow>
     list_all (\<lambda>(signers, t, x). rex_account \<notin> set signers \<and> acct \<notin> set signers \<and>
       (case x of Inl a \<Rightarrow> action_ok a | Inr a \<Rightarrow> True)) xs \<Longrightarrow> guarded acct s'"
proof (induction xs arbitrary: s)
  case (Cons y ys)
  obtain signers t x where y: "y = (signers, t, x)" by (cases y)
  have rex: "not_signed_by_rex (demo_sys_env signers t)" "\<not> has_auth (demo_sys_env signers t) acct"
    using Cons.prems(3) by (simp_all add: y not_signed_by_rex_demo)
  show ?case
  proof (cases x)
    case (Inl a)
    then obtain s1 where s1: "sys_transact (demo_sys_env signers t) a s = Inr s1" and r: "demo_run ys s1 = Inr s'"
      using Cons.prems(1) by (auto simp: demo_run_def y)
    have "guarded acct s1"
      using guarded.action [OF Cons.prems(2) sys_env_ok_demo rex _ s1] Cons.prems(3) Inl by (simp add: y)
    then show ?thesis using Cons.IH [OF r] Cons.prems(3) by simp
  next
    case (Inr a)
    then obtain s1 where s1: "user_token_transact (demo_sys_env signers t) a s = Inr s1" and r: "demo_run ys s1 = Inr s'"
      using Cons.prems(1) by (auto simp: demo_run_def y)
    have "guarded acct s1"
      by (rule guarded.token [OF Cons.prems(2) sys_env_ok_demo rex s1])
    then show ?thesis using Cons.IH [OF r] Cons.prems(3) by simp
  qed
qed (simp add: demo_run_def)

lemma demo_ready_guarded:
  assumes "acct \<noteq> eosio_account"
  shows "guarded acct demo_ready"
proof (rule guarded.action [OF _ sys_env_ok_demo _ _ _ demo_init])
  show "guarded acct demo_genesis"
    unfolding demo_genesis_def by (rule guarded.start) (rule rich_reachable)
qed (use assms in \<open>simp_all add: not_signed_by_rex_demo action_ok_def account_defs example_defs ram_symbol_def ramcore_symbol_def\<close>)

text \<open>The name \<open>com\<close>.\<close>

definition com_name :: name where "com_name = 4982107087778611200"

text \<open>First the votes, then the bids, the unstaking and the RAM.\<close>

definition voting_story :: "(name list \<times> int \<times> (sys_action + token_action)) list" where
  "voting_story =
     [([alice], demo_time, Inr (Transfer alice bob (eos 1000000000) [])),
      ([alice], demo_time, Inl (A_delegatebw alice alice (eos 2000000000000) (eos 1000000) False)),
      ([bob], demo_time, Inl (A_regproxy bob True)),
      ([alice], demo_time, Inl (A_voteproducer alice bob []))]"

definition custody_story :: "(name list \<times> int \<times> (sys_action + token_action)) list" where
  "custody_story =
     [([alice], demo_time, Inl (A_bidname alice com_name (eos 1000000))),
      ([bob], demo_time, Inl (A_bidname bob com_name (eos 2000000))),
      ([alice], demo_time, Inl (A_undelegatebw alice alice (eos 500000) (eos 300000))),
      ([alice], demo_time, Inl (A_buyram alice alice (eos 100000)))]"

definition demo_voted :: sys where
  "demo_voted = \<lparr>tokens = \<lparr>stats = [(5459781, \<lparr>st_supply = eos 10000000000000,
        st_max_supply = eos 100000000000000, st_issuer = eosio_account\<rparr>)], accounts =
        [((stake_account, 5459781), eos 2000001000000), ((bob, 5459781), eos 1000000000),
        ((rex_account, 5459781), eos 0), ((alice, 5459781), eos 7998999000000), ((eosio_account,
        5459781), eos 0)]\<rparr>,
     gstate = \<lparr>params = \<lparr>max_authority_depth = 6, other_parameters = 0\<rparr>,
        max_ram_size = 68719476736, total_ram_bytes_reserved = 0, total_ram_stake = 0,
        last_producer_schedule_update = 0, last_pervote_bucket_fill = 0, pervote_bucket = 0,
        perblock_bucket = 0, total_unpaid_blocks = 0, total_activated_stake = 2000001000000,
        thresh_activated_stake_time = 1577836800000000, last_producer_schedule_size = 0,
        total_producer_vote_weight = Fin 0, last_name_close = 0\<rparr>,
     gstate2 = \<lparr>new_ram_per_block = 0, last_ram_increase = 0, last_block_num = 0,
        total_producer_votepay_share = Fin 0, revision = 0\<rparr>,
     gstate3 = \<lparr>last_vpay_state_update = 1577836800000000, total_vpay_share_change_rate = Fin
        0\<rparr>,
     voters = [(bob, \<lparr>proxy = 0, voted_producers = [], staked = 0, last_vote_weight = Fin
        (2695385963076923 / 64), proxied_vote_weight = Fin (2695385963076923 / 64), is_proxy = True,
        flags1 = 0\<rparr>), (alice, \<lparr>proxy = bob, voted_producers = [], staked =
        2000001000000, last_vote_weight = Fin (2695385963076923 / 64), proxied_vote_weight = Fin 0,
        is_proxy = False, flags1 = 0\<rparr>)],
     producers = [], producers2 = [],
     rammarket = [(ramcore_symbol, \<lparr>ex_supply = mk_asset 100000000000000 ramcore_symbol,
        ex_base = \<lparr>c_balance = mk_asset 68719476736 ram_symbol, c_weight = Fin (1 /
        2)\<rparr>, ex_quote = \<lparr>c_balance = eos 10000000000, c_weight = Fin (1 /
        2)\<rparr>\<rparr>)],
     rexpool = None, rexfunds = [], rexbalance = [], rexorders = [], cpuloans = [], netloans = [],
     userres = [(alice, \<lparr>net_weight = eos 2000000000000, cpu_weight = eos 1000000, ram_bytes
        = 0\<rparr>)],
     delband = [((alice, alice), \<lparr>del_net = eos 2000000000000, del_cpu = eos
        1000000\<rparr>)],
     refunds = [], namebids = [], bidrefunds = [], abihashes = [],
     limits = [(eosio_account, - 1, - 1, - 1), (alice, 1400, 2000000000000, 1000000), (bob, 0, 0,
        0)],
     privileged = [], chain_params = \<lparr>max_authority_depth = 6, other_parameters = 0\<rparr>,
     proposed_schedule = [], deferred = [], outbox = []\<rparr>"

definition demo_kept :: sys where
  "demo_kept = \<lparr>tokens = \<lparr>stats = [(5459781, \<lparr>st_supply = eos 10000000000000,
        st_max_supply = eos 100000000000000, st_issuer = eosio_account\<rparr>)], accounts =
        [((ramfee_account, 5459781), eos 500), ((ram_account, 5459781), eos 99500), ((names_account,
        5459781), eos 3000000), ((stake_account, 5459781), eos 2000001000000), ((bob, 5459781), eos
        998000000), ((rex_account, 5459781), eos 0), ((alice, 5459781), eos 7998997900000),
        ((eosio_account, 5459781), eos 0)]\<rparr>,
     gstate = \<lparr>params = \<lparr>max_authority_depth = 6, other_parameters = 0\<rparr>,
        max_ram_size = 68719476736, total_ram_bytes_reserved = 683751, total_ram_stake = 99500,
        last_producer_schedule_update = 0, last_pervote_bucket_fill = 0, pervote_bucket = 0,
        perblock_bucket = 0, total_unpaid_blocks = 0, total_activated_stake = 2000001000000,
        thresh_activated_stake_time = 1577836800000000, last_producer_schedule_size = 0,
        total_producer_vote_weight = Fin 0, last_name_close = 0\<rparr>,
     gstate2 = \<lparr>new_ram_per_block = 0, last_ram_increase = 1262304000, last_block_num = 0,
        total_producer_votepay_share = Fin 0, revision = 0\<rparr>,
     gstate3 = \<lparr>last_vpay_state_update = 1577836800000000, total_vpay_share_change_rate = Fin
        0\<rparr>,
     voters = [(bob, \<lparr>proxy = 0, voted_producers = [], staked = 0, last_vote_weight = Fin
        (2695384884923077 / 64), proxied_vote_weight = Fin (2695384884923077 / 64), is_proxy = True,
        flags1 = 0\<rparr>), (alice, \<lparr>proxy = bob, voted_producers = [], staked =
        2000000200000, last_vote_weight = Fin (2695384884923077 / 64), proxied_vote_weight = Fin 0,
        is_proxy = False, flags1 = 0\<rparr>)],
     producers = [], producers2 = [],
     rammarket = [(ramcore_symbol, \<lparr>ex_supply = mk_asset 100000000000000 ramcore_symbol,
        ex_base = \<lparr>c_balance = mk_asset 68718792985 ram_symbol, c_weight = Fin (1 /
        2)\<rparr>, ex_quote = \<lparr>c_balance = eos 10000099500, c_weight = Fin (1 /
        2)\<rparr>\<rparr>)],
     rexpool = None, rexfunds = [], rexbalance = [], rexorders = [], cpuloans = [], netloans = [],
     userres = [(alice, \<lparr>net_weight = eos 1999999500000, cpu_weight = eos 700000, ram_bytes =
        683751\<rparr>)],
     delband = [((alice, alice), \<lparr>del_net = eos 1999999500000, del_cpu = eos
        700000\<rparr>)],
     refunds = [(alice, \<lparr>request_time = 1577836800, net_amount = eos 500000, cpu_amount = eos
        300000\<rparr>)],
     namebids = [(com_name, \<lparr>high_bidder = bob, high_bid = 2000000, last_bid_time =
        1577836800000000\<rparr>)],
     bidrefunds = [((com_name, alice), eos 1000000)], abihashes = [],
     limits = [(eosio_account, - 1, - 1, - 1), (alice, 685151, 1999999500000, 700000), (bob, 0, 0,
        0)],
     privileged = [], chain_params = \<lparr>max_authority_depth = 6, other_parameters = 0\<rparr>,
     proposed_schedule = [],
     deferred = [(91903654396066449028762821850071826432, BidRefundTrx alice com_name), (3773036822876127232, RefundTrx alice 259200)],
     outbox = []\<rparr>"

lemma demo_voted_run: "demo_run voting_story demo_ready = Inr demo_voted"
  by code_simp

lemma demo_kept_run: "demo_run custody_story demo_voted = Inr demo_kept"
  by code_simp

lemma demo_kept_guarded: "acct \<notin> {alice, bob, eosio_account} \<Longrightarrow> guarded acct demo_kept"
  by (rule demo_run_guarded [OF demo_kept_run demo_run_guarded [OF demo_voted_run demo_ready_guarded]])
    (simp_all add: voting_story_def custody_story_def account_defs example_defs action_ok_def asset_typed_def eos_def)

lemma demo_kept_core: "core_symbol demo_kept = Inr eos_symbol"
  by code_simp

text \<open>Three days after the unstaking.\<close>

definition demo_later :: int where "demo_later = 1578096000000000"

text \<open>After fifteen days a block closes bob's auction.\<close>

definition demo_closing :: int where "demo_closing = 1579132800000000"

definition demo_closed :: sys where
  "demo_closed = demo_kept\<lparr>
     gstate := (gstate demo_kept)\<lparr>last_producer_schedule_update := 1268265600,
       last_pervote_bucket_fill := demo_closing, last_name_close := 1268265600\<rparr>,
     gstate2 := (gstate2 demo_kept)\<lparr>last_block_num := 1268265600\<rparr>,
     namebids := [(com_name, \<lparr>high_bidder = bob, high_bid = -2000000, last_bid_time = 1577836800000000\<rparr>)]\<rparr>"

lemma demo_closed_run:
  "sys_transact (demo_sys_env [eosio_account] demo_closing) (A_onblock 1268265600 eosio_account) demo_kept = Inr demo_closed"
  by code_simp

lemma demo_closed_guarded:
  assumes "acct \<notin> {alice, bob, eosio_account}"
  shows "guarded acct demo_closed"
  by (rule guarded.action [OF demo_kept_guarded [OF assms] sys_env_ok_demo _ _ _ demo_closed_run])
    (use assms in \<open>simp_all add: not_signed_by_rex_demo action_ok_def account_defs\<close>)

end
