(* ===== verification/Stake_Custody.thy ===== *)
theory Stake_Custody
  imports Demo_Custody
begin

text \<open>
  \<open>eosio.stake\<close> holds what users have staked, in \<open>delband\<close>, and what they have unstaked and
  not yet collected, in \<open>refunds\<close>. Staking, unstaking, collecting a refund and buying REX with
  staked tokens move the sum of the two tables by exactly what they transfer; so the account
  covers it at all times, and a refund that is due can always be collected.
\<close>

section \<open>Rows of a table\<close>

definition rows_ok :: "('v \<Rightarrow> bool) \<Rightarrow> ('k, 'v) table \<Rightarrow> bool" where
  "rows_ok P t \<longleftrightarrow> twf t \<and> (\<forall>k v. tfind k t = Some v \<longrightarrow> P v)"

lemma rows_okD: "rows_ok P t \<Longrightarrow> twf t" "rows_ok P t \<Longrightarrow> tfind k t = Some v \<Longrightarrow> P v"
  by (auto simp: rows_ok_def)

lemma rows_ok_empty [simp]: "rows_ok P []"
  by (simp add: rows_ok_def)

lemma rows_ok_update: "rows_ok P t \<Longrightarrow> P v \<Longrightarrow> rows_ok P (AList.update k v t)"
  by (auto simp: rows_ok_def)

lemma rows_ok_terase: "rows_ok P t \<Longrightarrow> rows_ok P (terase k t)"
  by (auto simp: rows_ok_def split: if_splits)

lemma rows_ok_templace: "rows_ok P t \<Longrightarrow> P v \<Longrightarrow> templace k v t = Inr t' \<Longrightarrow> rows_ok P t'"
  by (auto simp: rows_ok_def split: if_splits)

definition row_value :: "('v \<Rightarrow> int) \<Rightarrow> 'v option \<Rightarrow> int" where
  "row_value f r = (case r of None \<Rightarrow> 0 | Some v \<Rightarrow> f v)"

lemma row_value_simps [simp]: "row_value f None = 0" "row_value f (Some v) = f v"
  by (simp_all add: row_value_def)

lemma tsum_update_row:
  "twf t \<Longrightarrow> tsum (\<lambda>_. f) (AList.update k v t) = tsum (\<lambda>_. f) t - row_value f (tfind k t) + f v"
proof (cases "tfind k t")
  case None
  moreover have "tfind k t = None \<Longrightarrow> tsum (\<lambda>_. f) (AList.update k v t) = tsum (\<lambda>_. f) t + f v"
    by (induction t) (auto split: if_splits)
  ultimately show ?thesis by simp
qed (simp add: tsum_AList_update)

lemma tsum_terase_row:
  "twf t \<Longrightarrow> tsum (\<lambda>_. f) (terase k t) = tsum (\<lambda>_. f) t - row_value f (tfind k t)"
  by (cases "tfind k t") (simp_all add: tsum_terase tsum_terase_None)

lemma row_le_tsum:
  assumes "rows_ok P t" "\<And>v. P v \<Longrightarrow> 0 \<le> f v"
  shows "row_value f (tfind k t) \<le> tsum (\<lambda>_. f) t" "0 \<le> tsum (\<lambda>_. f) t"
proof -
  show nonneg: "0 \<le> tsum (\<lambda>_. f) t"
    by (rule tab.total_nonneg) (use assms in \<open>auto simp: rows_ok_def\<close>)
  show "row_value f (tfind k t) \<le> tsum (\<lambda>_. f) t"
  proof (cases "tfind k t")
    case (Some v)
    then show ?thesis
      using tab.row_le_total [of t k v "\<lambda>_. f"] assms by (auto simp: rows_ok_def)
  qed (use nonneg in simp)
qed

section \<open>What is staked\<close>

definition delegated :: "delegated_bandwidth \<Rightarrow> int" where
  "delegated d = amount (del_net d) + amount (del_cpu d)"

definition refundable :: "refund_request \<Rightarrow> int" where
  "refundable r = amount (net_amount r) + amount (cpu_amount r)"

definition stake_due :: "sys \<Rightarrow> int" where
  "stake_due s = tsum (\<lambda>_. delegated) (delband s) + tsum (\<lambda>_. refundable) (refunds s)"

definition delegation_ok :: "symbol \<Rightarrow> delegated_bandwidth \<Rightarrow> bool" where
  "delegation_ok cs d \<longleftrightarrow> symbol (del_net d) = cs \<and> symbol (del_cpu d) = cs \<and>
     0 \<le> amount (del_net d) \<and> 0 \<le> amount (del_cpu d)"

definition refund_ok :: "symbol \<Rightarrow> refund_request \<Rightarrow> bool" where
  "refund_ok cs r \<longleftrightarrow> symbol (net_amount r) = cs \<and> symbol (cpu_amount r) = cs \<and>
     0 \<le> amount (net_amount r) \<and> 0 \<le> amount (cpu_amount r) \<and> \<not> refund_empty r"

definition stake_ok :: "symbol \<Rightarrow> sys \<Rightarrow> bool" where
  "stake_ok cs s \<longleftrightarrow> rows_ok (delegation_ok cs) (delband s) \<and> rows_ok (refund_ok cs) (refunds s)"

lemma stake_parts:
  assumes "stake_ok cs s"
  shows "0 \<le> tsum (\<lambda>_. delegated) (delband s)" "0 \<le> tsum (\<lambda>_. refundable) (refunds s)"
    "row_value delegated (tfind k (delband s)) \<le> stake_due s"
    "row_value refundable (tfind n (refunds s)) \<le> stake_due s"
proof -
  have d: "delegation_ok cs v \<Longrightarrow> 0 \<le> delegated v" for v
    by (simp add: delegation_ok_def delegated_def)
  have r: "refund_ok cs v \<Longrightarrow> 0 \<le> refundable v" for v
    by (simp add: refund_ok_def refundable_def)
  have R: "rows_ok (delegation_ok cs) (delband s)" "rows_ok (refund_ok cs) (refunds s)"
    using assms by (simp_all add: stake_ok_def)
  show 1: "0 \<le> tsum (\<lambda>_. delegated) (delband s)" by (rule row_le_tsum(2) [OF R(1) d])
  show 2: "0 \<le> tsum (\<lambda>_. refundable) (refunds s)" by (rule row_le_tsum(2) [OF R(2) r])
  show "row_value delegated (tfind k (delband s)) \<le> stake_due s"
    using row_le_tsum(1) [where f = delegated and k = k, OF R(1) d] 2 by (simp add: stake_due_def)
  show "row_value refundable (tfind n (refunds s)) \<le> stake_due s"
    using row_le_tsum(1) [where f = refundable and k = n, OF R(2) r] 1 by (simp add: stake_due_def)
qed

section \<open>The parts of changebw\<close>

text \<open>Both deltas are amounts of the core token of the same sign.\<close>

definition deltas_ok :: "symbol \<Rightarrow> asset \<Rightarrow> asset \<Rightarrow> bool" where
  "deltas_ok cs net cpu \<longleftrightarrow> symbol net = cs \<and> symbol cpu = cs \<and> in_range net \<and> in_range cpu \<and>
     \<bar>amount net + amount cpu\<bar> \<le> max_amount \<and>
     (0 \<le> amount net \<and> 0 \<le> amount cpu \<or> amount net \<le> 0 \<and> amount cpu \<le> 0 \<and> amount net + amount cpu < 0)"

lemma change_delegation_effect:
  assumes e: "asset_laws e" and ok: "stake_ok cs s" and le: "stake_due s \<le> max_amount"
    and q: "deltas_ok cs net cpu" and s': "change_delegation e n m net cpu s = Inr s'"
  shows "stake_ok cs s'" "stake_due s' = stake_due s + (amount net + amount cpu)"
    "outbox s' = outbox s" "refunds s' = refunds s"
proof -
  have rows: "rows_ok (delegation_ok cs) (delband s)" using ok by (simp add: stake_ok_def)
  obtain d where d: "delegation_ok cs d" and new: "delegated d = row_value delegated (tfind (n, m) (delband s)) + (amount net + amount cpu)"
    and t: "s' = s\<lparr>delband := (if delegation_empty d then terase (n, m) (delband s)
        else AList.update (n, m) d (delband s))\<rparr>"
  proof (cases "tfind (n, m) (delband s)")
    case None
    then show thesis
      using s' q by (intro that [of "\<lparr>del_net = net, del_cpu = cpu\<rparr>"])
        (auto simp: change_delegation_def delegation_ok_def delegated_def deltas_ok_def)
  next
    case (Some d0)
    then have d0: "delegation_ok cs d0" "delegated d0 \<le> max_amount"
      using rows_okD(2) [OF rows Some] stake_parts(3) [OF ok, of "(n, m)"] le by simp_all
    then have "in_range (del_net d0)" "in_range (del_cpu d0)"
      by (simp_all add: delegation_ok_def delegated_def in_range_def)
    then show thesis
      using s' q d0 Some e
      by (intro that [of "\<lparr>del_net = mk_asset (amount (del_net d0) + amount net) cs,
            del_cpu = mk_asset (amount (del_cpu d0) + amount cpu) cs\<rparr>"])
        (auto simp: change_delegation_def delegation_ok_def delegated_def deltas_ok_def asset_plus_law split: if_split_asm)
  qed
  have e0: "delegation_empty d \<Longrightarrow> delegated d = 0" by (simp add: delegation_empty_def delegated_def)
  show "outbox s' = outbox s" "refunds s' = refunds s" by (simp_all add: t)
  show "stake_ok cs s'" using ok d by (simp add: stake_ok_def t rows_ok_update rows_ok_terase)
  show "stake_due s' = stake_due s + (amount net + amount cpu)"
    using new e0 rows_okD(1) [OF rows] by (auto simp: stake_due_def t tsum_update_row tsum_terase_row)
qed

lemma settle_refund_effect:
  assumes e: "asset_laws e" and q: "symbol req = cs" "symbol delta = cs" "0 \<le> amount req" "amount req \<le> max_amount" "in_range delta"
    and r: "settle_refund e req delta = Inr (left, bal)"
  shows "symbol left = cs" "symbol bal = cs" "0 \<le> amount left" "0 \<le> amount bal" "in_range bal"
    "amount left - amount bal = amount req - amount delta"
proof -
  have in_r: "in_range req" using q by (simp add: in_range_def)
  have d: "\<bar>amount req - amount delta\<bar> \<le> max_amount"
    and out: "(left, bal) = (if amount req - amount delta < 0
        then (mk_asset 0 cs, mk_asset (i64 (amount delta - amount req)) cs)
        else (mk_asset (amount req - amount delta) cs, mk_asset 0 cs))"
    using r q in_r e
    by (auto simp: settle_refund_def asset_minus_law asset_neg_law set_amount_def mk_asset_def split: if_split_asm)
  moreover have "i64 (amount delta - amount req) = amount delta - amount req"
    using d by (intro i64_small) (simp add: max_amount_def)
  ultimately show "symbol left = cs" "symbol bal = cs" "0 \<le> amount left" "0 \<le> amount bal" "in_range bal"
    "amount left - amount bal = amount req - amount delta"
    by (auto simp: in_range_def max_amount_def split: if_split_asm)
qed

lemma open_refund_effect:
  assumes e: "asset_laws e" and q: "symbol delta = cs" "in_range delta" and r: "open_refund e cs delta = (left, bal)"
  shows "symbol left = cs" "symbol bal = cs" "0 \<le> amount left" "0 \<le> amount bal" "in_range bal"
    "amount left - amount bal = - amount delta"
proof -
  have "i64 (- amount delta) = - amount delta"
    using q by (intro i64_small) (simp add: in_range_def max_amount_def)
  then show "symbol left = cs" "symbol bal = cs" "0 \<le> amount left" "0 \<le> amount bal" "in_range bal"
    "amount left - amount bal = - amount delta"
    using r q e by (auto simp: open_refund_def asset_neg_law in_range_def max_amount_def split: if_split_asm)
qed

text \<open>What a refund takes up is no longer left to transfer.\<close>

lemma change_refund_effect:
  assumes e: "asset_laws e" and ok: "stake_ok cs s" and le: "row_value refundable (tfind n (refunds s)) \<le> max_amount"
    and cs: "core_symbol s = Inr cs" and q: "deltas_ok cs net cpu"
    and r: "change_refund e n net cpu s = Inr (needed, x, y, s')"
  shows "stake_ok cs s' \<and> stake_due s' = stake_due s + (amount x + amount y) - (amount net + amount cpu) \<and>
    outbox s' = outbox s \<and> symbol x = cs \<and> symbol y = cs \<and> 0 \<le> amount x \<and> 0 \<le> amount y \<and> in_range x \<and> in_range y"
proof -
  have rows: "rows_ok (refund_ok cs) (refunds s)" using ok by (simp add: stake_ok_def)
  show ?thesis
  proof (cases "tfind n (refunds s)")
    case None
    show ?thesis
    proof (cases "amount net < 0 \<or> amount cpu < 0")
      case True
      obtain net_left net_balance cpu_left cpu_balance where
        o: "open_refund e cs net = (net_left, net_balance)" "open_refund e cs cpu = (cpu_left, cpu_balance)"
        by (cases "open_refund e cs net", cases "open_refund e cs cpu")
      define r0 where "r0 = \<lparr>request_time = current_sec e, net_amount = net_left, cpu_amount = cpu_left\<rparr>"
      have s': "s' = s\<lparr>refunds := (n, r0) # refunds s\<rparr>" "x = net_balance" "y = cpu_balance"
        using r None True cs o by (auto simp: change_refund_def r0_def)
      note f = open_refund_effect [OF e _ _ o(1)] open_refund_effect [OF e _ _ o(2)]
      have "refund_ok cs r0"
        using f q True o by (auto simp: refund_ok_def refund_empty_def r0_def deltas_ok_def open_refund_def split: if_split_asm)
      then show ?thesis
        using f q ok None by (auto simp: s' stake_ok_def stake_due_def deltas_ok_def rows_ok_def refundable_def r0_def split: if_split_asm)
    qed (use r None ok q in \<open>auto simp: change_refund_def deltas_ok_def\<close>)
  next
    case (Some r0)
    then have r0: "refund_ok cs r0" "refundable r0 \<le> max_amount" using rows_okD(2) [OF rows Some] le by simp_all
    obtain net_left net_balance cpu_left cpu_balance where
      o: "settle_refund e (net_amount r0) net = Inr (net_left, net_balance)"
        "settle_refund e (cpu_amount r0) cpu = Inr (cpu_left, cpu_balance)"
      using r Some by (fastforce simp: change_refund_def)
    define r1 where "r1 = r0\<lparr>request_time := (if amount net < 0 \<or> amount cpu < 0 then current_sec e else request_time r0),
      net_amount := net_left, cpu_amount := cpu_left\<rparr>"
    have s': "s' = s\<lparr>refunds := (if refund_empty r1 then terase n (refunds s) else AList.update n r1 (refunds s))\<rparr>"
      "x = net_balance" "y = cpu_balance"
      using r Some o by (auto simp: change_refund_def r1_def Let_def split: if_split_asm)
    have p: "symbol (net_amount r0) = cs" "symbol (cpu_amount r0) = cs" "0 \<le> amount (net_amount r0)"
      "0 \<le> amount (cpu_amount r0)" "amount (net_amount r0) \<le> max_amount" "amount (cpu_amount r0) \<le> max_amount"
      using r0 by (simp_all add: refund_ok_def refundable_def)
    have d: "symbol net = cs" "symbol cpu = cs" "in_range net" "in_range cpu"
      using q by (simp_all add: deltas_ok_def)
    note f = settle_refund_effect [OF e p(1) d(1) p(3) p(5) d(3) o(1)] settle_refund_effect [OF e p(2) d(2) p(4) p(6) d(4) o(2)]
    have ok1: "\<not> refund_empty r1 \<Longrightarrow> refund_ok cs r1" using f by (simp add: refund_ok_def r1_def)
    have v: "refundable r1 = refundable r0 + (amount x + amount y) - (amount net + amount cpu)"
      using f by (simp add: refundable_def r1_def s')
    have e1: "refund_empty r1 \<Longrightarrow> refundable r1 = 0" by (simp add: refund_empty_def refundable_def)
    have "stake_ok cs s'" using ok ok1 by (simp add: stake_ok_def s' rows_ok_update rows_ok_terase)
    moreover have "stake_due s' = stake_due s + (amount x + amount y) - (amount net + amount cpu)"
      using v e1 rows_okD(1) [OF rows] Some by (auto simp: stake_due_def s' tsum_update_row tsum_terase_row)
    ultimately show ?thesis using f by (simp add: s')
  qed
qed

section \<open>The actions\<close>

lemma stake_frame:
  assumes "delband s' = delband s" "refunds s' = refunds s"
  shows "stake_due s' = stake_due s" "stake_ok cs s' \<longleftrightarrow> stake_ok cs s"
  using assms by (simp_all add: stake_due_def stake_ok_def)

lemma stake_writes:
  assumes "writes F s s'" "Delband \<notin> F" "Refunds \<notin> F"
  shows "stake_due s' = stake_due s" "stake_ok cs s' \<longleftrightarrow> stake_ok cs s"
  using stake_frame [of s' s] writes_unchanged [OF assms(1), of Delband] writes_unchanged [OF assms(1), of Refunds] assms(2,3)
  by simp_all

lemma gain_writes: "writes F s s' \<Longrightarrow> Outbox \<notin> F \<Longrightarrow> gain n c s' = gain n c s"
  using writes_unchanged [of F s s' Outbox] by (intro gain_outbox) simp

lemma transfer_stake_effect:
  assumes e: "asset_laws e" and ok: "stake_ok cs s" and le: "row_value refundable (tfind n (refunds s)) \<le> max_amount"
    and cs: "core_symbol s = Inr cs" and q: "deltas_ok cs net cpu" and src: "src \<noteq> stake_account"
    and t: "transfer_stake e t src n m net cpu s = Inr s'" and o: "outbox s = []"
  shows "stake_ok cs s'" "stake_due s' + (amount net + amount cpu) \<le> stake_due s + gain stake_account (sym_code cs) s'"
proof -
  have i: "i64 (amount net + amount cpu) = amount net + amount cpu"
    using q by (intro i64_small) (simp add: deltas_ok_def max_amount_def)
  define c where "c = ((\<not> t \<and> n = m) \<or> amount net + amount cpu < 0)"
  obtain b x y s1 p where r: "(if c then change_refund e n net cpu s else Inr (False, net, cpu, s)) = Inr (b, x, y, s1)"
    and p: "asset_plus e x y = Inr p"
    and s': "s' = (if 0 < amount p
        then send_inline (send_transfer [src] src stake_account p ''stake bandwidth'') (schedule_refund b n s1)
        else schedule_refund b n s1)"
    using t src by (auto simp: transfer_stake_def Let_def i c_def [symmetric] simp del: if_error_eq_Inr)
  have s1: "stake_ok cs s1 \<and> stake_due s1 = stake_due s + (amount x + amount y) - (amount net + amount cpu) \<and>
    outbox s1 = outbox s \<and> symbol x = cs \<and> symbol y = cs \<and> 0 \<le> amount x \<and> 0 \<le> amount y \<and> in_range x \<and> in_range y"
  proof (cases c)
    case True
    then show ?thesis using change_refund_effect [OF e ok le cs q] r by simp
  next
    case False
    then show ?thesis using r ok q by (auto simp: c_def deltas_ok_def)
  qed
  then have pq: "symbol p = cs" "amount p = amount x + amount y"
    using p e by (auto simp: asset_plus_law split: if_split_asm)
  have same: "delband s' = delband s1" "refunds s' = refunds s1"
    by (simp_all add: s' schedule_refund_def Let_def cancel_deferred_def send_deferred_def send_inline_def)
  have "gain stake_account (sym_code cs) (schedule_refund b n s1) = 0"
    using s1 o by (intro gain_empty) simp
  then have "gain stake_account (sym_code cs) s' = amount p"
    using s1 pq src by (simp add: s' send_transfer_def)
  then show "stake_ok cs s'" "stake_due s' + (amount net + amount cpu) \<le> stake_due s + gain stake_account (sym_code cs) s'"
    using s1 pq by (simp_all add: stake_frame [OF same])
qed

lemma changebw_effect:
  assumes e: "asset_laws e" "\<not> has_auth e stake_account" and s: "stake_ok cs s" "stake_due s \<le> max_amount" "outbox s = []"
    and cs: "core_symbol s = Inr cs" and q: "deltas_ok cs net cpu"
    and a: "changebw e src m net cpu t s = Inr s'"
  shows "stake_ok cs s' \<and> stake_due s' \<le> stake_due s + gain stake_account (sym_code cs) s'"
proof -
  define n where "n = (if t then m else src)"
  obtain s1 s2 s3 s4 both where s1: "change_delegation e n m net cpu s = Inr s1" and s2: "change_totals e m net cpu s1 = Inr s2"
    and s3: "transfer_stake e t src n m net cpu s2 = Inr s3" and s4: "update_rex_stake n s3 = Inr s4"
    and s': "update_voting_power e n both s4 = Inr s'" and "has_auth e src"
    using a unfolding changebw_def Let_def n_def [symmetric] by auto
  then have src: "src \<noteq> stake_account" using e by auto
  note d = change_delegation_effect [OF e(1) s(1,2) q s1]
  note w2 = stake_writes [OF writes_change_totals [OF s2]]
  have 2: "stake_ok cs s2" "stake_due s2 = stake_due s + (amount net + amount cpu)" "outbox s2 = []" "refunds s2 = refunds s"
    using d w2 s(3) writes_unchanged [OF writes_change_totals [OF s2], of Outbox]
      writes_unchanged [OF writes_change_totals [OF s2], of Refunds] by simp_all
  have c2: "core_symbol s2 = Inr cs"
    using cs writes_core_symbol [OF writes_change_delegation [OF s1]] writes_core_symbol [OF writes_change_totals [OF s2]] by simp
  have le: "row_value refundable (tfind n (refunds s2)) \<le> max_amount"
    using stake_parts(4) [OF s(1), of n] s(2) 2(4) by simp
  note t3 = transfer_stake_effect [OF e(1) 2(1) le c2 q src s3 2(3)]
  note w4 = writes_update_rex_stake [OF s4] and w5 = writes_votes(1) [OF s']
  have "stake_due s' = stake_due s3" "stake_ok cs s' = stake_ok cs s3"
    "gain stake_account (sym_code cs) s' = gain stake_account (sym_code cs) s3"
    using stake_writes [OF w4] stake_writes [OF w5] gain_writes [OF w4] gain_writes [OF w5] by simp_all
  then show ?thesis using t3 2(2) by simp
qed

text \<open>The checks of \<open>changebw\<close> keep the deltas in range.\<close>

lemma changebw_range:
  assumes e: "asset_laws e" and a: "changebw e src m net cpu t s = Inr s'"
    and typed: "\<bar>amount net\<bar> < 2 ^ 63" "\<bar>amount cpu\<bar> < 2 ^ 63"
  shows "in_range net" "in_range cpu" "symbol net = symbol cpu" "\<bar>amount net + amount cpu\<bar> \<le> max_amount"
proof -
  obtain both where b: "asset_plus e net cpu = Inr both"
    and m: "max (i64 \<bar>amount net\<bar>) (i64 \<bar>amount cpu\<bar>) \<le> i64 \<bar>amount both\<bar>"
    using a unfolding changebw_def by auto
  have "amount both = i64 (amount net + amount cpu)" and le: "\<bar>i64 (amount net + amount cpu)\<bar> \<le> max_amount"
    and "symbol net = symbol cpu"
    using b unfolding asset_plus_i64 [OF e] by (auto split: if_split_asm)
  moreover have "i64 \<bar>i64 (amount net + amount cpu)\<bar> = \<bar>i64 (amount net + amount cpu)\<bar>"
    using le by (intro i64_small) (simp add: max_amount_def)
  moreover have "i64 \<bar>amount net\<bar> = \<bar>amount net\<bar>" "i64 \<bar>amount cpu\<bar> = \<bar>amount cpu\<bar>"
    using typed by (simp_all add: i64_small)
  ultimately show r: "in_range net" "in_range cpu" "symbol net = symbol cpu"
    using m le by (simp_all add: in_range_def)
  then have "i64 (amount net + amount cpu) = amount net + amount cpu"
    by (intro i64_small) (simp add: in_range_def max_amount_def)
  then show "\<bar>amount net + amount cpu\<bar> \<le> max_amount" using le by simp
qed

lemma delegatebw_effect:
  assumes e: "asset_laws e" "\<not> has_auth e stake_account" and s: "stake_ok cs s" "stake_due s \<le> max_amount" "outbox s = []"
    and cs: "core_symbol s = Inr cs" and typed: "asset_typed net" "asset_typed cpu"
    and a: "delegatebw e src m net cpu t s = Inr s'"
  shows "stake_ok cs s' \<and> stake_due s' \<le> stake_due s + gain stake_account (sym_code cs) s'"
proof -
  have c: "changebw e src m net cpu t s = Inr s'" and q: "0 \<le> amount net" "0 \<le> amount cpu" "symbol net = cs"
    using a cs e(1) by (auto simp: delegatebw_def asset_le_law split: if_split_asm)
  have "\<bar>amount net\<bar> < 2 ^ 63" "\<bar>amount cpu\<bar> < 2 ^ 63" using typed q by (simp_all add: asset_typed_def)
  from changebw_range [OF e(1) c this] have "deltas_ok cs net cpu" using q by (simp add: deltas_ok_def)
  then show ?thesis by (rule changebw_effect [OF e s cs _ c])
qed

lemma undelegatebw_effect:
  assumes e: "asset_laws e" "\<not> has_auth e stake_account" and s: "stake_ok cs s" "stake_due s \<le> max_amount" "outbox s = []"
    and cs: "core_symbol s = Inr cs" and typed: "asset_typed net" "asset_typed cpu"
    and a: "undelegatebw e src m net cpu s = Inr s'"
  shows "stake_ok cs s' \<and> stake_due s' \<le> stake_due s + gain stake_account (sym_code cs) s'"
proof -
  have c: "changebw e src m (asset_neg e net) (asset_neg e cpu) False s = Inr s'"
    and q: "0 \<le> amount net" "0 \<le> amount cpu" "symbol net = cs" "0 < i64 (amount cpu + amount net)"
    using a cs e(1) by (auto simp: undelegatebw_def asset_le_law split: if_split_asm)
  have "i64 (- amount net) = - amount net" "i64 (- amount cpu) = - amount cpu"
    using typed q by (auto intro!: i64_id simp: asset_typed_def)
  then have n: "asset_neg e net = mk_asset (- amount net) (symbol net)" "asset_neg e cpu = mk_asset (- amount cpu) (symbol cpu)"
    using e(1) by (simp_all add: asset_neg_law)
  have "\<bar>amount (asset_neg e net)\<bar> < 2 ^ 63" "\<bar>amount (asset_neg e cpu)\<bar> < 2 ^ 63"
    using typed q by (simp_all add: n asset_typed_def)
  note r = changebw_range [OF e(1) c this]
  have "i64 (amount cpu + amount net) = amount cpu + amount net"
    using r(1,2) by (intro i64_small) (simp add: n in_range_def max_amount_def)
  then have "deltas_ok cs (asset_neg e net) (asset_neg e cpu)" using r q by (auto simp: n deltas_ok_def)
  then show ?thesis by (rule changebw_effect [OF e s cs _ c])
qed

lemma refund_effect:
  assumes e: "asset_laws e" and s: "stake_ok cs s" "stake_due s \<le> max_amount" "outbox s = []"
    and a: "refund e n s = Inr s'"
  shows "stake_ok cs s' \<and> stake_due s' \<le> stake_due s + gain stake_account (sym_code cs) s'"
proof -
  have rows: "rows_ok (refund_ok cs) (refunds s)" using s(1) by (simp add: stake_ok_def)
  obtain r q where r: "tfind n (refunds s) = Some r" and q: "asset_plus e (net_amount r) (cpu_amount r) = Inr q"
    and s': "s' = send_inline (send_transfer [stake_account, n] stake_account n q ''unstake'')
      (s\<lparr>refunds := terase n (refunds s)\<rparr>)"
    using a by (auto simp: refund_def split: option.splits)
  have ok: "refund_ok cs r" "refundable r \<le> max_amount"
    using rows_okD(2) [OF rows r] stake_parts(4) [OF s(1), of n] s(2) r by simp_all
  have "in_range (net_amount r)" "in_range (cpu_amount r)"
    using ok by (simp_all add: refund_ok_def refundable_def in_range_def)
  then have "symbol q = cs" "amount q = refundable r"
    using q e ok(1) by (auto simp: asset_plus_law refund_ok_def refundable_def split: if_split_asm)
  moreover have "0 \<le> refundable r" using ok(1) by (simp add: refund_ok_def refundable_def)
  moreover have "gain stake_account (sym_code cs) (s\<lparr>refunds := terase n (refunds s)\<rparr>) = 0"
    using s(3) by (intro gain_empty) simp
  ultimately have "- refundable r \<le> gain stake_account (sym_code cs) s'"
    by (simp add: s' send_transfer_def)
  moreover have "delband s' = delband s" "refunds s' = terase n (refunds s)"
    by (simp_all add: s' send_inline_def)
  ultimately show ?thesis
    using s(1) rows_okD(1) [OF rows] r
    by (simp add: stake_ok_def stake_due_def rows_ok_terase tsum_terase_row)
qed

lemma gain_debits: "(\<Sum>a\<leftarrow>debits_of n s. inline_flow c a n) \<le> gain n c s"
proof -
  have "(\<Sum>a\<leftarrow>filter (debits n) xs. inline_flow c a n) \<le>
      (\<Sum>a\<leftarrow>xs. if debits n a then inline_flow c a n else max 0 (inline_flow c a n))" for xs
    by (induction xs) auto
  then show ?thesis by (simp add: gain_def debits_of_def)
qed

lemma unstake_for_rex_effect:
  assumes ok: "stake_ok cs s" and le: "stake_due s \<le> max_amount"
    and q: "0 \<le> amount net" "0 \<le> amount cpu" and s': "unstake_for_rex n m net cpu s = Inr s'"
  shows "stake_ok cs s'" "stake_due s' = stake_due s - (amount net + amount cpu)" "outbox s' = outbox s"
    "amount net + amount cpu \<le> max_amount"
proof -
  have rows: "rows_ok (delegation_ok cs) (delband s)" using ok by (simp add: stake_ok_def)
  obtain d where d: "tfind (n, m) (delband s) = Some d" "amount net \<le> amount (del_net d)" "amount cpu \<le> amount (del_cpu d)"
    using s' by (auto simp: unstake_for_rex_def split: option.splits)
  define d' where "d' = d\<lparr>del_net := add_amount (- amount net) (del_net d), del_cpu := add_amount (- amount cpu) (del_cpu d)\<rparr>"
  have t: "s' = s\<lparr>delband := (if delegation_empty d' then terase (n, m) (delband s)
      else AList.update (n, m) d' (delband s))\<rparr>"
    using s' d by (simp add: unstake_for_rex_def Let_def d'_def split: if_split_asm)
  have d0: "delegation_ok cs d" "delegated d \<le> max_amount"
    using rows_okD(2) [OF rows d(1)] stake_parts(3) [OF ok, of "(n, m)"] le d(1) by simp_all
  then have i: "i64 (amount (del_net d) - amount net) = amount (del_net d) - amount net"
    "i64 (amount (del_cpu d) - amount cpu) = amount (del_cpu d) - amount cpu"
    using q d(2,3) by (auto intro!: i64_small simp: delegation_ok_def delegated_def max_amount_def)
  then have d1: "delegation_ok cs d'" "delegated d' = delegated d - (amount net + amount cpu)"
    using d0 d(2,3) by (simp_all add: d'_def delegation_ok_def delegated_def)
  have e0: "delegation_empty d' \<Longrightarrow> delegated d' = 0" by (simp add: delegation_empty_def delegated_def)
  show "outbox s' = outbox s" by (simp add: t)
  show "stake_ok cs s'" using ok d1 by (simp add: stake_ok_def t rows_ok_update rows_ok_terase)
  show "stake_due s' = stake_due s - (amount net + amount cpu)"
    using d1 e0 d(1) rows_okD(1) [OF rows] by (auto simp: stake_due_def t tsum_update_row tsum_terase_row)
  show "amount net + amount cpu \<le> max_amount" using d0 d by (simp add: delegated_def)
qed

lemma keeps_trans: "keeps N s s1 \<Longrightarrow> keeps N s1 s2 \<Longrightarrow> keeps N s s2"
  by (simp add: keeps_def)

lemma keeps_mono: "keeps M s s' \<Longrightarrow> M \<subseteq> N \<Longrightarrow> keeps N s s'"
  by (auto simp: keeps_def)

lemma unstaketorex_effect:
  assumes e: "asset_laws e" and s: "stake_ok cs s" "stake_due s \<le> max_amount" "outbox s = []"
    and cs: "core_symbol s = Inr cs" and a: "unstaketorex e n m net cpu s = Inr s'"
  shows "stake_ok cs s' \<and> stake_due s' \<le> stake_due s + gain stake_account (sym_code cs) s'"
proof -
  obtain s1 s2 q got s3 s4 delta s5 s6 pending s7 where sy: "symbol net = cs" "symbol cpu = cs"
    and pos: "0 \<le> amount net" "0 \<le> amount cpu"
    and s1: "unstake_for_rex n m net cpu s = Inr s1"
    and s2: "update_resource_limits e m (i64 (- amount net)) (i64 (- amount cpu)) s1 = Inr s2"
    and q: "asset_plus e net cpu = Inr q"
    and s3: "s3 = send_inline (send_transfer [stake_account] stake_account rex_account q ''buy REX with staked tokens'') s2"
    and s4: "add_to_rex_pool e q s3 = Inr (got, s4)" and s5: "add_to_rex_balance e n q got s4 = Inr (delta, s5)"
    and s6: "runrex e 2 s5 = Inr s6"
    and s7: "update_rex_account e n (mk_asset 0 cs) (mk_asset 0 cs) True s6 = Inr (pending, s7)"
    and s': "s' = send_inline (RexResult (BuyResult got)) s7"
    using a cs by (auto simp: unstaketorex_def Let_def)
  note u = unstake_for_rex_effect [OF s(1,2) pos s1]
  have "in_range net" "in_range cpu" using pos u(4) by (simp_all add: in_range_def)
  then have qs: "symbol q = cs" "amount q = amount net + amount cpu"
    using q e sy by (auto simp: asset_plus_law split: if_split_asm)
  have "stake_due s' = stake_due s7" "stake_ok cs s' = stake_ok cs s7" "debits_of stake_account s' = debits_of stake_account s7"
    by (simp_all add: s' send_inline_def stake_due_def stake_ok_def debits_of_def)
  moreover have "stake_due s7 = stake_due s3" "stake_ok cs s7 = stake_ok cs s3"
    using stake_writes [OF writes_add_to_rex_pool [OF s4]] stake_writes [OF writes_add_to_rex_balance [OF s5]]
      stake_writes [OF writes_runrex [OF s6]] stake_writes [OF writes_update_rex_account [OF s7]] by simp_all
  moreover have "stake_due s3 = stake_due s1" "stake_ok cs s3 = stake_ok cs s1"
    using stake_writes [OF writes_update_resource_limits [OF s2]] by (simp_all add: s3 send_inline_def stake_due_def stake_ok_def)
  moreover have "debits_of stake_account s7 = debits_of stake_account s3"
    using keeps_add_to_rex_pool [OF s4] keeps_add_to_rex_balance [OF s5]
      keeps_runrex [OF s6] keeps_update_rex_account [OF s7] by (simp add: keeps_def account_defs)
  moreover have "debits_of stake_account s2 = []"
    using writes_unchanged [OF writes_update_resource_limits [OF s2], of Outbox] u(3) s(3) by (simp add: debits_of_def)
  ultimately show ?thesis
    using u gain_debits [where n = stake_account and c = "sym_code cs" and s = s'] qs by (simp add: s3) (simp add: send_transfer_def)
qed

section \<open>The account covers it\<close>

interpretation stakes: custodian stake_account stake_due stake_ok
proof unfold_locales
  fix e :: sys_env and a s s' cs
  assume e: "sys_env_ok e" "\<not> has_auth e stake_account" "action_ok a" and s': "sys_apply e a s = Inr s'"
    and c: "compatible cs s" and r: "sys_reachable s" and s: "stake_ok cs s" "stake_due s \<le> max_amount"
  have o: "outbox s = []" using token_inv_reachable [OF r] by simp
  have laws: "asset_laws e" using e(1) by (simp add: sys_env_ok_def)
  show "stake_ok cs s' \<and> stake_due s' \<le> stake_due s + gain stake_account (sym_code cs) s'"
  proof (cases "Delband \<in> footprint a \<or> Refunds \<in> footprint a")
    case False
    then have "stake_due s' = stake_due s" "stake_ok cs s' = stake_ok cs s"
      using stake_writes [OF writes_apply [OF s']] by simp_all
    moreover have "stake_account \<notin> authors e \<union> spends (self e) a"
      using False e by (cases a) (simp_all add: spends_def sys_env_ok_def account_defs)
    ultimately show ?thesis
      using gain_kept [OF o keeps_apply [OF s'], of stake_account "sym_code cs"] s(1) by simp
  next
    case True
    have cs: "core_symbol s = Inr c \<Longrightarrow> core_symbol s = Inr cs" for c using c by (simp add: compatible_def)
    show ?thesis
    proof (cases a)
      case (A_delegatebw n m net cpu t)
      then have a: "delegatebw e n m net cpu t s = Inr s'" "asset_typed net" "asset_typed cpu"
        using s' e(3) by (simp_all add: action_ok_def)
      then have "core_symbol s = Inr cs" using cs by (auto simp: delegatebw_def)
      from delegatebw_effect [OF laws e(2) s o this a(2,3,1)] show ?thesis .
    next
      case (A_undelegatebw n m net cpu)
      then have a: "undelegatebw e n m net cpu s = Inr s'" "asset_typed net" "asset_typed cpu"
        using s' e(3) by (simp_all add: action_ok_def)
      then have "core_symbol s = Inr cs" using cs by (auto simp: undelegatebw_def)
      from undelegatebw_effect [OF laws e(2) s o this a(2,3,1)] show ?thesis .
    next
      case (A_refund n)
      with s' refund_effect [OF laws s o] show ?thesis by simp
    next
      case (A_unstaketorex n m net cpu)
      then have a: "unstaketorex e n m net cpu s = Inr s'" using s' by simp
      then have "core_symbol s = Inr cs" using cs by (auto simp: unstaketorex_def)
      from unstaketorex_effect [OF laws s o this a] show ?thesis .
    qed (use True in simp_all)
  qed
qed (simp_all add: stake_ok_def stake_due_def genesis_def)

section \<open>Properties\<close>

text \<open>
  C12. Staked tokens are there. In every state a chain reaches while \<open>eosio.stake\<close> signs nothing
  itself, that account holds at least all delegated tokens and all refunds not yet collected
  together, through any sequence of staking, unstaking, refunds, purchases of REX with staked
  tokens and other actions.
\<close>

theorem stake_covered:
  assumes "guarded stake_account s" and "core_symbol s = Inr cs"
  shows "0 \<le> stake_due s \<and> stake_due s \<le> balance (tokens s) stake_account (sym_code cs)"
proof -
  have "stake_ok cs s" "stake_due s \<le> balance (tokens s) stake_account (sym_code cs)"
    using stakes.covered [OF assms(1), of cs] assms(2) by (simp_all add: compatible_def)
  then show ?thesis using stake_parts(1,2) [of cs s] by (simp add: stake_due_def)
qed

text \<open>
  C13. A refund that is due is paid, on a chain on which \<open>eosio.stake\<close> signs nothing itself and
  to an account that exists. When the three days since an unstaking have passed, its owner
  can always collect it: the transaction succeeds, the owner's balance grows by exactly what was
  requested, a positive amount, and the request is gone.
\<close>

theorem refund_pays:
  assumes "guarded stake_account s" and "core_symbol s = Inr cs" and "tfind n (refunds s) = Some r"
    and "sys_env_ok e" "symbol_is_valid e cs" "\<not> has_auth e stake_account" "has_auth e n" "is_account e n"
    and "(request_time r + refund_delay_sec) * 1000000 \<le> current_time e"
  shows "\<exists>s'. sys_transact e (A_refund n) s = Inr s' \<and> 0 < refundable r \<and> tfind n (refunds s') = None \<and>
    balance (tokens s') n (sym_code cs) = balance (tokens s) n (sym_code cs) + refundable r"
proof -
  have laws: "asset_laws e" using assms(4) by (simp add: sys_env_ok_def)
  note inv = token_inv_reachable [OF guarded_reachable [OF assms(1)]]
  have ok: "stake_ok cs s" and due: "stake_due s \<le> balance (tokens s) stake_account (sym_code cs)"
    using stakes.covered [OF assms(1), of cs] assms(2) by (simp_all add: compatible_def)
  have le: "refundable r \<le> balance (tokens s) stake_account (sym_code cs)"
    using stake_parts(4) [OF ok, of n] due assms(3) by simp
  have max: "balance (tokens s) stake_account (sym_code cs) \<le> max_amount"
    using balance_le_max [of "tokens s" stake_account "sym_code cs"] stat_facts [of "tokens s" "sym_code cs"] inv
    by (fastforce simp: max_amount_def split: option.splits)
  have r: "refund_ok cs r" using rows_okD(2) [of "refund_ok cs", OF _ assms(3)] ok by (simp add: stake_ok_def)
  then have pos: "0 < refundable r" by (auto simp: refund_ok_def refund_empty_def refundable_def)
  define q where "q = mk_asset (refundable r) cs"
  have q: "asset_plus e (net_amount r) (cpu_amount r) = Inr q"
    using r le max laws by (simp add: q_def asset_plus_law in_range_def refund_ok_def refundable_def)
  define s1 where "s1 = send_inline (send_transfer [stake_account, n] stake_account n q ''unstake'')
      (s\<lparr>refunds := terase n (refunds s)\<rparr>)"
  have s1: "sys_apply e (A_refund n) s = Inr s1"
    using assms(3,7,9) q by (simp add: refund_def s1_def)
  have "outbox s1 = [send_transfer [stake_account, n] stake_account n q ''unstake'']" "refunds s1 = terase n (refunds s)" "limits s1 = limits s"
    using inv by (simp_all add: s1_def send_inline_def)
  moreover have "stake_account \<noteq> n" using assms(6,7) by auto
  ultimately show ?thesis
    using payment_transacts [OF guarded_reachable [OF assms(1)] assms(2,4,5) s1] le pos assms(8) by (fastforce simp: q_def)
qed

theorem stake_covered_witness:
  "stake_due demo_kept = 2000001000000 \<and> 2000001000000 \<le> balance (tokens demo_kept) stake_account 5459781"
  using stake_covered [OF demo_kept_guarded demo_kept_core]
  by (simp add: eos_symbol_def account_defs example_defs)
    (simp add: stake_due_def demo_kept_def delegated_def refundable_def eos_def)

theorem refund_pays_witness:
  "\<exists>s'. sys_transact (demo_sys_env [alice] demo_later) (A_refund alice) demo_kept = Inr s' \<and>
    balance (tokens s') alice 5459781 = balance (tokens demo_kept) alice 5459781 + 800000"
proof -
  define r where "r = \<lparr>request_time = 1577836800, net_amount = eos 500000, cpu_amount = eos 300000\<rparr>"
  let ?e = "demo_sys_env [alice] demo_later"
  have "tfind alice (refunds demo_kept) = Some r" by (simp add: demo_kept_def r_def)
  moreover have "guarded stake_account demo_kept" by (rule demo_kept_guarded) (simp add: account_defs example_defs)
  moreover have "symbol_is_valid ?e eos_symbol" "is_account ?e alice" "current_time ?e = demo_later"
    by (simp_all add: demo_sys_env_def env.defs ref_env_def eos_symbol_def)
  moreover have "stake_account \<noteq> alice" by (simp add: account_defs example_defs)
  ultimately show ?thesis
    using refund_pays [OF _ demo_kept_core _ sys_env_ok_demo, of alice r "[alice]" demo_later]
    by (auto simp: r_def refundable_def eos_def eos_symbol_def refund_delay_sec_def demo_later_def)
qed

end
