(* ===== verification/Names_Service.thy ===== *)
theory Names_Service
  imports Footprint
begin

text \<open>
  What the name auction promises: which names count as short, what a bid must offer and what
  happens to the one it beats, and who may create an account with a short name or a dot in it.
\<close>

section \<open>Names with a dot\<close>

lemma has_zero_group_iff:
  "has_zero_group i w b \<longleftrightarrow> b \<or> (\<exists>j<i. drop_bit (5 * j) w AND 0x1f = 0)"
proof (induction i arbitrary: w b)
  case (Suc i)
  have "drop_bit (5 * j) (drop_bit 5 w) = drop_bit (5 * Suc j) w" for j
    by (simp add: algebra_simps)
  then have "(\<exists>j<i. drop_bit (5 * j) (drop_bit 5 w) AND 0x1f = 0) \<longleftrightarrow>
      (\<exists>j<i. drop_bit (5 * Suc j) w AND 0x1f = 0)"
    by simp
  then show ?case by (simp add: Suc.IH Ex_less_Suc2 disj_assoc del: mult_Suc_right)
qed simp

text \<open>
  C20. The loop of \<open>newaccount\<close> finds a dot exactly when one of the first twelve characters of
  the name, each five bits above the lowest four, is the dot, whose code is zero.
\<close>

theorem name_has_dot_iff:
  "name_has_dot n \<longleftrightarrow> (\<exists>j<12. drop_bit (5 * j + 4) n AND 0x1f = 0)"
  by (simp add: name_has_dot_def has_zero_group_iff)

section \<open>Bids\<close>

text \<open>What the auction owes an account that was outbid.\<close>

definition bid_refund :: "sys \<Rightarrow> name \<Rightarrow> name \<Rightarrow> int" where
  "bid_refund s newname bidder =
     (case tfind (newname, bidder) (bidrefunds s) of None \<Rightarrow> 0 | Some r \<Rightarrow> amount r)"

end
