(* ===== verification/Names_Custody.thy ===== *)
theory Names_Custody
  imports Stake_Custody Names_Service
begin

text \<open>
  \<open>eosio.names\<close> holds the highest bids of the open auctions, the bids that were beaten and not
  yet refunded, and the proceeds of closed auctions on their way to the resource exchange. What
  the exchange does to the proceeds is the hard part: they wait in the pool's row, which nearly
  every action of the exchange rewrites, until \<open>runrex\<close> sends them to \<open>eosio.rex\<close>.
\<close>

lemma names_account_distinct [simp]:
  "names_account \<noteq> stake_account" "stake_account \<noteq> names_account" "names_account \<noteq> rex_account"
  "names_account \<noteq> ramfee_account" "ramfee_account \<noteq> names_account" "names_account \<noteq> ram_account"
  by (simp_all add: account_defs)

section \<open>The proceeds in the pool\<close>

text \<open>What the pool's row says; before the first purchase of REX, what it will say.\<close>

definition pending_proceeds :: "sys \<Rightarrow> asset option" where
  "pending_proceeds s =
     (case rexpool s of
        Some p \<Rightarrow> Some (namebid_proceeds p)
      | None \<Rightarrow> (case core_symbol s of Inl _ \<Rightarrow> None | Inr cs \<Rightarrow> Some (mk_asset 0 cs)))"

definition pending_amount :: "sys \<Rightarrow> int" where
  "pending_amount s = (case rexpool s of None \<Rightarrow> 0 | Some p \<Rightarrow> amount (namebid_proceeds p))"

lemma pending_amount: "pending_amount s = (case pending_proceeds s of None \<Rightarrow> 0 | Some q \<Rightarrow> amount q)"
  by (simp add: pending_amount_def pending_proceeds_def split: option.splits sum.splits)

definition quiet :: "sys \<Rightarrow> sys \<Rightarrow> bool" where
  "quiet s s' \<longleftrightarrow> pending_proceeds s' = pending_proceeds s \<and> debits_of names_account s' = debits_of names_account s"

text \<open>The proceeds only leave the pool for \<open>eosio.rex\<close>, or are forgotten.\<close>

definition debit_sum :: "symbol \<Rightarrow> inline_action list \<Rightarrow> int" where
  "debit_sum cs sent = (\<Sum>a\<leftarrow>sent. inline_flow (sym_code cs) a names_account)"

definition drained :: "asset option \<times> inline_action list \<Rightarrow> asset option \<times> inline_action list \<Rightarrow> bool" where
  "drained v v' \<longleftrightarrow>
     (case v of
        (None, _) \<Rightarrow> v' = v
      | (Some q, sent) \<Rightarrow> 0 \<le> amount q \<longrightarrow>
          (case v' of
             (None, _) \<Rightarrow> False
           | (Some q', sent') \<Rightarrow> symbol q' = symbol q \<and> 0 \<le> amount q' \<and>
               amount q' - debit_sum (symbol q) sent' \<le> amount q - debit_sum (symbol q) sent))"

definition drains :: "sys \<Rightarrow> sys \<Rightarrow> bool" where
  "drains s s' \<longleftrightarrow> drained (pending_proceeds s, debits_of names_account s) (pending_proceeds s', debits_of names_account s')"

lemma drained_refl [simp]: "drained v v"
  by (auto simp: drained_def split: option.splits prod.splits)

named_theorems quiet_frame

lemma pending_frame: "rexpool s' = rexpool s \<Longrightarrow> rammarket s' = rammarket s \<Longrightarrow> pending_proceeds s' = pending_proceeds s"
  by (simp only: pending_proceeds_def core_symbol_def)

lemma quiet_writes:
  "writes F s s' \<Longrightarrow> Rexpool \<notin> F \<Longrightarrow> Rammarket \<notin> F \<Longrightarrow> Outbox \<notin> F \<Longrightarrow> quiet s s'"
  using writes_unchanged [of F s s' Rexpool] writes_unchanged [of F s s' Rammarket] writes_unchanged [of F s s' Outbox]
  unfolding quiet_def debits_of_def by (simp add: pending_frame [of s' s])

lemma pending_updates [simp]:
  "pending_proceeds (s\<lparr>gstate := x1\<rparr>) = pending_proceeds s" "pending_proceeds (s\<lparr>gstate2 := x2\<rparr>) = pending_proceeds s"
  "pending_proceeds (s\<lparr>rexfunds := x9\<rparr>) = pending_proceeds s" "pending_proceeds (s\<lparr>rexbalance := x10\<rparr>) = pending_proceeds s"
  "pending_proceeds (s\<lparr>rexorders := x11\<rparr>) = pending_proceeds s" "pending_proceeds (s\<lparr>cpuloans := x12\<rparr>) = pending_proceeds s"
  "pending_proceeds (s\<lparr>netloans := x13\<rparr>) = pending_proceeds s" "pending_proceeds (s\<lparr>userres := x14\<rparr>) = pending_proceeds s"
  "pending_proceeds (s\<lparr>namebids := x15\<rparr>) = pending_proceeds s" "pending_proceeds (send_inline a s) = pending_proceeds s"
  "pending_proceeds (put_rex_balance m rb s) = pending_proceeds s"
  by (rule pending_frame; simp add: send_inline_def put_rex_balance_def)+

lemma pending_put_loans [simp]: "pending_proceeds (put_loans k t s) = pending_proceeds s"
  by (cases k) simp_all

lemma pending_pool [simp]:
  "rexpool s = Some p \<Longrightarrow> pending_proceeds s = Some (namebid_proceeds p)"
  "pending_proceeds (s\<lparr>rexpool := Some p'\<rparr>) = Some (namebid_proceeds p')"
  by (simp_all add: pending_proceeds_def)

lemma pending_the_pool [simp]: "the_pool s = Inr p \<Longrightarrow> pending_proceeds s = Some (namebid_proceeds p)"
  by (cases "rexpool s") (simp_all add: the_pool_def)

lemma filled_order_proceeds [simp]:
  "fill_rex_order e cs q p rb = Inr (oc, p', rb') \<Longrightarrow> namebid_proceeds p' = namebid_proceeds p"
  by (auto simp: fill_rex_order_def Let_def split: if_split_asm)

lemma added_loan_proceeds [simp]:
  "namebid_proceeds (add_loan_to_rex_pool l q b p) = namebid_proceeds p"
  by (simp add: add_loan_to_rex_pool_def Let_def)

lemma removed_loan_proceeds [simp]:
  "remove_loan_from_rex_pool l p = Inr p' \<Longrightarrow> namebid_proceeds p' = namebid_proceeds p"
  by (auto simp: remove_loan_from_rex_pool_def Let_def)

lemma pending_channel_to_rex [simp]: "pending_proceeds (channel_to_rex e n q s) = pending_proceeds s"
  by (cases "rexpool s") (simp_all add: channel_to_rex_def)

section \<open>Operations of the exchange\<close>

lemma quiet_votes [quiet_frame]:
  "update_voting_power e n q s = Inr s' \<Longrightarrow> quiet s s'"
  "update_votes e n prx prods v s = Inr s' \<Longrightarrow> quiet s s'"
  "regproxy e n b s = Inr s' \<Longrightarrow> quiet s s'"
  by (erule writes_votes [THEN quiet_writes], simp, simp, simp)+

lemma quiet_set_limits [quiet_frame]:
  "set_limits n a b c s = Inr s' \<Longrightarrow> quiet s s'"
  by (erule writes_set_limits [THEN quiet_writes]) simp_all

lemma quiet_transfer_from_fund [quiet_frame]:
  "transfer_from_fund e n q s = Inr s' \<Longrightarrow> quiet s s'"
  by (erule writes_transfer_from_fund [THEN quiet_writes]) simp_all

lemma quiet_transfer_to_fund [quiet_frame]:
  "transfer_to_fund n q s = Inr s' \<Longrightarrow> quiet s s'"
  by (erule writes_transfer_to_fund [THEN quiet_writes]) simp_all

lemma quiet_limits_follow [quiet_frame]:
  "limits_follow n f r s = Inr s' \<Longrightarrow> quiet s s'"
  by (erule writes_limits_follow [THEN quiet_writes]) simp_all

lemma quiet_update_resource_limits [quiet_frame]:
  "update_resource_limits e n a b s = Inr s' \<Longrightarrow> quiet s s'"
  by (erule writes_update_resource_limits [THEN quiet_writes]) simp_all

lemma quiet_limits_for_loan [quiet_frame]:
  "limits_for_loan r e n a s = Inr s' \<Longrightarrow> quiet s s'"
  by (erule writes_limits_for_loan [THEN quiet_writes]) simp_all

lemma quiet_process_expired_loan [quiet_frame]:
  "process_expired_loan r e k l s = Inr (b, d, s') \<Longrightarrow> quiet s s'"
  by (auto simp: quiet_def process_expired_loan_def Let_def case_prod_beta split: option.splits if_split_asm dest!: quiet_frame)

lemma quiet_expired_loan_round [quiet_frame]:
  "expired_loan_round r e s = Inr (Some s') \<Longrightarrow> quiet s s'"
  by (auto simp: quiet_def expired_loan_round_def Let_def case_prod_beta split: list.splits option.splits if_split_asm dest!: quiet_frame)

lemma quiet_process_loans [quiet_frame]:
  "process_loans r e n s = Inr s' \<Longrightarrow> quiet s s'"
  proof (induction n arbitrary: s)
  case (Suc n)
  then show ?case by (auto simp: quiet_def split: option.splits dest!: quiet_frame)
qed (simp add: quiet_def)

lemma quiet_fill_order_of [quiet_frame]:
  "fill_order_of e n rb q s = Inr (oc, s') \<Longrightarrow> quiet s s'"
  by (auto simp: quiet_def fill_order_of_def Let_def case_prod_beta split: option.splits if_split_asm dest!: quiet_frame)

lemma quiet_fill_queued_order [quiet_frame]:
  "fill_queued_order e x s = Inr s' \<Longrightarrow> quiet s s'"
  by (auto simp: quiet_def fill_queued_order_def Let_def case_prod_beta split: option.splits if_split_asm dest!: quiet_frame)

lemma quiet_process_orders [quiet_frame]:
  "process_orders e n s = Inr s' \<Longrightarrow> quiet s s'"
  unfolding process_orders_def
  by (erule efold_invariant [where P = "quiet s"], simp add: quiet_def)
    (drule quiet_fill_queued_order, simp add: quiet_def)

lemma drains_channel_proceeds [quiet_frame]:
  assumes "channel_proceeds e s = Inr s'"
  shows "drains s s'"
proof -
  obtain p where p: "rexpool s = Some p" using assms by (auto simp: channel_proceeds_def the_pool_def)
  show ?thesis
  proof (cases "0 < amount (namebid_proceeds p)")
    case False
    then show ?thesis using assms p by (auto simp: channel_proceeds_def the_pool_def drains_def drained_def)
  next
    case True
    define q where "q = namebid_proceeds p"
    obtain p1 where p1: "rexpool (channel_to_rex e names_account q s) = Some p1" "namebid_proceeds p1 = q"
      using p by (cases "0 < amount (total_rex p)") (auto simp: channel_to_rex_def q_def send_inline_def)
    have s': "s' = (channel_to_rex e names_account q s)\<lparr>rexpool := Some (p1\<lparr>namebid_proceeds := set_amount 0 q\<rparr>)\<rparr>"
      using assms p True p1 by (auto simp: channel_proceeds_def the_pool_def q_def)
    have "debits_of names_account s' = debits_of names_account s \<or>
        (\<exists>memo. debits_of names_account s' = debits_of names_account s @ [send_transfer [names_account] names_account rex_account q memo])"
      using p by (auto simp: s' channel_to_rex_def)
    then have "- debit_sum (symbol q) (debits_of names_account s') \<le> amount q - debit_sum (symbol q) (debits_of names_account s)"
      using True by (auto simp: debit_sum_def q_def send_transfer_def)
    moreover have "pending_proceeds s' = Some (set_amount 0 q)" "pending_proceeds s = Some q"
      using p p1(2) by (simp_all add: s' q_def)
    ultimately show ?thesis by (simp add: drains_def drained_def)
  qed
qed

lemma drains_runrex [quiet_frame]:
  "runrex e n s = Inr s' \<Longrightarrow> drains s s'"
  by (auto simp: quiet_def drains_def runrex_def Let_def case_prod_beta split: option.splits if_split_asm dest!: quiet_frame)

lemma drains_rent_rex [quiet_frame]:
  "rent_rex r e n m p q s = Inr (x, s') \<Longrightarrow> drains s s'"
  by (auto simp: quiet_def drains_def rent_rex_def Let_def case_prod_beta split: option.splits if_split_asm dest!: quiet_frame)

lemma quiet_update_rex_account [quiet_frame]:
  "update_rex_account e n p d b s = Inr (x, s') \<Longrightarrow> quiet s s'"
  by (erule writes_update_rex_account [THEN quiet_writes]) simp_all

lemma quiet_settle_account [quiet_frame]:
  "settle_account e n b s = Inr (x, s') \<Longrightarrow> quiet s s'"
  by (erule writes_settle_account [THEN quiet_writes]) simp_all

lemma quiet_add_to_rex_pool [quiet_frame]:
  "add_to_rex_pool e q s = Inr (x, s') \<Longrightarrow> quiet s s'"
  by (cases "rexpool s")
    (auto simp: quiet_def add_to_rex_pool_def Let_def pending_proceeds_def debits_of_def split: if_split_asm)

lemma quiet_add_to_rex_balance [quiet_frame]:
  "add_to_rex_balance e n p q s = Inr (x, s') \<Longrightarrow> quiet s s'"
  by (erule writes_add_to_rex_balance [THEN quiet_writes]) simp_all

lemma quiet_update_rex_stake [quiet_frame]:
  "update_rex_stake n s = Inr s' \<Longrightarrow> quiet s s'"
  by (erule writes_update_rex_stake [THEN quiet_writes]) simp_all

lemma quiet_unstake_for_rex [quiet_frame]:
  "unstake_for_rex n m a b s = Inr s' \<Longrightarrow> quiet s s'"
  by (erule writes_unstake_for_rex [THEN quiet_writes]) simp_all

lemma quiet_queue_order [quiet_frame]:
  "queue_order e n q s = Inr (x, s') \<Longrightarrow> quiet s s'"
  by (erule writes_queue_order [THEN quiet_writes]) simp_all

lemma drains_buyrex [quiet_frame]:
  "buyrex e n q s = Inr s' \<Longrightarrow> drains s s'"
  by (auto simp: quiet_def drains_def buyrex_def Let_def case_prod_beta split: option.splits if_split_asm dest!: quiet_frame)

lemma drains_unstaketorex [quiet_frame]:
  "unstaketorex e n r a b s = Inr s' \<Longrightarrow> drains s s'"
  by (auto simp: quiet_def drains_def unstaketorex_def Let_def case_prod_beta split: option.splits if_split_asm dest!: quiet_frame)

lemma drains_sellrex [quiet_frame]:
  "sellrex e n q s = Inr s' \<Longrightarrow> drains s s'"
  by (auto simp: quiet_def drains_def sellrex_def finish_sell_def Let_def case_prod_beta split: option.splits if_split_asm dest!: quiet_frame)

lemma drains_rentcpu [quiet_frame]:
  "rentcpu e f t p q s = Inr s' \<Longrightarrow> drains s s'"
  by (auto simp: quiet_def drains_def rentcpu_def Let_def case_prod_beta split: option.splits if_split_asm dest!: quiet_frame)

lemma drains_rentnet [quiet_frame]:
  "rentnet e f t p q s = Inr s' \<Longrightarrow> drains s s'"
  by (auto simp: quiet_def drains_def rentnet_def Let_def case_prod_beta split: option.splits if_split_asm dest!: quiet_frame)

lemma drains_updaterex [quiet_frame]:
  "updaterex e n s = Inr s' \<Longrightarrow> drains s s'"
  by (auto simp: quiet_def drains_def updaterex_def Let_def case_prod_beta split: option.splits if_split_asm dest!: quiet_frame)

lemma drains_consolidate [quiet_frame]:
  "consolidate e n s = Inr s' \<Longrightarrow> drains s s'"
  by (auto simp: quiet_def drains_def consolidate_def Let_def case_prod_beta split: option.splits if_split_asm dest!: quiet_frame)

lemma drains_mvtosavings [quiet_frame]:
  "mvtosavings e n q s = Inr s' \<Longrightarrow> drains s s'"
  by (auto simp: quiet_def drains_def mvtosavings_def Let_def case_prod_beta split: option.splits if_split_asm dest!: quiet_frame)

lemma drains_mvfrsavings [quiet_frame]:
  "mvfrsavings e n q s = Inr s' \<Longrightarrow> drains s s'"
  by (auto simp: quiet_def drains_def mvfrsavings_def Let_def case_prod_beta split: option.splits if_split_asm dest!: quiet_frame)

lemma quiet_setrex [quiet_frame]:
  "setrex e q s = Inr s' \<Longrightarrow> quiet s s'"
  by (auto simp: quiet_def setrex_def Let_def case_prod_beta split: option.splits if_split_asm dest!: quiet_frame)

lemma drains_rexexec [quiet_frame]:
  "rexexec e n m s = Inr s' \<Longrightarrow> drains s s'"
  by (auto simp: quiet_def drains_def rexexec_def Let_def case_prod_beta split: option.splits if_split_asm dest!: quiet_frame)

lemma drains_closerex [quiet_frame]:
  "closerex e n s = Inr s' \<Longrightarrow> drains s s'"
  by (auto simp: quiet_def drains_def closerex_def Let_def case_prod_beta split: option.splits if_split_asm dest!: quiet_frame)

section \<open>What is owed for names\<close>

definition open_bid :: "name_bid \<Rightarrow> int" where
  "open_bid b = max 0 (high_bid b)"

definition names_due :: "sys \<Rightarrow> int" where
  "names_due s = tsum (\<lambda>_. open_bid) (namebids s) + tsum (\<lambda>_. amount) (bidrefunds s) + pending_amount s"

definition bid_ok :: "name_bid \<Rightarrow> bool" where
  "bid_ok b \<longleftrightarrow> - (2 ^ 63) < high_bid b \<and> high_bid b < 2 ^ 63"

definition bid_refund_ok :: "symbol \<Rightarrow> asset \<Rightarrow> bool" where
  "bid_refund_ok cs r \<longleftrightarrow> symbol r = cs \<and> 0 < amount r"

definition names_ok :: "symbol \<Rightarrow> sys \<Rightarrow> bool" where
  "names_ok cs s \<longleftrightarrow> rows_ok bid_ok (namebids s) \<and> rows_ok (bid_refund_ok cs) (bidrefunds s) \<and>
     (\<forall>p. rexpool s = Some p \<longrightarrow> symbol (namebid_proceeds p) = cs \<and> 0 \<le> amount (namebid_proceeds p))"

lemma names_parts:
  assumes "names_ok cs s"
  shows "0 \<le> tsum (\<lambda>_. open_bid) (namebids s)" "0 \<le> tsum (\<lambda>_. amount) (bidrefunds s)" "0 \<le> pending_amount s"
    "row_value open_bid (tfind n (namebids s)) \<le> tsum (\<lambda>_. open_bid) (namebids s)"
    "row_value amount (tfind k (bidrefunds s)) \<le> tsum (\<lambda>_. amount) (bidrefunds s)"
proof -
  have R: "rows_ok bid_ok (namebids s)" "rows_ok (bid_refund_ok cs) (bidrefunds s)"
    using assms by (simp_all add: names_ok_def)
  have b: "bid_ok v \<Longrightarrow> 0 \<le> open_bid v" for v by (simp add: open_bid_def)
  have r: "bid_refund_ok cs v \<Longrightarrow> 0 \<le> amount v" for v by (simp add: bid_refund_ok_def)
  show "0 \<le> tsum (\<lambda>_. open_bid) (namebids s)" "row_value open_bid (tfind n (namebids s)) \<le> tsum (\<lambda>_. open_bid) (namebids s)"
    using row_le_tsum(1) [where f = open_bid and k = n, OF R(1) b] row_le_tsum(2) [where f = open_bid, OF R(1) b] by blast+
  show "0 \<le> tsum (\<lambda>_. amount) (bidrefunds s)" "row_value amount (tfind k (bidrefunds s)) \<le> tsum (\<lambda>_. amount) (bidrefunds s)"
    using row_le_tsum(1) [where f = amount and k = k, OF R(2) r] row_le_tsum(2) [where f = amount, OF R(2) r] by blast+
  show "0 \<le> pending_amount s" using assms by (simp add: names_ok_def pending_amount_def split: option.splits)
qed

text \<open>The exchange's actions.\<close>

lemma drains_names:
  assumes d: "drains s s'" and ok: "names_ok cs s" and c: "compatible cs s" and o: "outbox s = []"
    and same: "namebids s' = namebids s" "bidrefunds s' = bidrefunds s"
  shows "names_ok cs s' \<and> names_due s' \<le> names_due s + gain names_account (sym_code cs) s'"
proof -
  have d0: "debits_of names_account s = []" using o by (simp add: debits_of_def)
  have g: "debit_sum cs (debits_of names_account s') \<le> gain names_account (sym_code cs) s'"
    unfolding debit_sum_def by (rule gain_debits)
  show ?thesis
  proof (cases "pending_proceeds s")
    case None
    then have "pending_proceeds s' = None" "debits_of names_account s' = []"
      using d d0 by (simp_all add: drains_def drained_def)
    then show ?thesis
      using None g ok same
      by (auto simp: names_ok_def names_due_def pending_amount debit_sum_def pending_proceeds_def split: option.splits sum.splits)
  next
    case (Some q)
    have q: "symbol q = cs" "0 \<le> amount q"
      using Some ok c by (auto simp: pending_proceeds_def names_ok_def compatible_def split: option.splits sum.splits)
    then obtain q' where q': "pending_proceeds s' = Some q'" "symbol q' = cs" "0 \<le> amount q'"
      "amount q' - debit_sum cs (debits_of names_account s') \<le> amount q"
      using d Some d0 by (auto simp: drains_def drained_def debit_sum_def split: option.splits)
    moreover have "symbol (namebid_proceeds p) = cs \<and> 0 \<le> amount (namebid_proceeds p)" if "rexpool s' = Some p" for p
      using q' that by simp
    ultimately show ?thesis
      using Some g ok same by (simp add: names_ok_def names_due_def pending_amount)
  qed
qed

section \<open>Auctions\<close>

lemma highest_bid_row:
  assumes "highest_bid s = Some (n, b)" "twf (namebids s)"
  shows "tfind n (namebids s) = Some b"
proof -
  define P where "P = (\<lambda>(_ :: name, b). by_high_bid b < (2 ^ 64 - 1) div 2)"
  have "(n, b) \<in> set (dropWhile P (tindex by_high_bid (namebids s)))"
    using assms(1) by (auto simp: highest_bid_def P_def split: list.splits)
  then have "(n, b) \<in> set (namebids s)" by (auto simp: tindex_def dest: set_dropWhileD)
  then show ?thesis using assms(2) by (simp add: twf_def)
qed

lemma channel_namebid_fields [simp]:
  "namebids (channel_namebid_to_rex x s) = namebids s" "bidrefunds (channel_namebid_to_rex x s) = bidrefunds s"
  by (auto simp: channel_namebid_to_rex_def split: option.splits)

text \<open>Either nothing happens, or the highest open bid becomes negative.\<close>

lemma close_auction_cases:
  obtains "close_auction e t s = s"
  | n b where "highest_bid s = Some (n, b)" "0 < high_bid b" "useconds_per_day < i64 (current_time e - last_bid_time b)"
    "close_auction e t s = (channel_namebid_to_rex (high_bid b) (s\<lparr>gstate := (gstate s)\<lparr>last_name_close := t\<rparr>\<rparr>))
      \<lparr>namebids := AList.update n (b\<lparr>high_bid := i64 (- high_bid b)\<rparr>) (namebids s)\<rparr>"
proof (cases "highest_bid s")
  case (Some nb)
  obtain n b where "nb = (n, b)" by (cases nb)
  then show thesis using Some that by (cases "close_auction e t s = s") (auto simp: close_auction_def Let_def split: if_split_asm)
qed (use that in \<open>simp add: close_auction_def\<close>)

lemma close_auction_names:
  assumes ok: "names_ok cs s" and le: "names_due s \<le> max_amount"
  shows "names_ok cs (close_auction e t s) \<and> names_due (close_auction e t s) \<le> names_due s"
proof (rule close_auction_cases [where e = e and t = t and s = s])
  fix n b
  assume h: "highest_bid s = Some (n, b)" "0 < high_bid b"
    and s': "close_auction e t s = (channel_namebid_to_rex (high_bid b) (s\<lparr>gstate := (gstate s)\<lparr>last_name_close := t\<rparr>\<rparr>))
      \<lparr>namebids := AList.update n (b\<lparr>high_bid := i64 (- high_bid b)\<rparr>) (namebids s)\<rparr>"
  have rows: "rows_ok bid_ok (namebids s)" using ok by (simp add: names_ok_def)
  have b: "tfind n (namebids s) = Some b" by (rule highest_bid_row [OF h(1) rows_okD(1) [OF rows]])
  have bd: "bid_ok b" by (rule rows_okD(2) [OF rows b])
  then have i: "i64 (- high_bid b) = - high_bid b" by (intro i64_id) (simp_all add: bid_ok_def)
  have "high_bid b + pending_amount s \<le> max_amount"
    using names_parts(2) [OF ok] names_parts(4) [OF ok, of n] b le by (simp add: names_due_def open_bid_def)
  then have j: "i64 (pending_amount s + high_bid b) = pending_amount s + high_bid b"
    using names_parts(3) [OF ok] h(2) by (intro i64_id) (simp_all add: max_amount_def)
  have "tsum (\<lambda>_. open_bid) (AList.update n (b\<lparr>high_bid := i64 (- high_bid b)\<rparr>) (namebids s)) =
      tsum (\<lambda>_. open_bid) (namebids s) - high_bid b"
    using rows_okD(1) [OF rows] b h(2) by (simp add: tsum_update_row open_bid_def i)
  moreover have "rows_ok bid_ok (AList.update n (b\<lparr>high_bid := i64 (- high_bid b)\<rparr>) (namebids s))"
    using bd by (intro rows_ok_update [OF rows]) (simp add: bid_ok_def i)
  ultimately show ?thesis
    using ok j h(2) names_parts(3) [OF ok]
    by (auto simp: s' names_ok_def names_due_def pending_amount_def channel_namebid_to_rex_def split: option.splits)
qed (use ok in simp)

lemma bidrefund_names:
  assumes ok: "names_ok cs s" and o: "outbox s = []" and a: "bidrefund e m n s = Inr s'"
  shows "names_ok cs s' \<and> names_due s' \<le> names_due s + gain names_account (sym_code cs) s'"
proof -
  have rows: "rows_ok (bid_refund_ok cs) (bidrefunds s)" using ok by (simp add: names_ok_def)
  obtain r memo where r: "tfind (n, m) (bidrefunds s) = Some r"
    and s': "s' = (send_inline (send_transfer [names_account, m] names_account m r memo) s)
      \<lparr>bidrefunds := terase (n, m) (bidrefunds s)\<rparr>"
    using a by (auto simp: bidrefund_def Let_def send_inline_def split: option.splits)
  have ok1: "bid_refund_ok cs r" by (rule rows_okD(2) [OF rows r])
  have "gain names_account (sym_code cs) s' = gain names_account (sym_code cs) (send_inline (send_transfer [names_account, m] names_account m r memo) s)"
    by (rule gain_outbox) (simp add: s')
  then have "- amount r \<le> gain names_account (sym_code cs) s'"
    using ok1 o by (simp add: gain_empty send_transfer_def bid_refund_ok_def)
  moreover have "tsum (\<lambda>_. amount) (bidrefunds s') = tsum (\<lambda>_. amount) (bidrefunds s) - amount r"
    using rows_okD(1) [OF rows] r by (simp add: s' tsum_terase_row)
  ultimately show ?thesis
    using ok by (simp add: names_ok_def names_due_def s' send_inline_def pending_amount_def rows_ok_terase)
qed

text \<open>The bid that is beaten moves from the auction to the refunds.\<close>

lemma refund_outbid_effect:
  assumes e: "asset_laws e" and ok: "names_ok cs s" and le: "names_due s \<le> max_amount"
    and b: "tfind n (namebids s) = Some b" "0 < high_bid b" and s': "refund_outbid e cs n b s = Inr s'"
  defines "q \<equiv> mk_asset (bid_refund s n (high_bidder b) + high_bid b) cs"
    and "i \<equiv> uint n * 2 ^ 64 + uint (high_bidder b)"
  shows "s' = send_deferred i (BidRefundTrx (high_bidder b) n) (cancel_deferred i
      (s\<lparr>bidrefunds := AList.update (n, high_bidder b) q (bidrefunds s)\<rparr>))"
    "bid_refund_ok cs q" "row_value amount (tfind (n, high_bidder b) (bidrefunds s)) = bid_refund s n (high_bidder b)"
proof -
  have rows: "rows_ok (bid_refund_ok cs) (bidrefunds s)" using ok by (simp add: names_ok_def)
  have hb: "\<bar>high_bid b\<bar> \<le> max_amount"
    using names_parts(2,3) [OF ok] names_parts(4) [OF ok, of n] b le by (simp add: names_due_def open_bid_def)
  obtain q' where plus: "(case tfind (n, high_bidder b) (bidrefunds s) of
      None \<Rightarrow> Inr (mk_asset (high_bid b) cs) | Some r \<Rightarrow> asset_plus e r (mk_asset (high_bid b) cs)) = Inr q'"
    using s' by (auto simp: refund_outbid_def)
  have q: "q' = q \<and> bid_refund_ok cs q \<and> row_value amount (tfind (n, high_bidder b) (bidrefunds s)) = bid_refund s n (high_bidder b)"
  proof (cases "tfind (n, high_bidder b) (bidrefunds s)")
    case None
    then show ?thesis using plus b by (auto simp: q_def bid_refund_def bid_refund_ok_def)
  next
    case (Some r)
    then have r: "bid_refund_ok cs r" using rows_okD(2) [OF rows] by blast
    have "amount r \<le> max_amount"
      using names_parts(1,3) [OF ok] names_parts(5) [OF ok, of "(n, high_bidder b)"] Some le by (simp add: names_due_def)
    then have "in_range r" using r by (simp add: bid_refund_ok_def in_range_def)
    then show ?thesis
      using plus Some r hb b e
      by (auto simp: asset_plus_law in_range_def q_def bid_refund_def bid_refund_ok_def split: if_split_asm)
  qed
  show "s' = send_deferred i (BidRefundTrx (high_bidder b) n) (cancel_deferred i
      (s\<lparr>bidrefunds := AList.update (n, high_bidder b) q (bidrefunds s)\<rparr>))"
    using s' plus q by (auto simp: refund_outbid_def i_def Let_def)
  show "bid_refund_ok cs q" "row_value amount (tfind (n, high_bidder b) (bidrefunds s)) = bid_refund s n (high_bidder b)"
    using q by blast+
qed

text \<open>What a successful bid did, on a new name and on one with a bid.\<close>

lemma bidname_parts:
  assumes "bidname e w n bid s = Inr s'"
  obtains cs s1 memo where "core_symbol s = Inr cs" "symbol bid = cs" "0 < amount bid" "has_auth e w" "tfind n (namebids s) = None"
    "s1 = send_inline (send_transfer [w] w names_account bid memo) s"
    "s' = s1\<lparr>namebids := (n, \<lparr>high_bidder = w, high_bid = amount bid, last_bid_time = current_time e\<rparr>) # namebids s\<rparr>"
  | cs s1 b s2 memo where "core_symbol s = Inr cs" "symbol bid = cs" "0 < amount bid" "has_auth e w" "tfind n (namebids s) = Some b"
    "0 < high_bid b" "tdiv (high_bid b) 10 < i64 (amount bid - high_bid b)" "high_bidder b \<noteq> w"
    "s1 = send_inline (send_transfer [w] w names_account bid memo) s"
    "refund_outbid e cs n b s1 = Inr s2"
    "s' = s2\<lparr>namebids := AList.update n \<lparr>high_bidder = w, high_bid = amount bid, last_bid_time = current_time e\<rparr> (namebids s2)\<rparr>"
proof -
  define memo where "memo = ''bid name '' @ name_to_string e n"
  define s1 where "s1 = send_inline (send_transfer [w] w names_account bid memo) s"
  have nb: "namebids s1 = namebids s" by (simp add: s1_def send_inline_def)
  note a = assms [unfolded bidname_def memo_def [symmetric] s1_def [symmetric] Let_def]
  show thesis
  proof (cases "tfind n (namebids s)")
    case None
    then show thesis using a nb by (intro that(1) [OF _ _ _ _ None s1_def]) auto
  next
    case (Some b)
    then show thesis using a nb that(2) [OF _ _ _ _ Some _ _ _ s1_def] by auto
  qed
qed

lemma bidname_names:
  assumes e: "asset_laws e" "\<not> has_auth e names_account" and ok: "names_ok cs s" and le: "names_due s \<le> max_amount"
    and c: "compatible cs s" and o: "outbox s = []" and typed: "asset_typed bid" and a: "bidname e w n bid s = Inr s'"
  shows "names_ok cs s' \<and> names_due s' \<le> names_due s + gain names_account (sym_code cs) s'"
  using a
proof (cases rule: bidname_parts)
  case (1 cs' s1 memo)
  have sym: "symbol bid = cs" using 1 c by (simp add: compatible_def)
  have "gain names_account (sym_code cs) s' = gain names_account (sym_code cs) s1"
    by (rule gain_outbox) (simp add: 1)
  then have g: "gain names_account (sym_code cs) s' = amount bid"
    using 1 e(2) o sym by (auto simp: gain_empty send_transfer_def)
  have rows: "rows_ok bid_ok (namebids s)" using ok by (simp add: names_ok_def)
  have "rows_ok bid_ok (namebids s')"
    using rows 1 typed by (auto simp: rows_ok_def bid_ok_def asset_typed_def)
  then show ?thesis
    using ok g 1 by (simp add: names_ok_def names_due_def send_inline_def pending_amount_def open_bid_def)
next
  case (2 cs' s1 b s2 memo)
  have sym: "symbol bid = cs" "cs' = cs" using 2 c by (simp_all add: compatible_def)
  have same: "namebids s1 = namebids s" "bidrefunds s1 = bidrefunds s" "rexpool s1 = rexpool s"
    using 2 by (simp_all add: send_inline_def)
  have ok1: "names_ok cs s1" "names_due s1 = names_due s"
    using ok same by (simp_all add: names_ok_def names_due_def pending_amount_def)
  have b1: "tfind n (namebids s1) = Some b" using 2(5) same by simp
  note r = refund_outbid_effect [OF e(1) ok1(1) _ b1 2(6) 2(10) [unfolded sym]]
  have le1: "names_due s1 \<le> max_amount" using le ok1(2) by simp
  define q where "q = mk_asset (bid_refund s1 n (high_bidder b) + high_bid b) cs"
  have out: "outbox s' = outbox s1" "namebids s2 = namebids s" "rexpool s' = rexpool s"
    "bidrefunds s' = AList.update (n, high_bidder b) q (bidrefunds s)"
    using r(1) [OF le1] 2(11) same by (simp_all add: send_deferred_def cancel_deferred_def q_def)
  have "gain names_account (sym_code cs) s' = gain names_account (sym_code cs) s1"
    by (rule gain_outbox) (rule out)
  then have g: "gain names_account (sym_code cs) s' = amount bid"
    using 2 e(2) o sym by (auto simp: gain_empty send_transfer_def)
  have rows: "rows_ok bid_ok (namebids s)" "rows_ok (bid_refund_ok cs) (bidrefunds s)" using ok by (simp_all add: names_ok_def)
  have "rows_ok bid_ok (namebids s')" "rows_ok (bid_refund_ok cs) (bidrefunds s')"
    using rows 2 out typed r(2) [OF le1] by (auto intro!: rows_ok_update simp: bid_ok_def asset_typed_def q_def)
  moreover have "tsum (\<lambda>_. open_bid) (namebids s') = tsum (\<lambda>_. open_bid) (namebids s) - high_bid b + amount bid"
    using rows_okD(1) [OF rows(1)] 2 out by (simp add: tsum_update_row open_bid_def)
  moreover have "tsum (\<lambda>_. amount) (bidrefunds s') = tsum (\<lambda>_. amount) (bidrefunds s) + high_bid b"
    using rows_okD(1) [OF rows(2)] out r(3) [OF le1] same by (simp add: tsum_update_row q_def)
  ultimately show ?thesis using ok g out by (simp add: names_ok_def names_due_def pending_amount_def)
qed

lemma names_frame:
  assumes "namebids s' = namebids s" "bidrefunds s' = bidrefunds s"
    and "map_option namebid_proceeds (rexpool s') = map_option namebid_proceeds (rexpool s)"
  shows "names_ok cs s' \<longleftrightarrow> names_ok cs s" "names_due s' = names_due s"
proof -
  have "(\<forall>p. rexpool t = Some p \<longrightarrow> symbol (namebid_proceeds p) = cs \<and> 0 \<le> amount (namebid_proceeds p)) \<longleftrightarrow>
      (\<forall>q. map_option namebid_proceeds (rexpool t) = Some q \<longrightarrow> symbol q = cs \<and> 0 \<le> amount q)" for t
    by auto
  from this [of s] this [of s'] show "names_ok cs s' \<longleftrightarrow> names_ok cs s" using assms by (simp add: names_ok_def)
  have "pending_amount t = (case map_option namebid_proceeds (rexpool t) of None \<Rightarrow> 0 | Some q \<Rightarrow> amount q)" for t
    by (simp add: pending_amount_def split: option.splits)
  from this [of s] this [of s'] show "names_due s' = names_due s" using assms by (simp add: names_due_def)
qed

lemma newaccount_names:
  assumes ok: "names_ok cs s" and a: "newaccount e creator n s = Inr s'"
  shows "names_ok cs s' \<and> names_due s' = names_due s \<and> outbox s' = outbox s"
proof -
  obtain s1 t where s1: "claim_name e creator n s = Inr s1" and s': "set_limits n 0 0 0 (s1\<lparr>userres := t\<rparr>) = Inr s'"
    using a by (auto simp: newaccount_def)
  have rows: "rows_ok bid_ok (namebids s)" using ok by (simp add: names_ok_def)
  have c: "s1 = s \<or> (\<exists>b. tfind n (namebids s) = Some b \<and> high_bid b < 0 \<and> s1 = s\<lparr>namebids := terase n (namebids s)\<rparr>)"
    using s1 by (auto simp: claim_name_def Let_def split: if_split_asm option.splits)
  have "namebids s' = namebids s1" "bidrefunds s' = bidrefunds s" "rexpool s' = rexpool s" "outbox s' = outbox s"
    using s' c by (auto simp: set_limits_eq_Inr)
  moreover have "rows_ok bid_ok (namebids s1)" "tsum (\<lambda>_. open_bid) (namebids s1) = tsum (\<lambda>_. open_bid) (namebids s)"
    using c rows rows_okD(1) [OF rows] by (auto simp: rows_ok_terase tsum_terase_row open_bid_def)
  ultimately show ?thesis using ok by (simp add: names_ok_def names_due_def pending_amount_def)
qed

section \<open>The account covers it\<close>

lemma ram_steps_pool:
  "update_ram_supply e s = Inr s' \<Longrightarrow> rexpool s' = rexpool s"
  "convert_market e q c err s = Inr (out, s') \<Longrightarrow> rexpool s' = rexpool s"
  "credit_ram n b s = Inr s' \<Longrightarrow> rexpool s' = rexpool s"
  "set_ram_limit n b s = Inr s' \<Longrightarrow> rexpool s' = rexpool s"
  using writes_unchanged [OF writes_update_ram_supply, of e s s' Rexpool]
    writes_unchanged [OF writes_convert_market, of e q c err s out s' Rexpool]
    writes_unchanged [OF writes_credit_ram, of n b s s' Rexpool]
    writes_unchanged [OF writes_set_ram_limit, of n b s s' Rexpool] by simp_all

lemma channel_keeps_proceeds [simp]:
  "map_option namebid_proceeds (rexpool (channel_to_rex e n q s)) = map_option namebid_proceeds (rexpool s)"
  by (auto simp: channel_to_rex_def send_inline_def split: option.splits)

lemma rexpool_send_inline [simp]: "rexpool (send_inline a s) = rexpool s"
  by (simp add: send_inline_def)

lemma ram_keeps_proceeds:
  "buyram e p n q s = Inr s' \<Longrightarrow> map_option namebid_proceeds (rexpool s') = map_option namebid_proceeds (rexpool s)"
  "sellram e n b s = Inr s' \<Longrightarrow> map_option namebid_proceeds (rexpool s') = map_option namebid_proceeds (rexpool s)"
  "buyrambytes e p n b s = Inr s' \<Longrightarrow> map_option namebid_proceeds (rexpool s') = map_option namebid_proceeds (rexpool s)"
proof -
  show buy: "buyram e p n q s = Inr s' \<Longrightarrow> map_option namebid_proceeds (rexpool s') = map_option namebid_proceeds (rexpool s)" for q
    by (auto simp: buyram_def Let_def dest!: ram_steps_pool split: if_split_asm)
  show "buyrambytes e p n b s = Inr s' \<Longrightarrow> map_option namebid_proceeds (rexpool s') = map_option namebid_proceeds (rexpool s)"
    by (auto simp: buyrambytes_def dest!: buy split: option.splits)
  show "sellram e n b s = Inr s' \<Longrightarrow> map_option namebid_proceeds (rexpool s') = map_option namebid_proceeds (rexpool s)"
    by (auto simp: sellram_def Let_def dest!: ram_steps_pool split: if_split_asm option.splits)
qed

lemma block_fields [simp]:
  "namebids (count_block n s) = namebids s" "bidrefunds (count_block n s) = bidrefunds s" "rexpool (count_block n s) = rexpool s"
  by (simp_all add: count_block_def split: option.splits)

lemma election_fields [simp]:
  "namebids (update_elected_producers e t s) = namebids s" "bidrefunds (update_elected_producers e t s) = bidrefunds s"
  "rexpool (update_elected_producers e t s) = rexpool s"
  by (simp_all add: update_elected_producers_def Let_def)

lemma onblock_steps:
  assumes a: "onblock e t n s = Inr s'"
  obtains s4 where "namebids s4 = namebids s" "bidrefunds s4 = bidrefunds s" "rexpool s4 = rexpool s"
    "s' = s4 \<or> s' = close_auction e t s4"
proof -
  define s2 where "s2 = count_block n
    (if last_pervote_bucket_fill (gstate s) = 0
     then s\<lparr>gstate2 := (gstate2 s)\<lparr>last_block_num := t\<rparr>, gstate := (gstate s)\<lparr>last_pervote_bucket_fill := current_time e\<rparr>\<rparr>
     else s\<lparr>gstate2 := (gstate2 s)\<lparr>last_block_num := t\<rparr>\<rparr>)"
  have "namebids s2 = namebids s" "bidrefunds s2 = bidrefunds s" "rexpool s2 = rexpool s" by (simp_all add: s2_def)
  moreover have "s' = s\<lparr>gstate2 := (gstate2 s)\<lparr>last_block_num := t\<rparr>\<rparr> \<or> s' = s2 \<or> s' = update_elected_producers e t s2 \<or>
      s' = close_auction e t (update_elected_producers e t s2)"
    using a unfolding onblock_def Let_def s2_def by (simp split: if_split_asm)
  ultimately show thesis
    using that [of "s\<lparr>gstate2 := (gstate2 s)\<lparr>last_block_num := t\<rparr>\<rparr>"] that [of s2] that [of "update_elected_producers e t s2"]
    by auto
qed

lemma onblock_names:
  assumes ok: "names_ok cs s" and le: "names_due s \<le> max_amount" and a: "onblock e t n s = Inr s'"
  shows "names_ok cs s' \<and> names_due s' \<le> names_due s"
proof -
  obtain s4 where s4: "namebids s4 = namebids s" "bidrefunds s4 = bidrefunds s" "rexpool s4 = rexpool s"
    and s': "s' = s4 \<or> s' = close_auction e t s4"
    by (rule onblock_steps [OF a]) blast
  have "names_ok cs s4 \<longleftrightarrow> names_ok cs s" "names_due s4 = names_due s" using names_frame [of s4 s] s4 by simp_all
  then show ?thesis using close_auction_names [of cs s4 e t] s' ok le by auto
qed

interpretation auctions: custodian names_account names_due names_ok
proof unfold_locales
  fix e :: sys_env and a s s' cs
  assume e: "sys_env_ok e" "\<not> has_auth e names_account" "action_ok a" and s': "sys_apply e a s = Inr s'"
    and c: "compatible cs s" and r: "sys_reachable s" and s: "names_ok cs s" "names_due s \<le> max_amount"
  have o: "outbox s = []" using token_inv_reachable [OF r] by simp
  have laws: "asset_laws e" and self: "self e = eosio_account" using e(1) by (simp_all add: sys_env_ok_def)
  note gain = gain_kept [OF o keeps_apply [OF s'], of names_account "sym_code cs"]
  show "names_ok cs s' \<and> names_due s' \<le> names_due s + gain names_account (sym_code cs) s'"
  proof (cases "Namebids \<in> footprint a \<or> Bidrefunds \<in> footprint a")
    case True
    show ?thesis
    proof (cases a)
      case (A_newaccount creator n)
      then show ?thesis using newaccount_names [OF s(1), of e creator n s'] s' o by (simp add: gain_empty)
    next
      case (A_bidname w n bid)
      then show ?thesis using bidname_names [OF laws e(2) s c o, of bid w n s'] s' e(3) by (simp add: action_ok_def)
    next
      case (A_bidrefund w n)
      then show ?thesis using bidrefund_names [OF s(1) o] s' by simp
    next
      case (A_onblock t n)
      then have "outbox s' = outbox s" using apply_unchanged [OF s', of Outbox] by simp
      then show ?thesis using onblock_names [OF s] A_onblock s' o by (simp add: gain_empty)
    qed (use True in simp_all)
  next
    case False
    then have same: "namebids s' = namebids s" "bidrefunds s' = bidrefunds s"
      using apply_unchanged [OF s', of Namebids] apply_unchanged [OF s', of Bidrefunds] by simp_all
    show ?thesis
    proof (cases "names_account \<in> spends (self e) a")
      case True
      then have "drains s s'"
        using s' self False by (cases a) (auto simp: spends_def account_defs dest!: quiet_frame)
      then show ?thesis by (rule drains_names [OF _ s(1) c o same])
    next
      case spent: False
      have "map_option namebid_proceeds (rexpool s') = map_option namebid_proceeds (rexpool s)"
      proof (cases "Rexpool \<in> footprint a")
        case True
        then show ?thesis
          using s' spent False by (cases a) (auto simp: spends_def setrex_def ram_keeps_proceeds split: option.splits)
      qed (use apply_unchanged [OF s', of Rexpool] in simp)
      then show ?thesis using names_frame [OF same] gain e(2) spent s(1) by simp
    qed
  qed
qed (simp_all add: names_ok_def names_due_def pending_amount_def genesis_def)

section \<open>Properties\<close>

lemma guarded_names:
  assumes "guarded names_account s" "core_symbol s = Inr cs"
  shows "names_ok cs s" "names_due s \<le> balance (tokens s) names_account (sym_code cs)" "names_due s \<le> max_amount"
    "compatible cs s" "outbox s = []"
proof -
  note inv = token_inv_reachable [OF guarded_reachable [OF assms(1)]]
  show c: "compatible cs s" using assms(2) by (simp add: compatible_def)
  show "names_ok cs s" and due: "names_due s \<le> balance (tokens s) names_account (sym_code cs)"
    using auctions.covered [OF assms(1) c] by simp_all
  have "balance (tokens s) names_account (sym_code cs) \<le> max_amount"
    using balance_le_max [of "tokens s" names_account "sym_code cs"] stat_facts [of "tokens s" "sym_code cs"] inv
    by (fastforce simp: max_amount_def split: option.splits)
  then show "names_due s \<le> max_amount" using due by simp
  show "outbox s = []" using inv by simp
qed

text \<open>
  C16. The auctions are covered. While \<open>eosio.names\<close> signs nothing itself, it holds at least the
  highest bids of all open auctions, all beaten bids not yet refunded, and the proceeds of closed
  auctions that wait for the resource exchange, through any sequence of bids, refunds, closings
  and actions of the exchange.
\<close>

theorem names_covered:
  assumes "guarded names_account s" and "core_symbol s = Inr cs"
  shows "0 \<le> names_due s \<and> names_due s \<le> balance (tokens s) names_account (sym_code cs)"
  using guarded_names [OF assms] names_parts(1-3) [of cs s] by (simp add: names_due_def)

text \<open>
  C17. A beaten bid can always be refunded, by anybody, while \<open>eosio.names\<close> signs nothing itself
  and the beaten bidder's account exists: the transaction succeeds, the bidder's
  balance grows by exactly the bids it has lost on the name, a positive amount, and the refund is
  gone.
\<close>

theorem bidrefund_pays:
  assumes "guarded names_account s" and "core_symbol s = Inr cs" and "tfind (n, w) (bidrefunds s) = Some r"
    and "sys_env_ok e" "symbol_is_valid e cs" "is_account e w" "w \<noteq> names_account"
    and "length (name_to_string e n) \<le> 13"
  shows "\<exists>s'. sys_transact e (A_bidrefund w n) s = Inr s' \<and> 0 < amount r \<and> tfind (n, w) (bidrefunds s') = None \<and>
    balance (tokens s') w (sym_code cs) = balance (tokens s) w (sym_code cs) + amount r"
proof -
  note g = guarded_names [OF assms(1,2)]
  have r: "bid_refund_ok cs r" using rows_okD(2) [of "bid_refund_ok cs", OF _ assms(3)] g(1) by (simp add: names_ok_def)
  have le: "amount r \<le> balance (tokens s) names_account (sym_code cs)"
    using names_parts(1,3) [OF g(1)] names_parts(5) [OF g(1), of "(n, w)"] g(2) assms(3) by (simp add: names_due_def)
  define memo where "memo = ''refund bid on name '' @ name_to_string e n"
  define s1 where "s1 = (send_inline (send_transfer [names_account, w] names_account w r memo) s)
    \<lparr>bidrefunds := terase (n, w) (bidrefunds s)\<rparr>"
  have "sys_apply e (A_bidrefund w n) s = Inr s1"
    using assms(3) unfolding sys_apply.simps bidrefund_def memo_def [symmetric] by (simp add: s1_def send_inline_def)
  moreover have "outbox s1 = [send_transfer [names_account, w] names_account w r memo]"
    using g(5) by (simp add: s1_def send_inline_def)
  moreover have "length memo \<le> 256" using assms(8) by (simp add: memo_def)
  moreover have "bidrefunds s1 = terase (n, w) (bidrefunds s)" "limits s1 = limits s" by (simp_all add: s1_def send_inline_def)
  ultimately show ?thesis
    using payment_transacts [OF guarded_reachable [OF assms(1)] assms(2,4,5)] r le assms(6,7)
    by (fastforce simp: bid_refund_ok_def)
qed

text \<open>
  C18. What a new bid on a name does. It only succeeds while the auction is open and by another
  account than the highest bidder, with more than 110 percent of the highest bid. It becomes the
  highest bid; what is refundable grows by exactly the beaten bid for the beaten bidder and by
  nothing for anybody else; a deferred transaction is scheduled to pay it out. The chain is one on
  which \<open>eosio.names\<close> signs nothing itself.
\<close>

theorem bid_raises:
  assumes "guarded names_account s" and "core_symbol s = Inr cs" and "tfind n (namebids s) = Some b"
    and "asset_laws e" "asset_typed bid" and "bidname e w n bid s = Inr s'"
  shows "0 < high_bid b \<and> w \<noteq> high_bidder b \<and> 11 * high_bid b < 10 * amount bid \<and>
    namebids s' = AList.update n \<lparr>high_bidder = w, high_bid = amount bid, last_bid_time = current_time e\<rparr> (namebids s) \<and>
    (\<forall>m v. bid_refund s' m v = bid_refund s m v + (if m = n \<and> v = high_bidder b then high_bid b else 0)) \<and>
    tfind (uint n * 2 ^ 64 + uint (high_bidder b)) (deferred s') = Some (BidRefundTrx (high_bidder b) n)"
  using assms(6)
proof (cases rule: bidname_parts)
  case 1
  then show ?thesis using assms(3) by simp
next
  case (2 cs' s1 b' s2 memo)
  note g = guarded_names [OF assms(1,2)]
  have b: "b' = b" "cs' = cs" "symbol bid = cs" using 2 assms(2,3) by simp_all
  have same: "namebids s1 = namebids s" "bidrefunds s1 = bidrefunds s" "rexpool s1 = rexpool s"
    using 2 by (simp_all add: send_inline_def)
  then have ok1: "names_ok cs s1" "names_due s1 \<le> max_amount" "\<And>m v. bid_refund s1 m v = bid_refund s m v"
    using g(1,3) by (simp_all add: names_ok_def names_due_def pending_amount_def bid_refund_def)
  have b1: "tfind n (namebids s1) = Some b" "0 < high_bid b" using 2 same b by simp_all
  note r = refund_outbid_effect [OF assms(4) ok1(1,2) b1 2(10) [unfolded b]]
  have "high_bid b \<le> max_amount"
    using names_parts(2,3) [OF g(1)] names_parts(4) [OF g(1), of n] g(3) assms(3) b1(2) by (simp add: names_due_def open_bid_def)
  then have "i64 (amount bid - high_bid b) = amount bid - high_bid b"
    using b1(2) 2(3) assms(5) by (intro i64_id) (simp_all add: asset_typed_def max_amount_def)
  moreover have "tdiv (high_bid b) 10 = high_bid b div 10" using b1(2) by (simp add: tdiv_def)
  ultimately have "11 * high_bid b < 10 * amount bid" using 2(7) b by simp
  moreover have "bid_refund s' m v = bid_refund s m v + (if m = n \<and> v = high_bidder b then high_bid b else 0)" for m v
    using ok1(3) 2(11) r(1) same by (auto simp: bid_refund_def send_deferred_def cancel_deferred_def)
  ultimately show ?thesis
    using b 2(8,11) b1(2) r(1) same by (auto simp: send_deferred_def cancel_deferred_def)
qed

lemma closed_kept_onblock:
  assumes rows: "twf (namebids s)" "tfind n (namebids s) = Some b" "high_bid b < 0" and a: "onblock e t p s = Inr s'"
  shows "tfind n (namebids s') = Some b"
proof -
  obtain s4 where s4: "namebids s4 = namebids s" and s': "s' = s4 \<or> s' = close_auction e t s4"
    using onblock_steps [OF a] by metis
  have "tfind n (namebids (close_auction e t s4)) = Some b"
  proof (rule close_auction_cases [where e = e and t = t and s = s4])
    fix m c
    assume h: "highest_bid s4 = Some (m, c)" "0 < high_bid c"
      and c: "close_auction e t s4 = (channel_namebid_to_rex (high_bid c) (s4\<lparr>gstate := (gstate s4)\<lparr>last_name_close := t\<rparr>\<rparr>))
        \<lparr>namebids := AList.update m (c\<lparr>high_bid := i64 (- high_bid c)\<rparr>) (namebids s4)\<rparr>"
    have "tfind m (namebids s) = Some c" using highest_bid_row [OF h(1)] rows(1) s4 by simp
    then have "m \<noteq> n" using rows h(2) by auto
    then show ?thesis using rows s4 c by simp
  qed (use rows s4 in simp)
  then show ?thesis using s' s4 rows by auto
qed

text \<open>
  C19. A closed auction is final, on a chain on which \<open>eosio.names\<close> signs nothing itself. Once the highest bid on a name is negative, no action by anybody
  changes its row but one: the creation of the account, which only the winner can do and which
  removes it. So nobody can bid again, and the name is given away once.
\<close>

theorem closed_auction_final:
  assumes "guarded names_account s" and "core_symbol s = Inr cs"
    and "tfind n (namebids s) = Some b" "high_bid b < 0" and "sys_transact e a s = Inr s'"
  shows "tfind n (namebids s') = Some b \<or>
    (a = A_newaccount (high_bidder b) n \<and> tfind n (namebids s') = None)"
proof -
  note g = guarded_names [OF assms(1,2)]
  have wf: "twf (namebids s)" using rows_okD(1) [of bid_ok] g(1) by (auto simp: names_ok_def)
  have s: "s\<lparr>outbox := []\<rparr> = s" using g(5) by simp
  obtain s1 where s1: "sys_apply e a s = Inr s1" and s': "namebids s' = namebids s1"
    using assms(5) s by (auto simp: sys_transact_eq_Inr)
  show ?thesis
  proof (cases "Namebids \<in> footprint a")
    case False
    then show ?thesis using apply_unchanged [OF s1, of Namebids] s' assms(3) by simp
  next
    case True
    show ?thesis
    proof (cases a)
      case (A_newaccount creator m)
      then have c: "newaccount e creator m s = Inr s1" using s1 by simp
      obtain s2 t where s2: "claim_name e creator m s = Inr s2" and "set_limits m 0 0 0 (s2\<lparr>userres := t\<rparr>) = Inr s1"
        using c by (auto simp: newaccount_def)
      then have "namebids s1 = namebids s2" by (auto simp: set_limits_eq_Inr)
      moreover have "s2 = s \<or> (\<exists>d. tfind m (namebids s) = Some d \<and> high_bidder d = creator \<and> s2 = s\<lparr>namebids := terase m (namebids s)\<rparr>)"
        using s2 by (auto simp: claim_name_def Let_def split: if_split_asm option.splits)
      ultimately show ?thesis using s' assms(3) A_newaccount by (cases "n = m") auto
    next
      case (A_bidname w m bid)
      then have "bidname e w m bid s = Inr s1" using s1 by simp
      then show ?thesis
      proof (cases rule: bidname_parts)
        case (2 cs' x d s2 memo)
        have "namebids s2 = namebids s"
          using writes_unchanged [OF writes_refund_outbid [OF 2(10)], of Namebids] 2(9) by (simp add: send_inline_def)
        then show ?thesis using 2 s' assms(3,4) by auto
      qed (use s' assms(3) in \<open>auto simp: send_inline_def\<close>)
    next
      case (A_onblock t p)
      then show ?thesis using closed_kept_onblock [OF wf assms(3,4)] s1 s' by simp
    qed (use True in simp_all)
  qed
qed

section \<open>Examples\<close>

lemma demo_names_guarded: "guarded names_account demo_kept"
  by (rule demo_kept_guarded) (simp add: account_defs example_defs)

theorem names_covered_witness:
  "names_due demo_kept = 3000000 \<and> 3000000 \<le> balance (tokens demo_kept) names_account 5459781"
  using names_covered [OF demo_names_guarded demo_kept_core]
  by (simp add: eos_symbol_def)
    (simp add: names_due_def demo_kept_def open_bid_def pending_amount_def eos_def)

theorem bidrefund_pays_witness:
  "\<exists>s'. sys_transact (demo_sys_env [bob] demo_later) (A_bidrefund alice com_name) demo_kept = Inr s' \<and>
    balance (tokens s') alice 5459781 = balance (tokens demo_kept) alice 5459781 + 1000000"
proof -
  let ?e = "demo_sys_env [bob] demo_later"
  have "tfind (com_name, alice) (bidrefunds demo_kept) = Some (eos 1000000)" by (simp add: demo_kept_def)
  moreover have "symbol_is_valid ?e eos_symbol" "is_account ?e alice" "name_to_string ?e com_name = []"
    by (simp_all add: demo_sys_env_def env.defs ref_env_def eos_symbol_def)
  moreover have "alice \<noteq> names_account" by (simp add: account_defs example_defs)
  ultimately show ?thesis
    using bidrefund_pays [OF demo_names_guarded demo_kept_core _ sys_env_ok_demo, of com_name alice "eos 1000000" "[bob]" demo_later]
    by (auto simp: eos_def eos_symbol_def)
qed

lemma demo_bid:
  "\<exists>s'. bidname (demo_sys_env [alice] demo_later) alice com_name (eos 3000000) demo_kept = Inr s'"
proof -
  have "case bidname (demo_sys_env [alice] demo_later) alice com_name (eos 3000000) demo_kept of Inl _ \<Rightarrow> False | Inr _ \<Rightarrow> True"
    by code_simp
  then show ?thesis by (auto split: sum.splits)
qed

theorem bid_raises_witness:
  "\<exists>s'. bidname (demo_sys_env [alice] demo_later) alice com_name (eos 3000000) demo_kept = Inr s' \<and>
    bid_refund s' com_name bob = 2000000 \<and> bid_refund s' com_name alice = 1000000"
proof -
  define b where "b = \<lparr>high_bidder = bob, high_bid = 2000000, last_bid_time = 1577836800000000\<rparr>"
  obtain s' where s': "bidname (demo_sys_env [alice] demo_later) alice com_name (eos 3000000) demo_kept = Inr s'"
    using demo_bid by blast
  have "tfind com_name (namebids demo_kept) = Some b" by (simp add: demo_kept_def b_def)
  moreover have "asset_typed (eos 3000000)" by (simp add: asset_typed_def eos_def)
  moreover have "asset_laws (demo_sys_env [alice] demo_later)" using sys_env_ok_demo by (simp add: sys_env_ok_def)
  moreover have "bid_refund demo_kept com_name bob = 0" "bid_refund demo_kept com_name alice = 1000000" "alice \<noteq> bob"
    by (simp_all add: bid_refund_def demo_kept_def eos_def example_defs)
  ultimately show ?thesis
    using bid_raises [OF demo_names_guarded demo_kept_core _ _ _ s'] s' by (auto simp: b_def)
qed

lemma demo_claim:
  "\<exists>s'. sys_transact (demo_sys_env [bob] demo_closing) (A_newaccount bob com_name) (new_limits com_name demo_closed) = Inr s'"
proof -
  have "case sys_transact (demo_sys_env [bob] demo_closing) (A_newaccount bob com_name) (new_limits com_name demo_closed) of
      Inl _ \<Rightarrow> False | Inr _ \<Rightarrow> True"
    by code_simp
  then show ?thesis by (auto split: sum.splits)
qed

theorem closed_auction_final_witness:
  "\<exists>s'. sys_transact (demo_sys_env [bob] demo_closing) (A_newaccount bob com_name) (new_limits com_name demo_closed) = Inr s' \<and>
    (case tfind com_name (namebids s') of None \<Rightarrow> True | Some b \<Rightarrow> high_bid b = -2000000)"
proof -
  define b where "b = \<lparr>high_bidder = bob, high_bid = -2000000, last_bid_time = 1577836800000000\<rparr>"
  obtain s' where s': "sys_transact (demo_sys_env [bob] demo_closing) (A_newaccount bob com_name) (new_limits com_name demo_closed) = Inr s'"
    using demo_claim by blast
  have "guarded names_account demo_closed"
    by (rule demo_closed_guarded) (simp add: account_defs example_defs)
  moreover have "core_symbol (new_limits com_name demo_closed) = Inr eos_symbol"
    using demo_kept_core by (simp add: new_limits_def demo_closed_def core_symbol_def)
  moreover have "tfind com_name (namebids (new_limits com_name demo_closed)) = Some b"
    by (simp add: new_limits_def demo_closed_def b_def)
  ultimately show ?thesis
    using closed_auction_final [OF guarded.account _ _ _ s', of eos_symbol com_name b] s' by (auto simp: b_def split: option.splits)
qed

end
