(* ===== verification/Ram_Custody.thy ===== *)
theory Ram_Custody
  imports Stake_Custody
begin

text \<open>
  The tokens paid for RAM, on \<open>eosio.ram\<close>. The contract counts them in \<open>total_ram_stake\<close>; the
  prices come out of doubles, and the market's connector holds tokens nobody ever paid in, so
  that a sale never pays out more than is there rests on the books alone.
\<close>

section \<open>Trades and the books\<close>

lemma convert_range: "asset_laws e \<Longrightarrow> convert e m from to = Inr (m', out) \<Longrightarrow> in_range out"
proof (induction e m "from" to rule: convert.induct)
  case (1 e m "from" to)
  obtain m1 out1 where step: "convert_step e m from to = Inr (m1, out1)"
    and rest: "(if to \<noteq> symbol out1 then convert e m1 out1 to else Inr (m1, out1)) = Inr (m', out)"
    using "1.prems"(2) by (auto simp: convert.simps [of e m "from" to] split: sum.splits)
  have "in_range out1"
    using step "1.prems"(1)
    by (auto simp: convert_step_def put_base_def put_quote_def convert_to_exchange_def convert_from_exchange_def
        Let_def asset_ctor_law in_range_def split: if_split_asm prod.splits)
  then show ?case using "1.IH" [OF step refl] "1.prems"(1) rest by (auto split: if_split_asm)
qed

lemma channel_to_rex_gain:
  "n \<noteq> p \<Longrightarrow> n \<noteq> rex_account \<Longrightarrow> gain n c (channel_to_rex e p q s) = gain n c s"
  by (auto simp: channel_to_rex_def send_transfer_def send_inline_def gain_def split: option.splits)

lemma update_ram_supply_kept:
  assumes "update_ram_supply e s = Inr s'"
  shows "total_ram_stake (gstate s') = total_ram_stake (gstate s)" "outbox s' = outbox s"
  using writes_unchanged [OF writes_update_ram_supply [OF assms], of Outbox] assms
  by (auto simp: update_ram_supply_def grow_market_def Let_def split: if_split_asm)

lemma buyram_effect:
  assumes a: "buyram e payer receiver quant s0 = Inr s'" and o: "outbox s0 = []"
    and pos: "list_all positive (outbox s')" and n: "\<not> has_auth e ram_account"
  shows "core_symbol s0 = Inr (symbol quant)"
    "total_ram_stake (gstate s') = i64 (total_ram_stake (gstate s0) + gain ram_account (sym_code (symbol quant)) s')"
    "0 \<le> gain ram_account (sym_code (symbol quant)) s'"
proof -
  define c where "c = sym_code (symbol quant)"
  obtain s where s: "update_ram_supply e s0 = Inr s" using a by (auto simp: buyram_def)
  define fee where "fee = set_amount (ram_fee (amount quant)) quant"
  define q where "q = add_amount (- amount fee) quant"
  define buy where "buy = send_transfer [payer, ram_account] payer ram_account q ''buy ram''"
  define s2 where "s2 = (if 0 < amount fee
      then channel_to_rex e ramfee_account fee
             (send_inline (send_transfer [payer] payer ramfee_account fee ''ram fee'') (send_inline buy s))
      else send_inline buy s)"
  have "has_auth e payer" and cs: "core_symbol s = Inr (symbol quant)"
    using a by (auto simp: buyram_def s)
  then have p: "payer \<noteq> ram_account" using n by auto
  show "core_symbol s0 = Inr (symbol quant)" using cs core_symbol_ram_supply [OF s] by simp
  have "ebind (convert_market e q ram_symbol (Check ''ram market does not exist'') s2) (\<lambda>(out, s3).
          check (0 < amount out) ''must reserve a positive amount''
          (credit_ram receiver (amount out)
             (s3\<lparr>gstate := (gstate s3)\<lparr>
                    total_ram_bytes_reserved := u64 (total_ram_bytes_reserved (gstate s3) + amount out),
                    total_ram_stake := i64 (total_ram_stake (gstate s3) + amount q)\<rparr>\<rparr>))) = Inr s'"
    using a
    unfolding buyram_def s cs ebind_simps Let_def fee_def [symmetric] q_def [symmetric]
      buy_def [symmetric] s2_def [symmetric] require_auth_eq_Inr check_eq_Inr
    by blast
  then obtain out s3 where conv: "convert_market e q ram_symbol (Check ''ram market does not exist'') s2 = Inr (out, s3)"
    and cred: "credit_ram receiver (amount out)
             (s3\<lparr>gstate := (gstate s3)\<lparr>
                    total_ram_bytes_reserved := u64 (total_ram_bytes_reserved (gstate s3) + amount out),
                    total_ram_stake := i64 (total_ram_stake (gstate s3) + amount q)\<rparr>\<rparr>) = Inr s'"
    by auto
  have v: "ram_view s2 = ram_view s" by (simp add: s2_def)
  have o3: "outbox s3 = outbox s2" "gstate s3 = gstate s2" using conv by (auto simp: convert_market_eq_Inr)
  have o': "outbox s' = outbox s2"
    using writes_unchanged [OF writes_credit_ram [OF cred], of Outbox] o3 by simp
  have st: "total_ram_stake (gstate s') = i64 (total_ram_stake (gstate s2) + amount q)"
    by (rule credit_ram_view [OF cred]) (simp add: o3)
  have "gain ram_account c s' = gain ram_account c s2" using o' by (rule gain_outbox)
  also have "\<dots> = max 0 (amount q)"
    using p o update_ram_supply_kept(2) [OF s]
    by (auto simp: s2_def channel_to_rex_gain account_defs buy_def send_transfer_def gain_empty c_def q_def)
  finally have g: "gain ram_account c s' = max 0 (amount q)" .
  have "buy \<in> set (outbox s')"
    by (auto simp: o' s2_def channel_to_rex_def send_inline_def split: option.splits)
  then have "0 < amount q" using pos by (auto simp: list_all_iff buy_def send_transfer_def)
  then show "total_ram_stake (gstate s') = i64 (total_ram_stake (gstate s0) + gain ram_account (sym_code (symbol quant)) s')"
    "0 \<le> gain ram_account (sym_code (symbol quant)) s'"
    using g st v update_ram_supply_kept(1) [OF s] by (simp_all add: c_def ram_view_split)
qed

text \<open>The payments of a sale: the price, then the fee out of it.\<close>

definition sale_payments :: "'z sys_env_scheme \<Rightarrow> name \<Rightarrow> symbol \<Rightarrow> asset \<Rightarrow> sys \<Rightarrow> sys res" where
  "sale_payments e n cs out s =
     (let s4 = send_inline (send_transfer [ram_account, n] ram_account n out ''sell ram'') s;
          fee = ram_fee (amount out)
      in if 0 < fee
         then ebind (new_asset e fee cs) (\<lambda>fee_asset.
              Inr (channel_to_rex e ramfee_account fee_asset
                 (send_inline (send_transfer [n] n ramfee_account fee_asset ''sell ram fee'') s4)))
         else Inr s4)"

lemma sellram_effect:
  assumes e: "asset_laws e" and a: "sellram e n b s0 = Inr s'" and o: "outbox s0 = []" and auth: "\<not> has_auth e ram_account"
    and inv: "ram_inv s0"
  obtains cs out s2 where "core_symbol s0 = Inr cs" "symbol out = cs" "1 < amount out" "in_range out"
    "total_ram_stake (gstate s') = i64 (total_ram_stake (gstate s0) - amount out)" "0 \<le> total_ram_stake (gstate s')"
    "gain ram_account (sym_code cs) s' = - amount out"
    "has_auth e n" "outbox s2 = []" "sale_payments e n cs out s2 = Inr s'"
proof -
  obtain s where s: "update_ram_supply e s0 = Inr s" using a by (auto simp: sellram_def)
  obtain r where r: "tfind n (userres s) = Some r" using a s by (auto simp: sellram_def split: option.splits)
  have n: "has_auth e n" "n \<noteq> ram_account" using a auth by (auto simp: sellram_def)
  obtain cs where cs: "core_symbol s = Inr cs" using a by (auto simp: sellram_def s r)
  have "ebind (convert_market e (mk_asset b ram_symbol) cs MissingRow s) (\<lambda>(out, s1).
      check (1 < amount out) ''token amount received from selling ram is too low''
      (check (0 \<le> i64 (total_ram_stake (gstate s1) - amount out))
         ''error, attempt to unstake more tokens than previously staked''
      (ebind (set_ram_limit n (i64 (ram_bytes r - b)) (s1\<lparr>gstate := (gstate s1)\<lparr>
            total_ram_bytes_reserved := u64 (total_ram_bytes_reserved (gstate s1) - b),
            total_ram_stake := i64 (total_ram_stake (gstate s1) - amount out)\<rparr>,
          userres := AList.update n (r\<lparr>ram_bytes := i64 (ram_bytes r - b)\<rparr>) (userres s1)\<rparr>)) (sale_payments e n cs out)))) = Inr s'"
    using a unfolding sellram_def s r cs ebind_simps option.case require_auth_eq_Inr check_eq_Inr ebind_eq_Inr
      new_asset_eq_Inr
    by (auto simp: sale_payments_def Let_def)
  then obtain out s1 s2 where conv: "convert_market e (mk_asset b ram_symbol) cs MissingRow s = Inr (out, s1)"
    and out: "1 < amount out" "0 \<le> i64 (total_ram_stake (gstate s1) - amount out)"
    and lim: "set_ram_limit n (i64 (ram_bytes r - b)) (s1\<lparr>gstate := (gstate s1)\<lparr>
            total_ram_bytes_reserved := u64 (total_ram_bytes_reserved (gstate s1) - b),
            total_ram_stake := i64 (total_ram_stake (gstate s1) - amount out)\<rparr>,
          userres := AList.update n (r\<lparr>ram_bytes := i64 (ram_bytes r - b)\<rparr>) (userres s1)\<rparr>) = Inr s2"
    and pay: "sale_payments e n cs out s2 = Inr s'"
    by auto
  obtain m m' where m: "tfind ramcore_symbol (rammarket s) = Some m" "convert e m (mk_asset b ram_symbol) cs = Inr (m', out)"
    and s1: "gstate s1 = gstate s" "outbox s1 = outbox s"
    using conv by (auto simp: convert_market_eq_Inr)
  have q: "symbol out = cs" "in_range out"
    using convert_sell(1) [OF core_symbol_market [OF cs ram_inv_update_ram_supply [OF inv s] m(1)] _ m(2)]
      convert_range [OF e m(2)] by simp_all
  have o2: "outbox s2 = []"
    using writes_unchanged [OF writes_set_ram_limit [OF lim], of Outbox] o s1 update_ram_supply_kept(2) [OF s] by simp
  have g: "gain ram_account (sym_code cs) s' = - amount out"
    using pay n(2) q(1) o2 by (auto simp: sale_payments_def Let_def channel_to_rex_gain account_defs send_transfer_def gain_empty split: if_split_asm)
  have v: "ram_view s' = ram_view s2" using pay by (auto simp: sale_payments_def Let_def split: if_split_asm)
  have "total_ram_stake (gstate s2) = i64 (total_ram_stake (gstate s) - amount out)"
    using ram_frame_set_ram_limit [OF lim] s1 by (simp add: ram_view_split)
  then show ?thesis
    using that [of cs out s2] cs core_symbol_ram_supply [OF s] out g v s1 q n(1) o2 pay update_ram_supply_kept(1) [OF s]
    by (simp add: ram_view_split)
qed


section \<open>The account covers it\<close>

definition ram_due :: "sys \<Rightarrow> int" where
  "ram_due s = total_ram_stake (gstate s)"

definition ram_due_ok :: "symbol \<Rightarrow> sys \<Rightarrow> bool" where
  "ram_due_ok cs s \<longleftrightarrow> 0 \<le> total_ram_stake (gstate s)"

lemma ram_due_frame:
  "total_ram_stake (gstate s') = total_ram_stake (gstate s) \<Longrightarrow>
     ram_due s' = ram_due s \<and> (ram_due_ok cs s' \<longleftrightarrow> ram_due_ok cs s)"
  by (simp add: ram_due_def ram_due_ok_def)

text \<open>Buying and selling aside, no action touches the count.\<close>

lemma ram_stake_kept:
  assumes "sys_apply e a s = Inr s'" "\<forall>p r q. a \<noteq> A_buyram p r q" "\<forall>p r b. a \<noteq> A_buyrambytes p r b"
    "\<forall>n b. a \<noteq> A_sellram n b"
  shows "total_ram_stake (gstate s') = total_ram_stake (gstate s)"
  using assms
  by (cases a)
    (auto simp: ram_view_split init_def setram_def setramrate_def grow_market_def send_inline_def
      dest!: ram_frame update_ram_supply_kept(1) split: option.splits)

interpretation ram_sales: custodian ram_account ram_due ram_due_ok
proof unfold_locales
  fix e :: sys_env and a s s' cs
  assume e: "sys_env_ok e" "\<not> has_auth e ram_account" and s': "sys_apply e a s = Inr s'"
    and c: "compatible cs s" and r: "sys_reachable s" and s: "ram_due_ok cs s" "ram_due s \<le> max_amount"
    and pos: "list_all positive (outbox s')" and le: "ram_due s + gain ram_account (sym_code cs) s' \<le> max_amount"
  have o: "outbox s = []" using token_inv_reachable [OF r] by simp
  have laws: "asset_laws e" using e(1) by (simp add: sys_env_ok_def)
  have cs: "core_symbol s = Inr x \<Longrightarrow> x = cs" for x using c by (simp add: compatible_def)
  let ?covers = "ram_due_ok cs s' \<and> ram_due s' \<le> ram_due s + gain ram_account (sym_code cs) s'"
  have buy: ?covers if "buyram e p n q s = Inr s'" for p n q
  proof -
    note b = buyram_effect [OF that o pos e(2)]
    have "symbol q = cs" using cs [OF b(1)] .
    then show ?thesis using b(2,3) s le i64_small by (simp add: ram_due_def ram_due_ok_def max_amount_def)
  qed
  have keep: ?covers if "\<forall>p r q. a \<noteq> A_buyram p r q" "\<forall>p r b. a \<noteq> A_buyrambytes p r b" "\<forall>n b. a \<noteq> A_sellram n b"
  proof -
    have "ram_account \<notin> authors e \<union> spends (self e) a"
      using that e by (cases a) (simp_all add: spends_def sys_env_ok_def account_defs)
    then show ?thesis
      using gain_kept [OF o keeps_apply [OF s'], of ram_account "sym_code cs"] s(1)
        ram_due_frame [OF ram_stake_kept [OF s' that], of cs] by simp
  qed
  show ?covers
  proof (cases a)
    case (A_buyram p n q)
    then show ?thesis using buy s' by simp
  next
    case (A_buyrambytes p n b)
    then show ?thesis using buy s' by (auto simp: buyrambytes_def split: option.splits)
  next
    case (A_sellram n b)
    then have a: "sellram e n b s = Inr s'" using s' by simp
    obtain c out s2 where "core_symbol s = Inr c" "symbol out = c" "1 < amount out" "in_range out"
      "total_ram_stake (gstate s') = i64 (total_ram_stake (gstate s) - amount out)" "0 \<le> total_ram_stake (gstate s')"
      "gain ram_account (sym_code c) s' = - amount out" "has_auth e n" "outbox s2 = []" "sale_payments e n c out s2 = Inr s'"
      using sellram_effect [OF laws a o e(2) ram_inv_reachable [OF r]] .
    moreover have "i64 (total_ram_stake (gstate s) - amount out) = total_ram_stake (gstate s) - amount out"
      if "in_range out" for out
      using that s by (intro i64_small) (simp add: ram_due_def ram_due_ok_def in_range_def max_amount_def)
    ultimately show ?thesis using cs [of c] by (simp add: ram_due_def ram_due_ok_def)
  qed (rule keep; simp)+
qed (simp_all add: ram_due_ok_def ram_due_def genesis_def default_global_state_def account_defs)

section \<open>Properties\<close>

text \<open>
  C14. The tokens paid for RAM are there. In every state a chain reaches while \<open>eosio.ram\<close> signs
  nothing itself, that account holds at least what the contract counts as paid for RAM, and the
  count is not negative: whatever prices the doubles yield, the sales never pay out more than
  the purchases paid in.
\<close>

theorem ram_stake_covered:
  assumes "guarded ram_account s" and "core_symbol s = Inr cs"
  shows "0 \<le> total_ram_stake (gstate s) \<and>
    total_ram_stake (gstate s) \<le> balance (tokens s) ram_account (sym_code cs)"
  using ram_sales.covered [OF assms(1), of cs] assms(2) by (simp add: compatible_def ram_due_def ram_due_ok_def)

lemma ram_fee_small:
  assumes "1 < x" "x \<le> max_amount"
  shows "0 < ram_fee x" "ram_fee x \<le> x"
proof -
  have "i64 (x + 199) = x + 199" using assms by (intro i64_small) (simp add: max_amount_def)
  then have "ram_fee x = (x + 199) div 200" using assms by (simp add: ram_fee_def tdiv_pos)
  then show "0 < ram_fee x" "ram_fee x \<le> x" using assms(1) by simp_all
qed

lemma channel_to_rex_outbox:
  "outbox (channel_to_rex e p q s) = outbox s \<or>
   outbox (channel_to_rex e p q s) = outbox s @
     [send_transfer [p] p rex_account q (''transfer from '' @ name_to_string e p @ '' to eosio.rex'')]"
  by (simp add: channel_to_rex_def send_inline_def split: option.splits)

text \<open>The payments of a sale are made, when the market's account holds the price.\<close>

lemma sale_paid:
  assumes e: "asset_laws e" "symbol_is_valid e cs" and t: "token_inv t" "has_token cs t"
    and acc: "is_account e n" "is_account e ramfee_account" "is_account e rex_account"
      "length (name_to_string e ramfee_account) \<le> 13"
    and n: "n \<noteq> ram_account" "n \<noteq> ramfee_account" "n \<noteq> rex_account"
    and out: "symbol out = cs" "1 < amount out" "in_range out" "amount out \<le> balance t ram_account (sym_code cs)"
    and s: "outbox s = []" "sale_payments e n cs out s = Inr s'"
  obtains t' where "run_inline e (outbox s') t = Inr t'"
    "balance t' n (sym_code cs) = balance t n (sym_code cs) + amount out - ram_fee (amount out)"
proof -
  define fee where "fee = mk_asset (ram_fee (amount out)) cs"
  define memo where "memo = ''transfer from '' @ name_to_string e ramfee_account @ '' to eosio.rex''"
  have fee: "0 < amount fee" "amount fee \<le> amount out" "symbol fee = cs" "amount fee = ram_fee (amount out)"
    using ram_fee_small [of "amount out"] out by (simp_all add: fee_def in_range_def)
  define p1 where "p1 = send_transfer [ram_account, n] ram_account n out ''sell ram''"
  define p2 where "p2 = send_transfer [n] n ramfee_account fee ''sell ram fee''"
  define p3 where "p3 = send_transfer [ramfee_account] ramfee_account rex_account fee memo"
  have o: "outbox s' = [p1, p2] \<or> outbox s' = [p1, p2, p3]"
    using s fee(1,4) channel_to_rex_outbox [of e ramfee_account fee "send_inline p2 (send_inline p1 s)"]
    by (auto simp: sale_payments_def Let_def p1_def p2_def p3_def memo_def fee_def send_inline_def)
  have in1: "ram_account \<in> set [ram_account, n]" and in2: "n \<in> set [n]" and in3: "ramfee_account \<in> set [ramfee_account]"
    and len1: "length ''sell ram'' \<le> 256" and len2: "length ''sell ram fee'' \<le> 256" and len3: "length memo \<le> 256"
    and pos: "0 < amount out" and ne: "ramfee_account \<noteq> rex_account"
    using acc(4) out(2) by (simp_all add: memo_def account_defs)
  obtain t1 where t1: "run_inline e [p1] t = Inr t1" "token_inv t1" "has_token cs t1"
    "balance t1 = ledger_add n (sym_code cs) (amount out) (ledger_add ram_account (sym_code cs) (- amount out) (balance t))"
    unfolding p1_def by (rule payout_ledger [OF e t out(1) pos out(4) in1 n(1) [symmetric] acc(1) len1])
  have nonneg: "0 \<le> balance t x c" if "token_inv t" for t x c
    using acc_amount_nonneg [OF that] by (simp add: balance_acc_amount)
  have b1: "balance t1 n (sym_code cs) = balance t n (sym_code cs) + amount out"
    using n t1(4) by (simp add: ledger_add_def)
  then have le1: "amount fee \<le> balance t1 n (sym_code cs)"
    using fee(2) nonneg [OF t(1), of n "sym_code cs"] by simp
  obtain t2 where t2: "run_inline e [p2] t1 = Inr t2" "token_inv t2" "has_token cs t2"
    "balance t2 = ledger_add ramfee_account (sym_code cs) (amount fee) (ledger_add n (sym_code cs) (- amount fee) (balance t1))"
    unfolding p2_def by (rule payout_ledger [OF e t1(2,3) fee(3,1) le1 in2 n(2) acc(2) len2])
  have b2: "balance t2 n (sym_code cs) = balance t n (sym_code cs) + amount out - ram_fee (amount out)"
    "amount fee \<le> balance t2 ramfee_account (sym_code cs)"
    using n t2(4) b1 fee(4) nonneg [OF t1(2), of ramfee_account "sym_code cs"] by (simp_all add: ledger_add_def)
  obtain t3 where t3: "run_inline e [p3] t2 = Inr t3"
    "balance t3 = ledger_add rex_account (sym_code cs) (amount fee) (ledger_add ramfee_account (sym_code cs) (- amount fee) (balance t2))"
    unfolding p3_def by (rule payout_ledger [OF e t2(2,3) fee(3,1) b2(2) in3 ne acc(3) len3])
  have "balance t3 n (sym_code cs) = balance t2 n (sym_code cs)" using n t3(2) by (simp add: ledger_add_def)
  moreover have "run_inline e [p1, p2] t = Inr t2"
    using t1(1) t2(1) run_inline_Cons [of e p1 "[p2]" t] by simp
  moreover have "run_inline e [p1, p2, p3] t = Inr t3"
    using t1(1) t2(1) t3(1) run_inline_Cons [of e p1 "[p2, p3]" t] run_inline_Cons [of e p2 "[p3]" t1] by simp
  ultimately show ?thesis using that o b2(1) by metis
qed

text \<open>A sale touches the seller's limits only, so the chain checks no other account.\<close>

lemma limits_kept: "writes F s s' \<Longrightarrow> Limits \<notin> F \<Longrightarrow> limits s' = limits s"
  using writes_unchanged [of F s s' Limits] by simp

lemma set_ram_limit_other:
  "set_ram_limit n b s = Inr s' \<Longrightarrow> m \<noteq> n \<Longrightarrow> tfind m (limits s') = tfind m (limits s)"
  by (auto simp: set_ram_limit_def set_limits_eq_Inr update_conv' split: if_split_asm)

lemma sellram_limits:
  assumes "sellram e n b s = Inr s'" "m \<noteq> n"
  shows "tfind m (limits s') = tfind m (limits s)"
proof -
  have l: "limits (send_inline i x) = limits x" "limits (channel_to_rex e p q x) = limits x" for i x p q
    by (simp_all add: send_inline_def channel_to_rex_def split: option.splits)
  show ?thesis
    using assms
    by (auto simp: sellram_def Let_def l split: option.splits if_split_asm
        dest!: writes_update_ram_supply [THEN limits_kept, simplified] writes_convert_market [THEN limits_kept, simplified]
          set_ram_limit_other [where m = m])
qed

text \<open>
  C15. A sale of RAM that the contract accepts is paid. The action has succeeded, at whatever
  price; the transaction then fails only if the chain finds that the seller, whose RAM limit has
  gone down, no longer fits in it. Otherwise \<open>eosio.ram\<close> has the tokens, the transaction
  succeeds, the seller receives the price less the fee of half a percent, and the tokens counted
  for RAM go down by the price. This holds for every seller but \<open>eosio.ramfee\<close>, whose fee
  would be a transfer to itself, on a chain on which \<open>eosio.ram\<close> and \<open>eosio.rex\<close> sign
  nothing themselves and the accounts that are paid exist.
\<close>

theorem ram_sale_pays:
  assumes "guarded ram_account s" and "core_symbol s = Inr cs" and "sys_apply e (A_sellram n b) s = Inr s1"
    and "sys_env_ok e" "symbol_is_valid e cs" "not_signed_by_rex e" "\<not> has_auth e ram_account"
    and "is_account e n" "is_account e ramfee_account" "is_account e rex_account" "n \<noteq> ramfee_account"
    and "length (name_to_string e ramfee_account) \<le> 13"
  shows "if lowered n (limits s) (limits s1) \<and> ram_limit n (limits s1) < ram_usage e n
    then sys_transact e (A_sellram n b) s = Inl HostError
    else \<exists>price s'. sys_transact e (A_sellram n b) s = Inr s' \<and> 1 < price \<and>
      total_ram_stake (gstate s') = total_ram_stake (gstate s) - price \<and>
      balance (tokens s') n (sym_code cs) = balance (tokens s) n (sym_code cs) + price - ram_fee price"
proof -
  note r = guarded_reachable [OF assms(1)]
  note inv = token_inv_reachable [OF r]
  have laws: "asset_laws e" using assms(4) by (simp add: sys_env_ok_def)
  have cov: "0 \<le> total_ram_stake (gstate s)" "total_ram_stake (gstate s) \<le> balance (tokens s) ram_account (sym_code cs)"
    using ram_sales.covered [OF assms(1), of cs] assms(2) by (simp_all add: compatible_def ram_due_def ram_due_ok_def)
  have le: "balance (tokens s) ram_account (sym_code cs) \<le> max_amount"
    using balance_le_max [of "tokens s" ram_account "sym_code cs"] stat_facts [of "tokens s" "sym_code cs"] inv
    by (fastforce simp: max_amount_def split: option.splits)
  obtain out s2 where out: "symbol out = cs" "1 < amount out" "in_range out" and n: "has_auth e n"
    and st: "total_ram_stake (gstate s1) = i64 (total_ram_stake (gstate s) - amount out)" "0 \<le> total_ram_stake (gstate s1)"
    and pay: "outbox s2 = []" "sale_payments e n cs out s2 = Inr s1"
    using sellram_effect [OF laws _ _ assms(7) ram_inv_reachable [OF r], of n b s1] assms(2,3) inv by (metis Inr_inject sys_apply.simps(38))
  have "i64 (total_ram_stake (gstate s) - amount out) = total_ram_stake (gstate s) - amount out"
    using out(2,3) cov le by (intro i64_small) (simp add: in_range_def max_amount_def)
  then have st': "total_ram_stake (gstate s1) = total_ram_stake (gstate s) - amount out"
    "amount out \<le> balance (tokens s) ram_account (sym_code cs)"
    using st cov by simp_all
  have ne: "n \<noteq> ram_account" "n \<noteq> rex_account" using n assms(6,7) by (auto simp: not_signed_by_rex_def)
  obtain t where t: "run_inline e (outbox s1) (tokens s) = Inr t"
    "balance t n (sym_code cs) = balance (tokens s) n (sym_code cs) + amount out - ram_fee (amount out)"
    using sale_paid [OF laws assms(5) _ core_token [OF r assms(2)] assms(8-10,12) ne(1) assms(11) ne(2) out st'(2) pay] inv by blast
  have "s\<lparr>outbox := []\<rparr> = s" using inv by simp
  then have run: "sys_transact e (A_sellram n b) s =
      guard (ram_suffices e (limits s) (limits s1)) HostError (Inr (s1\<lparr>tokens := t, outbox := []\<rparr>))"
    using assms(3) tokens_apply [OF assms(3)] t(1) by (simp add: sys_transact_def)
  have "ram_suffices e (limits s) (limits s1) \<longleftrightarrow>
      (lowered n (limits s) (limits s1) \<longrightarrow> ram_usage e n \<le> ram_limit n (limits s1))"
    by (rule ram_suffices_one) (use assms(3) in \<open>auto intro: sellram_limits\<close>)
  then show ?thesis
    unfolding run using t(2) out(2) st'(1)
    by (auto intro!: exI [of _ "amount out"] exI [of _ "s1\<lparr>tokens := t, outbox := []\<rparr>"])
qed

theorem ram_stake_covered_witness:
  "total_ram_stake (gstate demo_kept) = 99500 \<and> 99500 \<le> balance (tokens demo_kept) ram_account 5459781"
  using ram_stake_covered [OF demo_kept_guarded demo_kept_core]
  by (simp add: eos_symbol_def account_defs example_defs) (simp add: demo_kept_def)

theorem ram_sale_pays_witness:
  "\<exists>price s'. sys_transact (demo_sys_env [alice] demo_later) (A_sellram alice 600000) demo_kept = Inr s' \<and> 1 < price \<and>
     total_ram_stake (gstate s') = 99500 - price \<and>
     balance (tokens s') alice 5459781 = balance (tokens demo_kept) alice 5459781 + price - ram_fee price"
proof -
  let ?e = "demo_sys_env [alice] demo_later"
  have "case sys_apply ?e (A_sellram alice 600000) demo_kept of Inl _ \<Rightarrow> False | Inr _ \<Rightarrow> True"
    by code_simp
  then obtain s1 where s1: "sys_apply ?e (A_sellram alice 600000) demo_kept = Inr s1"
    by (auto split: sum.splits)
  have e: "symbol_is_valid ?e eos_symbol" "is_account ?e alice" "is_account ?e ramfee_account" "is_account ?e rex_account"
    "length (name_to_string ?e ramfee_account) \<le> 13"
    by (simp_all add: demo_sys_env_def env.defs ref_env_def eos_symbol_def)
  have g: "guarded ram_account demo_kept" by (rule demo_kept_guarded) (simp add: account_defs example_defs)
  have n: "not_signed_by_rex ?e" "\<not> has_auth ?e ram_account" "alice \<noteq> ramfee_account"
    by (simp_all add: not_signed_by_rex_demo account_defs example_defs)
  have "ram_usage ?e alice \<le> ram_limit alice (limits s1) \<or> \<not> lowered alice (limits demo_kept) (limits s1)"
    by (auto simp: lowered_def demo_sys_env_def env.defs sys_env.defs ref_env_def)
  with ram_sale_pays [OF g demo_kept_core s1 sys_env_ok_demo e(1) n(1,2) e(2-4) n(3) e(5)] show ?thesis
    by (auto simp: eos_symbol_def demo_kept_def split: if_split_asm)
qed

end
