(* ===== verification/Producer_Service.thy ===== *)
theory Producer_Service
  imports Claims Footprint "HOL-Library.Multiset"
begin

text \<open>
  What producers are promised: who is elected, what inflation is shared out, and that a producer
  claims at most once a day.
\<close>

section \<open>Elections\<close>

lemma takeWhile_sorted_filter:
  fixes f :: "'a \<Rightarrow> 'b::linorder"
  assumes "sorted (map f xs)" "\<And>x y. x \<in> set xs \<Longrightarrow> y \<in> set xs \<Longrightarrow> P x \<Longrightarrow> \<not> P y \<Longrightarrow> f x < f y"
  shows "takeWhile P xs = filter P xs"
  using assms
proof (induction xs)
  case (Cons a xs)
  show ?case
  proof (cases "P a")
    case True
    then show ?thesis using Cons.IH Cons.prems by simp
  next
    case False
    then have "\<not> P y" if "y \<in> set xs" for y
      using Cons.prems(1) Cons.prems(2) [of y a] that by fastforce
    with False show ?thesis by (simp add: filter_empty_conv)
  qed
qed simp

text \<open>
  Votes that an election can compare: finite, and not negative for a producer that is inactive.
  The contract does not ensure the second: \<open>update_votes\<close> cuts off negative totals, which
  rounding can produce, but \<open>propagate_weight_change\<close> does not.
\<close>

definition votes_ok :: "sys \<Rightarrow> bool" where
  "votes_ok s \<longleftrightarrow> twf (producers s) \<and> (\<forall>n p. tfind n (producers s) = Some p \<longrightarrow> 
     (\<exists>v. total_votes p = Fin v \<and> (is_active p \<or> 0 \<le> v)))"

definition electable :: "producer_info \<Rightarrow> bool" where
  "electable p \<longleftrightarrow> 0 < total_votes p \<and> is_active p"

definition election_key :: "name \<times> producer_info \<Rightarrow> (int \<times> rat) \<times> name" where
  "election_key = (\<lambda>(n, p). (double_key (by_votes p), n))"

definition candidates :: "sys \<Rightarrow> (name \<times> producer_info) list" where
  "candidates s = filter (\<lambda>(n, p). electable p) (tindex (\<lambda>p. double_key (by_votes p)) (producers s))"

lemma candidates_set:
  assumes "votes_ok s"
  shows "(n, p) \<in> set (candidates s) \<longleftrightarrow> tfind n (producers s) = Some p \<and> electable p"
  using assms by (simp add: candidates_def tindex_def votes_ok_def twf_def)

lemma sorted_index: "sorted (map election_key (tindex (\<lambda>p. double_key (by_votes p)) (producers s)))"
proof -
  have "sorted (map (\<lambda>(k, v). (double_key (by_votes v), k)) (tindex (\<lambda>p. double_key (by_votes p)) (producers s)))"
    unfolding tindex_def by (rule sorted_sort_key)
  then show ?thesis by (simp only: election_key_def)
qed

lemma top_producers_candidates:
  assumes "votes_ok s"
  shows "top_producers s = take 21 (candidates s)" "sorted (map election_key (candidates s))"
proof -
  define xs where "xs = tindex (\<lambda>p. double_key (by_votes p)) (producers s)"
  have votes: "\<exists>v. total_votes p = Fin v \<and> (is_active p \<or> 0 \<le> v)" if "(n, p) \<in> set xs" for n p
    using assms that by (auto simp: xs_def tindex_def votes_ok_def twf_def)
  have "election_key x < election_key y"
    if "x \<in> set xs" "y \<in> set xs" "(case x of (n, p) \<Rightarrow> electable p)" "\<not> (case y of (n, p) \<Rightarrow> electable p)" for x y
  proof -
    note xs = that
    obtain n p m q where xy: "x = (n, p)" "y = (m, q)" by (cases x, cases y)
    obtain v w where "total_votes p = Fin v" "total_votes q = Fin w" "is_active p \<or> 0 \<le> v" "is_active q \<or> 0 \<le> w"
      using votes xs(1,2) by (metis xy)
    then show ?thesis
      using xs(3,4) by (auto simp: xy election_key_def electable_def by_votes_def double_defs less_prod_def split: if_split_asm)
  qed
  then have t: "takeWhile (\<lambda>(n, p). electable p) xs = filter (\<lambda>(n, p). electable p) xs"
    using sorted_index [of s] by (intro takeWhile_sorted_filter [of election_key]) (auto simp: xs_def)
  then show "top_producers s = take 21 (candidates s)"
    unfolding top_producers_def candidates_def electable_def xs_def by simp
  show "sorted (map election_key (candidates s))"
    unfolding candidates_def by (rule sorted_filter) (rule sorted_index)
qed

text \<open>
  C21. Who is elected, provided that the table has one row per producer, as a table does, that all
  vote totals are finite numbers, and that the total of no inactive producer is negative. At most 21 producers are scheduled, each of them active with votes, in the
  order of their names and none twice; an active producer with votes who is left out has no more
  votes than any of the elected, who are then exactly 21. Without the proviso the election can
  stop early: in the index an inactive producer with a negative total comes before active ones
  with fewer votes, who are then not elected.
\<close>

theorem elected_schedule:
  assumes "votes_ok s"
  shows "length (top_producers s) \<le> 21 \<and>
    (\<forall>(n, p)\<in>set (top_producers s). tfind n (producers s) = Some p \<and> is_active p \<and> 0 < total_votes p) \<and>
    (\<forall>n p. tfind n (producers s) = Some p \<and> is_active p \<and> 0 < total_votes p \<and> (n, p) \<notin> set (top_producers s) \<longrightarrow>
       length (top_producers s) = 21 \<and> (\<forall>(m, q)\<in>set (top_producers s). total_votes p \<le> total_votes q)) \<and>
    map fst (schedule_of (top_producers s)) = sort (map fst (top_producers s)) \<and>
    distinct (map fst (schedule_of (top_producers s)))"
proof (intro conjI allI impI)
  note t = top_producers_candidates [OF assms]
  show "length (top_producers s) \<le> 21" by (simp add: t)
  show sound: "\<forall>(n, p)\<in>set (top_producers s). tfind n (producers s) = Some p \<and> is_active p \<and> 0 < total_votes p"
    using candidates_set [OF assms] by (auto simp: t electable_def dest!: in_set_takeD)
  show m: "map fst (schedule_of (top_producers s)) = sort (map fst (top_producers s))"
  proof -
    have "map fst (schedule_of xs) = map fst (sort_key fst xs)" for xs
      by (simp add: schedule_of_def comp_def case_prod_beta)
    moreover have "map fst (sort_key fst xs) = sort (map fst xs)" for xs :: "(name \<times> producer_info) list"
      by (rule sym, rule properties_for_sort) simp_all
    ultimately show ?thesis by simp
  qed
  have "distinct (map fst (top_producers s))"
  proof -
    have "distinct (map fst (tindex (\<lambda>p. double_key (by_votes p)) (producers s)))"
    proof -
      have "mset (map fst (tindex (\<lambda>p. double_key (by_votes p)) (producers s))) = mset (map fst (producers s))"
        by (simp add: tindex_def)
      from mset_eq_imp_distinct_iff [OF this] show ?thesis using assms by (simp add: votes_ok_def twf_def)
    qed
    then show ?thesis
      unfolding t(1) candidates_def by (simp add: distinct_map_filter take_map [symmetric])
  qed
  then show "distinct (map fst (schedule_of (top_producers s)))" by (simp add: m)
  fix n p assume out: "tfind n (producers s) = Some p \<and> is_active p \<and> 0 < total_votes p \<and> (n, p) \<notin> set (top_producers s)"
  then have "(n, p) \<in> set (candidates s)" using candidates_set [OF assms] by (simp add: electable_def)
  then have drop: "(n, p) \<in> set (drop 21 (candidates s))"
    using out append_take_drop_id [of 21 "candidates s"] t(1) by (metis Un_iff set_append)
  then show "length (top_producers s) = 21" by (cases "length (candidates s) \<le> 21") (simp_all add: t)
  show "\<forall>(m, q)\<in>set (top_producers s). total_votes p \<le> total_votes q"
  proof clarify
    fix m q assume q: "(m, q) \<in> set (top_producers s)"
    have "sorted (map election_key (take 21 (candidates s)) @ map election_key (drop 21 (candidates s)))"
      using t(2) by (simp flip: map_append)
    then have le: "election_key (m, q) \<le> election_key (n, p)"
      using q drop unfolding sorted_append t(1) set_map by blast
    have "tfind m (producers s) = Some q" using q sound by auto
    then obtain v w where v: "total_votes p = Fin v" "total_votes q = Fin w"
      using assms out unfolding votes_ok_def by metis
    moreover have "is_active p" "is_active q" using out q sound by auto
    ultimately show "total_votes p \<le> total_votes q"
      using le by (auto simp: election_key_def by_votes_def double_defs less_eq_prod_def less_prod_def)
  qed
qed

text \<open>
  C40. Why negative totals matter. An inactive producer whose total of votes has become negative
  hides active ones: nobody with fewer votes than its absolute value is elected, however few
  producers there are. \<open>update_votes\<close> cuts off such totals, which rounding can produce;
  \<open>propagate_weight_change\<close> lets them stand.
\<close>

theorem negative_total_hides:
  assumes "tfind m (producers s) = Some q" "\<not> is_active q" "total_votes q = Fin v" "v < 0"
    and "(n, p) \<in> set (top_producers s)"
  shows "Fin (- v) \<le> total_votes p"
proof -
  define xs where "xs = tindex (\<lambda>p. double_key (by_votes p)) (producers s)"
  define good where "good = (\<lambda>(n :: name, p). electable p)"
  have "top_producers s = take 21 (takeWhile good xs)"
    unfolding top_producers_def good_def electable_def xs_def by simp
  then have p: "(n, p) \<in> set (takeWhile good xs)" using assms(5) by (auto dest: in_set_takeD)
  have "(m, q) \<in> set xs" using map_of_SomeD [OF assms(1)] by (simp add: xs_def tindex_def)
  moreover have "(m, q) \<notin> set (takeWhile good xs)"
    using assms(2) by (auto simp: good_def electable_def dest: set_takeWhileD)
  ultimately have q: "(m, q) \<in> set (dropWhile good xs)"
    by (metis Un_iff set_append takeWhile_dropWhile_id)
  have "sorted (map election_key (takeWhile good xs) @ map election_key (dropWhile good xs))"
    using sorted_index [of s] by (simp add: xs_def flip: map_append)
  then have "election_key (n, p) \<le> election_key (m, q)"
    using p q unfolding sorted_append set_map by blast
  moreover have "electable p" using set_takeWhileD [OF p] by (simp add: good_def)
  ultimately show ?thesis
    using assms(2-4)
    by (cases "total_votes p") (auto simp: election_key_def electable_def by_votes_def double_defs less_eq_prod_def less_prod_def)
qed

section \<open>Inflation\<close>

lemma split_inflation_parts:
  assumes "0 \<le> new" "new < 2 ^ 63"
  shows "to_savings (split_inflation new) = new - new div 5"
    "to_per_block_pay (split_inflation new) = new div 5 div 4"
    "to_per_vote_pay (split_inflation new) = new div 5 - new div 5 div 4"
proof -
  have "tdiv new 5 = new div 5" "tdiv (new div 5) 4 = new div 5 div 4" using assms by (simp_all add: tdiv_pos)
  moreover have "i64 (new - new div 5) = new - new div 5" using assms by (intro i64_id) auto
  moreover have "i64 (new div 5 - new div 5 div 4) = new div 5 - new div 5 div 4" using assms by (intro i64_id) auto
  ultimately show "to_savings (split_inflation new) = new - new div 5"
    "to_per_block_pay (split_inflation new) = new div 5 div 4"
    "to_per_vote_pay (split_inflation new) = new div 5 - new div 5 div 4"
    by (simp_all add: split_inflation_def Let_def)
qed

text \<open>
  C22. New tokens are shared out completely. When the buckets are filled, the tokens issued for the
  time that passed go to the savings account, the per-block and the per-vote bucket, to the last
  unit: at least four fifths are saved, a quarter of the rest pays blocks and what remains pays
  votes. The system account that issues them keeps none, and the two buckets' books grow by what
  their accounts receive.
\<close>

theorem inflation_distributed:
  assumes "asset_laws e" and "fill_buckets e cs token_supply s = Inr s'"
    and "0 < i64 (current_time e - last_pervote_bucket_fill (gstate s))" "0 < last_pervote_bucket_fill (gstate s)"
    and "inflation token_supply (i64 (current_time e - last_pervote_bucket_fill (gstate s))) = Inr new" "0 \<le> new"
    and "self e = eosio_account"
  shows "\<exists>xs saved block vote. outbox s' = outbox s @ xs \<and> saved + block + vote = new \<and>
    5 * saved \<ge> 4 * new \<and> 0 \<le> block \<and> block = (new - saved) div 4 \<and> 0 \<le> vote \<and>
    (\<Sum>a\<leftarrow>xs. inline_flow (sym_code cs) a saving_account) = saved \<and>
    (\<Sum>a\<leftarrow>xs. inline_flow (sym_code cs) a bpay_account) = block \<and>
    (\<Sum>a\<leftarrow>xs. inline_flow (sym_code cs) a vpay_account) = vote \<and>
    (\<Sum>a\<leftarrow>xs. inline_flow (sym_code cs) a eosio_account) = 0 \<and>
    pervote_bucket (gstate s') = i64 (pervote_bucket (gstate s) + vote) \<and>
    perblock_bucket (gstate s') = i64 (perblock_bucket (gstate s) + block) \<and>
    last_pervote_bucket_fill (gstate s') = current_time e"
proof -
  define sp where "sp = split_inflation new"
  obtain s1 where s1: "send_inflation e cs new s = Inr s1"
    and s': "s' = s1\<lparr>gstate := (gstate s)\<lparr>pervote_bucket := i64 (pervote_bucket (gstate s) + to_per_vote_pay sp),
      perblock_bucket := i64 (perblock_bucket (gstate s) + to_per_block_pay sp),
      last_pervote_bucket_fill := current_time e\<rparr>\<rparr>"
    using assms(2-5) by (auto simp: fill_buckets_def Let_def sp_def)
  have new: "new \<le> max_amount" using s1 assms(1) by (auto simp: send_inflation_def Let_def asset_ctor_law)
  define xs where "xs =
     [TokenAction [PermissionLevel eosio_account active_permission]
        (Issue eosio_account (mk_asset new cs) ''issue tokens for producer pay and savings''),
      send_transfer [eosio_account] eosio_account saving_account (mk_asset (to_savings sp) cs) ''unallocated inflation'',
      send_transfer [eosio_account] eosio_account bpay_account (mk_asset (to_per_block_pay sp) cs) ''fund per-block bucket'',
      send_transfer [eosio_account] eosio_account vpay_account (mk_asset (to_per_vote_pay sp) cs) ''fund per-vote bucket'']"
  have out: "outbox s' = outbox s @ xs"
    using s1 assms(7) by (auto simp: s' send_inflation_def Let_def send_inline_def xs_def sp_def)
  note parts = split_inflation_parts [of new, folded sp_def]
  have small: "new < 2 ^ 63" using new by (simp add: max_amount_def)
  have sum: "to_savings sp + to_per_block_pay sp + to_per_vote_pay sp = new" and "5 * to_savings sp \<ge> 4 * new"
    "0 \<le> to_per_block_pay sp" "to_per_block_pay sp = (new - to_savings sp) div 4" "0 \<le> to_per_vote_pay sp"
    using parts [OF assms(6) small] assms(6) by auto
  moreover have "(\<Sum>a\<leftarrow>xs. inline_flow (sym_code cs) a saving_account) = to_savings sp"
    "(\<Sum>a\<leftarrow>xs. inline_flow (sym_code cs) a bpay_account) = to_per_block_pay sp"
    "(\<Sum>a\<leftarrow>xs. inline_flow (sym_code cs) a vpay_account) = to_per_vote_pay sp"
    "(\<Sum>a\<leftarrow>xs. inline_flow (sym_code cs) a eosio_account) = 0"
    using sum by (simp_all add: xs_def send_transfer_def account_defs)
  ultimately show ?thesis
    using out by (intro exI [of _ xs] exI [of _ "to_savings sp"] exI [of _ "to_per_block_pay sp"] exI [of _ "to_per_vote_pay sp"])
      (simp add: s')
qed

section \<open>Claims\<close>

lemma pay_producer_fields:
  "pay_producer e bucket n x memo cs s = Inr s' \<Longrightarrow> producers s' = producers s \<and> gstate s' = gstate s"
  using writes_unchanged [OF writes_pay_producer, of e bucket n x memo cs s s' Producers]
    writes_unchanged [OF writes_pay_producer, of e bucket n x memo cs s s' Gstate] by simp

lemma share_fields [simp]:
  "producers (snd (update_total_votepay_share ct a b s)) = producers s"
  "gstate (snd (update_total_votepay_share ct a b s)) = gstate s"
  by (simp_all add: update_total_votepay_share_def Let_def)

lemma claim_fields:
  assumes "claimrewards e n s = Inr s'"
  obtains p where "tfind n (producers s) = Some p" "is_active p"
    "producers s' = AList.update n (p\<lparr>last_claim_time := current_time e, unpaid_blocks := 0\<rparr>) (producers s)"
    "total_activated_stake (gstate s') = total_activated_stake (gstate s)"
    "total_unpaid_blocks (gstate s') = u32 (total_unpaid_blocks (gstate s) - unpaid_blocks p)"
    "min_activated_stake \<le> total_activated_stake (gstate s)"
proof (rule claimrewards_parts [OF assms])
  fix p cs q s1 updated share p2 pay s2 s3
  assume p: "tfind n (producers s) = Some p" "is_active p" "min_activated_stake \<le> total_activated_stake (gstate s)"
    and f: "fill_buckets e cs (amount q) s = Inr s1"
    and v: "per_vote_share (current_time e) p share (i64 (last_claim_time p + 3 * useconds_per_day) \<le> current_time e)
       (s1\<lparr>producers2 := AList.update n p2 (producers2 s1)\<rparr>) = Inr (pay, s2)"
    and b: "pay_producer e bpay_account n (per_block_pay (gstate s1) p) ''producer block pay'' cs
       (book_claim (current_time e) n p updated share (if pay < min_pervote_daily_pay then 0 else pay)
         (per_block_pay (gstate s1) p) s2) = Inr s3"
    and c: "pay_producer e vpay_account n (if pay < min_pervote_daily_pay then 0 else pay) ''producer vote pay'' cs s3 = Inr s'"
  have 1: "producers s1 = producers s" "total_activated_stake (gstate s1) = total_activated_stake (gstate s)"
    "total_unpaid_blocks (gstate s1) = total_unpaid_blocks (gstate s)"
    using f by (auto simp: fill_buckets_def send_inflation_def Let_def send_inline_def split: if_split_asm)
  have 2: "producers s2 = producers s1" "gstate s2 = gstate s1"
    using v by (auto simp: per_vote_share_def case_prod_beta split: if_split_asm)
  show thesis
    by (rule that [OF p(1,2)])
      (use 1 2 p(3) pay_producer_fields [OF b] pay_producer_fields [OF c] in \<open>simp_all add: book_claim_def Let_def\<close>)
qed

text \<open>
  C23. A producer that has just claimed cannot claim again within a day: a second claim fails, and
  fails with exactly the error the contract has for it, whatever the claim paid out and whoever
  calls it with the producer's authority.
\<close>

theorem claim_twice_fails:
  assumes "claimrewards e n s = Inr s'" and "has_auth e' n"
    and "current_time e \<le> current_time e'" "current_time e' \<le> current_time e + useconds_per_day"
  shows "claimrewards e' n s' = Inl (Check ''already claimed rewards within past day'')"
proof -
  obtain p where p: "tfind n (producers s') = Some (p\<lparr>last_claim_time := current_time e, unpaid_blocks := 0\<rparr>)" "is_active p"
    "min_activated_stake \<le> total_activated_stake (gstate s')"
    by (rule claim_fields [OF assms(1)]) simp
  have "i64 (current_time e' - current_time e) = current_time e' - current_time e"
    using assms(3,4) by (intro i64_id) (simp_all add: useconds_per_day_def)
  then have "\<not> useconds_per_day < i64 (current_time e' - current_time e)" using assms(4) by simp
  then show ?thesis using p assms(2) by (simp add: claimrewards_def)
qed

section \<open>Examples\<close>

text \<open>An activated chain with two producers.\<close>

definition demo_producer :: "int \<Rightarrow> producer_info" where
  "demo_producer votes = \<lparr>total_votes = Fin (of_int votes), producer_key = 1, is_active = True, url = [],
     unpaid_blocks = 600, last_claim_time = 1577000000000000, location = 0\<rparr>"

definition demo_paying :: sys where
  "demo_paying = demo_ready\<lparr>
     gstate := (gstate demo_ready)\<lparr>last_pervote_bucket_fill := 1577836800000000, total_activated_stake := 2000000000000,
       total_unpaid_blocks := 1200, perblock_bucket := 1000000\<rparr>,
     producers := [(bob, demo_producer 5), (alice, demo_producer 7)]\<rparr>"

definition demo_payday :: int where "demo_payday = 1577923200000000"

theorem elected_schedule_witness:
  "map fst (top_producers demo_paying) = [alice, bob] \<and>
    map fst (schedule_of (top_producers demo_paying)) = sort [alice, bob]"
proof -
  have "votes_ok demo_paying"
    by (auto simp: votes_ok_def demo_paying_def demo_producer_def example_defs)
  moreover have "map fst (top_producers demo_paying) = [alice, bob]" by code_simp
  ultimately show ?thesis using elected_schedule [of demo_paying] by simp
qed

text \<open>Bob is inactive with - 5 votes: alice with 7 is elected, the third producer with 3 is not.\<close>

definition demo_hidden :: sys where
  "demo_hidden = demo_paying\<lparr>producers := [(bob, (demo_producer (- 5))\<lparr>is_active := False\<rparr>),
     (alice, demo_producer 7), (stake_account, demo_producer 3)]\<rparr>"

theorem negative_total_hides_witness:
  "top_producers demo_hidden = [(alice, demo_producer 7)] \<and> Fin (- (- 5)) \<le> total_votes (demo_producer 7)"
proof -
  have top: "top_producers demo_hidden = [(alice, demo_producer 7)]" by code_simp
  have "tfind bob (producers demo_hidden) = Some ((demo_producer (- 5))\<lparr>is_active := False\<rparr>)"
    by (simp add: demo_hidden_def)
  from negative_total_hides [OF this, of "- 5" alice "demo_producer 7"] top show ?thesis
    by (simp add: demo_producer_def)
qed

lemma demo_env_laws: "asset_laws (demo_sys_env signers t)" "self (demo_sys_env signers t) = eosio_account"
  using sys_env_ok_demo by (simp_all add: sys_env_ok_def)

lemma demo_fill:
  "\<exists>s'. fill_buckets (demo_sys_env [alice] demo_payday) eos_symbol 10000000000000 demo_paying = Inr s'"
proof -
  have "case fill_buckets (demo_sys_env [alice] demo_payday) eos_symbol 10000000000000 demo_paying of Inl _ \<Rightarrow> False | Inr _ \<Rightarrow> True"
    by code_simp
  then show ?thesis by (auto split: sum.splits)
qed

lemma demo_inflation: "inflation 10000000000000 86400000000 = Inr 1340384615"
  by code_simp

theorem inflation_distributed_witness:
  "\<exists>s' saved block vote. fill_buckets (demo_sys_env [alice] demo_payday) eos_symbol 10000000000000 demo_paying = Inr s' \<and>
    saved + block + vote = 1340384615 \<and> perblock_bucket (gstate s') = i64 (1000000 + block) \<and>
    pervote_bucket (gstate s') = i64 vote \<and> 5 * saved \<ge> 4 * 1340384615"
proof -
  let ?e = "demo_sys_env [alice] demo_payday"
  obtain s' where s': "fill_buckets ?e eos_symbol 10000000000000 demo_paying = Inr s'" using demo_fill by blast
  have g: "last_pervote_bucket_fill (gstate demo_paying) = 1577836800000000" "pervote_bucket (gstate demo_paying) = 0"
    "perblock_bucket (gstate demo_paying) = 1000000"
    by (simp_all add: demo_paying_def demo_ready_def demo_genesis_def genesis_def default_global_state_def)
  have t: "i64 (current_time ?e - last_pervote_bucket_fill (gstate demo_paying)) = 86400000000"
    by (simp add: g i64_small) (simp add: demo_sys_env_def env.defs ref_env_def demo_payday_def i64_small)
  show ?thesis
    using inflation_distributed [OF demo_env_laws(1) s', unfolded t] g demo_inflation s'
    by (auto simp: demo_env_laws)
qed

lemma demo_first_claim:
  "\<exists>s'. claimrewards (demo_sys_env [alice] demo_payday) alice demo_paying = Inr s'"
proof -
  have "case claimrewards (demo_sys_env [alice] demo_payday) alice demo_paying of Inl _ \<Rightarrow> False | Inr _ \<Rightarrow> True"
    by code_simp
  then show ?thesis by (auto split: sum.splits)
qed

theorem claim_twice_fails_witness:
  "\<exists>s'. claimrewards (demo_sys_env [alice] demo_payday) alice demo_paying = Inr s' \<and>
    claimrewards (demo_sys_env [alice] (demo_payday + 86400000000)) alice s' =
      Inl (Check ''already claimed rewards within past day'')"
proof -
  obtain s' where s': "claimrewards (demo_sys_env [alice] demo_payday) alice demo_paying = Inr s'"
    using demo_first_claim by blast
  have "has_auth (demo_sys_env [alice] t) alice" "current_time (demo_sys_env [alice] t) = t" for t
    by (simp_all add: demo_sys_env_def env.defs ref_env_def)
  then show ?thesis using claim_twice_fails [OF s', of "demo_sys_env [alice] (demo_payday + 86400000000)"] s' by (simp add: useconds_per_day_def)
qed

end
