(* ===== verification/Block_Pay.thy ===== *)
theory Block_Pay
  imports Producer_Service Demo_Custody
begin

text \<open>
  The producers' unpaid blocks. The contract keeps a count of them per producer and one in all,
  and pays every producer its share of a bucket by the ratio of the two; the books balance in
  every reachable state, so the producers together never claim more than the bucket holds. The
  locale \<open>tally_view\<close> passes over the actions that reach the two tables through votes only.
\<close>

section \<open>Views of the global state and the producers\<close>

locale tally_view = vote_blind view for view :: "sys \<Rightarrow> 'a" +
  assumes local: "gstate s' = gstate s \<Longrightarrow> producers s' = producers s \<Longrightarrow> view s' = view s"
begin

lemma view_writes: "writes F s s' \<Longrightarrow> Gstate \<notin> F \<Longrightarrow> Producers \<notin> F \<Longrightarrow> view s' = view s"
  using writes_unchanged [of F s s' Gstate] writes_unchanged [of F s s' Producers] by (intro local) simp_all

lemmas view_parts =
  writes_transfer_from_fund [THEN view_writes, simplified] writes_transfer_to_fund [THEN view_writes, simplified]
  writes_add_to_rex_pool [THEN view_writes, simplified] writes_add_to_rex_balance [THEN view_writes, simplified]
  writes_runrex [THEN view_writes, simplified] writes_unstake_for_rex [THEN view_writes, simplified]
  writes_update_resource_limits [THEN view_writes, simplified] writes_fill_order_of [THEN view_writes, simplified]
  writes_queue_order [THEN view_writes, simplified] writes_update_rex_stake [THEN view_writes, simplified]
  writes_change_delegation [THEN view_writes, simplified] writes_change_totals [THEN view_writes, simplified]
  writes_transfer_stake [THEN view_writes, simplified]
  view_update_voting_power view_update_votes

lemma view_updates:
  "view (s\<lparr>rexorders := x1\<rparr>) = view s" "view (s\<lparr>rexfunds := x2\<rparr>) = view s"
  "view (s\<lparr>rexbalance := x3\<rparr>) = view s" "view (send_inline a s) = view s"
  "view (put_rex_balance n rb s) = view s"
  by (rule local; simp add: send_inline_def put_rex_balance_def)+

lemma view_update_rex_account: "update_rex_account e n p d b s = Inr (x, s') \<Longrightarrow> view s' = view s"
  by (auto simp: update_rex_account_def view_updates split: option.splits if_split_asm dest!: view_parts)

lemma view_settle_account: "settle_account e n b s = Inr (x, s') \<Longrightarrow> view s' = view s"
  by (auto simp: settle_account_def dest: view_update_rex_account)

lemmas view_calls = view_parts view_update_rex_account view_settle_account

lemma view_withdraw: "withdraw e n q s = Inr s' \<Longrightarrow> view s' = view s"
  by (auto simp: withdraw_def view_updates dest!: view_calls)

lemma view_buyrex: "buyrex e n q s = Inr s' \<Longrightarrow> view s' = view s"
  by (auto simp: buyrex_def view_updates dest!: view_calls)

lemma view_unstaketorex: "unstaketorex e n r a b s = Inr s' \<Longrightarrow> view s' = view s"
  by (auto simp: unstaketorex_def Let_def view_updates dest!: view_calls)

lemma view_sellrex: "sellrex e n q s = Inr s' \<Longrightarrow> view s' = view s"
  by (auto simp: sellrex_def finish_sell_def Let_def case_prod_beta view_updates split: if_split_asm dest!: view_calls)

lemma view_updaterex: "updaterex e n s = Inr s' \<Longrightarrow> view s' = view s"
  by (auto simp: updaterex_def Let_def case_prod_beta view_updates split: if_split_asm option.splits dest!: view_calls)

lemma view_consolidate: "consolidate e n s = Inr s' \<Longrightarrow> view s' = view s"
  by (auto simp: consolidate_def Let_def case_prod_beta view_updates dest!: view_calls)

lemma view_mvtosavings: "mvtosavings e n q s = Inr s' \<Longrightarrow> view s' = view s"
  by (auto simp: mvtosavings_def Let_def case_prod_beta view_updates dest!: view_calls)

lemma view_mvfrsavings: "mvfrsavings e n q s = Inr s' \<Longrightarrow> view s' = view s"
  by (auto simp: mvfrsavings_def Let_def case_prod_beta view_updates dest!: view_calls)

lemma view_closerex: "closerex e n s = Inr s' \<Longrightarrow> view s' = view s"
  by (auto simp: closerex_def Let_def case_prod_beta view_updates split: option.splits if_split_asm dest!: view_calls)

lemma view_changebw: "changebw e n r a b t s = Inr s' \<Longrightarrow> view s' = view s"
  by (auto simp: changebw_def Let_def dest!: view_calls)

lemma view_bandwidth:
  "delegatebw e n r a b t s = Inr s' \<Longrightarrow> view s' = view s"
  "undelegatebw e n r a b s = Inr s' \<Longrightarrow> view s' = view s"
  by (auto simp: delegatebw_def undelegatebw_def dest!: view_changebw split: if_split_asm)

lemma view_voteproducer: "voteproducer e n p ps s = Inr s' \<Longrightarrow> view s' = view s"
  by (auto simp: voteproducer_def split: option.splits if_split_asm dest!: view_calls)

end

section \<open>The count of unpaid blocks\<close>

definition unpaid_rows :: "(name, producer_info) table \<Rightarrow> (name, int) table" where
  "unpaid_rows t = map (\<lambda>(n, p). (n, unpaid_blocks p)) t"

definition unpaid_view :: "sys \<Rightarrow> int \<times> (name, int) table" where
  "unpaid_view s = (total_unpaid_blocks (gstate s), unpaid_rows (producers s))"

definition all_unpaid :: "sys \<Rightarrow> int" where
  "all_unpaid s = tsum (\<lambda>_ p. unpaid_blocks p) (producers s)"

lemma unpaid_rows_update [simp]:
  "unpaid_rows (AList.update n p t) = AList.update n (unpaid_blocks p) (unpaid_rows t)"
  by (induction t) (auto simp: unpaid_rows_def)

lemma unpaid_rows_Cons [simp]: "unpaid_rows ((n, p) # t) = (n, unpaid_blocks p) # unpaid_rows t"
  by (simp add: unpaid_rows_def)

lemma tfind_unpaid_rows [simp]: "tfind n (unpaid_rows t) = map_option unpaid_blocks (tfind n t)"
  by (induction t) (auto simp: unpaid_rows_def)

lemma unpaid_rows_erase [simp]: "unpaid_rows (erase_votes t) = unpaid_rows t"
  by (induction t) (auto simp: unpaid_rows_def erase_votes_def)

lemma all_unpaid_rows: "all_unpaid s = tsum (\<lambda>_ x. x) (unpaid_rows (producers s))"
proof -
  have "tsum (\<lambda>_ x. x) (unpaid_rows t) = tsum (\<lambda>_ p. unpaid_blocks p) t" for t
    by (induction t) (auto simp: unpaid_rows_def)
  then show ?thesis by (simp add: all_unpaid_def)
qed

text \<open>The books: the count in all is the sum of the counts of the producers, modulo \<open>2 ^ 32\<close>.\<close>

definition counted :: "int \<times> (name, int) table \<Rightarrow> bool" where
  "counted v \<longleftrightarrow> (case v of (n, t) \<Rightarrow>
     twf t \<and> (\<forall>k x. tfind k t = Some x \<longrightarrow> 0 \<le> x \<and> x < 2 ^ 32) \<and> n = u32 (tsum (\<lambda>_ x. x) t))"

interpretation unpaid: tally_view unpaid_view
  by unfold_locales (simp_all add: unpaid_view_def vote_frame_def)

lemma u32_stored [simp]: "0 \<le> u32 x" "u32 x < 4294967296" "u32 (u32 x) = u32 x"
  by (simp_all add: u32_def)

lemma u32_shift: "u32 x = u32 y \<Longrightarrow> u32 (x + z) = u32 (y + z)"
  unfolding u32_def by (rule mod_add_cong) simp_all

lemma counted_update:
  assumes "counted (m, t)" "tfind n t = Some x" "0 \<le> y" "y < 2 ^ 32" "u32 y = u32 (x + d)"
  shows "counted (u32 (m + d), AList.update n y t)"
proof -
  have "tsum (\<lambda>_ x. x) (AList.update n y t) = tsum (\<lambda>_ x. x) t - x + y"
    using assms(1,2) by (simp add: counted_def tsum_AList_update)
  also have "u32 \<dots> = u32 (tsum (\<lambda>_ x. x) t + d)"
    using u32_shift [OF assms(5), of "tsum (\<lambda>_ x. x) t - x"] by (simp add: algebra_simps)
  also have "\<dots> = u32 (m + d)"
    using assms(1) by (intro u32_shift) (simp add: counted_def)
  finally show ?thesis using assms(1,3,4) by (simp add: counted_def)
qed

lemma unpaid_count_block: "counted (unpaid_view s) \<Longrightarrow> counted (unpaid_view (count_block n s))"
proof (cases "tfind n (producers s)")
  case (Some p)
  assume "counted (unpaid_view s)"
  from this counted_update [of "total_unpaid_blocks (gstate s)" "unpaid_rows (producers s)" n "unpaid_blocks p"
      "u32 (unpaid_blocks p + 1)" 1] Some show ?thesis
    by (simp add: count_block_def unpaid_view_def)
qed (simp add: count_block_def)

lemma unpaid_gstate:
  "total_unpaid_blocks g = total_unpaid_blocks (gstate s) \<Longrightarrow> unpaid_view (s\<lparr>gstate := g\<rparr>) = unpaid_view s"
  by (simp add: unpaid_view_def)

lemma unpaid_schedule: "unpaid_view (update_elected_producers e t s) = unpaid_view s"
  "unpaid_view (close_auction e t s) = unpaid_view s"
  by (simp_all add: update_elected_producers_def close_auction_def channel_namebid_to_rex_def unpaid_view_def Let_def
      split: option.splits)

lemma unpaid_onblock:
  assumes "counted (unpaid_view s)" "onblock e t n s = Inr s'"
  shows "counted (unpaid_view s')"
proof -
  have g: "unpaid_view (s\<lparr>gstate2 := g2\<rparr>) = unpaid_view s" for g2 by (simp add: unpaid_view_def)
  then show ?thesis
    using assms unpaid_count_block
    by (auto simp: onblock_def Let_def unpaid_schedule unpaid_gstate split: if_split_asm)
qed

lemma unpaid_claim:
  assumes "counted (unpaid_view s)" "claimrewards e n s = Inr s'"
  shows "counted (unpaid_view s')"
proof -
  obtain p where "tfind n (producers s) = Some p"
    "producers s' = AList.update n (p\<lparr>last_claim_time := current_time e, unpaid_blocks := 0\<rparr>) (producers s)"
    "total_unpaid_blocks (gstate s') = u32 (total_unpaid_blocks (gstate s) - unpaid_blocks p)"
    by (rule claim_fields [OF assms(2)])
  with counted_update [of "total_unpaid_blocks (gstate s)" "unpaid_rows (producers s)" n "unpaid_blocks p" 0 "- unpaid_blocks p"]
    assms(1) show ?thesis
    by (simp add: unpaid_view_def)
qed

text \<open>Trades in RAM, registration and administration keep the counts.\<close>

lemma unpaid_calls [simp]:
  "unpaid_view (send_inline a s) = unpaid_view s" "unpaid_view (channel_to_rex e n q s) = unpaid_view s"
  "unpaid_view (s\<lparr>userres := u\<rparr>) = unpaid_view s" "unpaid_view (s\<lparr>gstate2 := g2\<rparr>) = unpaid_view s"
  "unpaid_view (s\<lparr>producers2 := t2\<rparr>) = unpaid_view s" "unpaid_view (s\<lparr>chain_params := c\<rparr>) = unpaid_view s"
  by (simp_all add: unpaid_view_def send_inline_def channel_to_rex_def split: option.splits)

lemma unpaid_total_share [simp]: "unpaid_view (snd (update_total_votepay_share ct a b s)) = unpaid_view s"
  by (rule unpaid.view_total_share)

lemmas unpaid_ram_parts =
  writes_convert_market [THEN unpaid.view_writes, simplified] writes_credit_ram [THEN unpaid.view_writes, simplified]
  writes_set_ram_limit [THEN unpaid.view_writes, simplified] writes_grow_market [THEN unpaid.view_writes, simplified]

lemma unpaid_ram_supply: "update_ram_supply e s = Inr s' \<Longrightarrow> unpaid_view s' = unpaid_view s"
  by (auto simp: update_ram_supply_def Let_def unpaid_gstate split: if_split_asm dest!: unpaid_ram_parts)

lemma unpaid_buyram: "buyram e p n q s = Inr s' \<Longrightarrow> unpaid_view s' = unpaid_view s"
  by (auto simp: buyram_def Let_def unpaid_gstate split: if_split_asm dest!: unpaid_ram_parts unpaid_ram_supply)

lemma unpaid_sellram: "sellram e n b s = Inr s' \<Longrightarrow> unpaid_view s' = unpaid_view s"
  by (auto simp: sellram_def Let_def unpaid_gstate split: if_split_asm option.splits
      dest!: unpaid_ram_parts unpaid_ram_supply)

lemma unpaid_admin:
  "setram e m s = Inr s' \<Longrightarrow> unpaid_view s' = unpaid_view s"
  "setramrate e r s = Inr s' \<Longrightarrow> unpaid_view s' = unpaid_view s"
  "setparams e b s = Inr s' \<Longrightarrow> unpaid_view s' = unpaid_view s"
  by (auto simp: setram_def setramrate_def setparams_def unpaid_gstate dest!: unpaid_ram_parts unpaid_ram_supply)

lemma unpaid_producer:
  "tfind n (producers s) = Some p \<Longrightarrow> unpaid_blocks p' = unpaid_blocks p \<Longrightarrow>
     unpaid_view (s\<lparr>producers := AList.update n p' (producers s)\<rparr>) = unpaid_view s"
  by (simp add: unpaid_view_def update_same)

lemma unpaid_deactivate:
  "unregprod e n s = Inr s' \<Longrightarrow> unpaid_view s' = unpaid_view s"
  "rmvproducer e n s = Inr s' \<Longrightarrow> unpaid_view s' = unpaid_view s"
  by (auto simp: unregprod_def rmvproducer_def deactivate_def split: option.splits intro!: unpaid_producer)

lemma unpaid_regproducer:
  assumes "counted (unpaid_view s)" "regproducer e n k u l s = Inr s'"
  shows "counted (unpaid_view s')"
proof (cases "tfind n (producers s)")
  case None
  then show ?thesis
    using assms by (fastforce simp: regproducer_def Let_def counted_def unpaid_view_def split: if_split_asm)
next
  case (Some p)
  then have "unpaid_view s' = unpaid_view s"
    using assms(2) by (auto simp: regproducer_def Let_def split: option.splits intro!: unpaid_producer)
  then show ?thesis using assms(1) by simp
qed

lemmas unpaid_kept = unpaid.view_withdraw unpaid.view_buyrex unpaid.view_unstaketorex unpaid.view_sellrex
  unpaid.view_updaterex unpaid.view_consolidate unpaid.view_mvtosavings unpaid.view_mvfrsavings unpaid.view_closerex
  unpaid.view_bandwidth unpaid.view_voteproducer unpaid.view_regproxy unpaid_buyram unpaid_sellram unpaid_admin unpaid_deactivate

lemma unpaid_apply:
  assumes "counted (unpaid_view s)" "sys_apply e a s = Inr s'"
  shows "counted (unpaid_view s')"
proof (cases "Gstate \<in> footprint a \<or> Producers \<in> footprint a")
  case False
  then have "unpaid_view s' = unpaid_view s" using unpaid.view_writes [OF writes_apply [OF assms(2)]] by simp
  then show ?thesis using assms(1) by simp
next
  case True
  then show ?thesis
    using assms by (cases a) (auto simp: buyrambytes_def split: option.splits
        dest!: unpaid_kept dest: unpaid_onblock unpaid_claim unpaid_regproducer)
qed

lemma counted_reachable: "sys_reachable s \<Longrightarrow> counted (unpaid_view s)"
proof (induction rule: sys_reachable.induct)
  case (action s e a s')
  have v: "unpaid_view (s\<lparr>outbox := x, tokens := t\<rparr>) = unpaid_view s" "unpaid_view (s\<lparr>outbox := x\<rparr>) = unpaid_view s"
    "unpaid_view (s\<lparr>tokens := t, outbox := x\<rparr>) = unpaid_view s" for s x t
    by (simp_all add: unpaid_view_def)
  then show ?case
    using action.IH action.hyps(5) unpaid_apply [of "s\<lparr>outbox := []\<rparr>" e a] by (auto simp: sys_transact_eq_Inr)
qed (auto simp: genesis_def default_global_state_def new_limits_def user_token_transact_eq_Inr unpaid_view_def
    counted_def unpaid_rows_def u32_def)

section \<open>What each action does to the counts\<close>

definition blocks_of :: "sys \<Rightarrow> name \<Rightarrow> int" where
  "blocks_of s n = (case tfind n (producers s) of None \<Rightarrow> 0 | Some p \<Rightarrow> unpaid_blocks p)"

text \<open>Blocks count for registered producers once enough votes have activated the chain.\<close>

definition counts_block :: "sys \<Rightarrow> name \<Rightarrow> bool" where
  "counts_block s n \<longleftrightarrow> min_activated_stake \<le> total_activated_stake (gstate s) \<and> tfind n (producers s) \<noteq> None"

lemma blocks_of_view: "blocks_of s n = (case tfind n (snd (unpaid_view s)) of None \<Rightarrow> 0 | Some x \<Rightarrow> x)"
  by (simp add: blocks_of_def unpaid_view_def split: option.splits)

lemma total_view: "total_unpaid_blocks (gstate s) = fst (unpaid_view s)"
  by (simp add: unpaid_view_def)

lemma counts_same: "unpaid_view s' = unpaid_view s \<Longrightarrow>
    total_unpaid_blocks (gstate s') = total_unpaid_blocks (gstate s) \<and> blocks_of s' = blocks_of s"
  by (simp add: total_view blocks_of_view fun_eq_iff)

lemma count_block_cong:
  assumes "unpaid_view s' = unpaid_view s"
  shows "unpaid_view (count_block n s') = unpaid_view (count_block n s)"
proof -
  have view: "unpaid_view (count_block n x) = (case tfind n (snd (unpaid_view x)) of
      None \<Rightarrow> unpaid_view x
    | Some y \<Rightarrow> (u32 (fst (unpaid_view x) + 1), AList.update n (u32 (y + 1)) (snd (unpaid_view x))))" for x
    by (simp add: count_block_def unpaid_view_def split: option.splits)
  show ?thesis unfolding view assms ..
qed

lemma counts_onblock:
  assumes "onblock e t n s = Inr s'"
  shows "total_unpaid_blocks (gstate s') =
      (if counts_block s n then u32 (total_unpaid_blocks (gstate s) + 1) else total_unpaid_blocks (gstate s)) \<and>
    blocks_of s' = (if counts_block s n then (blocks_of s)(n := u32 (blocks_of s n + 1)) else blocks_of s)"
proof -
  have step: "unpaid_view s' = (if min_activated_stake \<le> total_activated_stake (gstate s)
      then unpaid_view (count_block n s) else unpaid_view s)"
    using assms by (auto simp: onblock_def Let_def unpaid_schedule unpaid_gstate split: if_split_asm
        intro!: count_block_cong)
  show ?thesis
    unfolding total_view blocks_of_view [abs_def] step
    by (auto simp: counts_block_def count_block_def unpaid_view_def fun_eq_iff update_conv' split: option.splits)
qed

lemma counts_claim:
  assumes "claimrewards e n s = Inr s'"
  shows "total_unpaid_blocks (gstate s') = u32 (total_unpaid_blocks (gstate s) - blocks_of s n) \<and>
    blocks_of s' = (blocks_of s)(n := 0)"
proof -
  obtain p where "tfind n (producers s) = Some p"
    "producers s' = AList.update n (p\<lparr>last_claim_time := current_time e, unpaid_blocks := 0\<rparr>) (producers s)"
    "total_unpaid_blocks (gstate s') = u32 (total_unpaid_blocks (gstate s) - unpaid_blocks p)"
    by (rule claim_fields [OF assms])
  then show ?thesis by (auto simp: blocks_of_def fun_eq_iff update_conv')
qed

lemma counts_regproducer:
  assumes "regproducer e n k u l s = Inr s'"
  shows "total_unpaid_blocks (gstate s') = total_unpaid_blocks (gstate s) \<and> blocks_of s' = blocks_of s"
proof (cases "tfind n (producers s)")
  case None
  then obtain p where "producers s' = (n, p) # producers s" "unpaid_blocks p = 0" "gstate s' = gstate s"
    using assms by (auto simp: regproducer_def Let_def split: if_split_asm)
  then show ?thesis using None by (auto simp: blocks_of_def fun_eq_iff)
next
  case (Some p)
  then have "unpaid_view s' = unpaid_view s"
    using assms by (auto simp: regproducer_def Let_def split: option.splits intro!: unpaid_producer)
  then show ?thesis by (rule counts_same)
qed

lemma counts_other:
  assumes "sys_apply e a s = Inr s'" "\<forall>t n. a \<noteq> A_onblock t n" "\<forall>n. a \<noteq> A_claimrewards n"
  shows "total_unpaid_blocks (gstate s') = total_unpaid_blocks (gstate s) \<and> blocks_of s' = blocks_of s"
proof (cases "Gstate \<in> footprint a \<or> Producers \<in> footprint a")
  case False
  then have "unpaid_view s' = unpaid_view s" using unpaid.view_writes [OF writes_apply [OF assms(1)]] by simp
  then show ?thesis by (rule counts_same)
next
  case True
  show ?thesis
  proof (cases "\<exists>n k u l. a = A_regproducer n k u l")
    case False
    then have "unpaid_view s' = unpaid_view s"
      using True assms by (cases a) (auto simp: buyrambytes_def split: option.splits dest!: unpaid_kept)
    then show ?thesis by (rule counts_same)
  qed (use assms(1) in \<open>auto dest: counts_regproducer\<close>)
qed

section \<open>Shares of the bucket\<close>

text \<open>Rounded shares of an amount by parts of a whole add up to at most the amount.\<close>

lemma shares_le:
  fixes b :: int
  assumes "0 \<le> b" "0 < m" "\<forall>(k, x) \<in> set t. 0 \<le> x"
  shows "m * tsum (\<lambda>_ x. b * x div m) t \<le> b * tsum (\<lambda>_ x. x) t"
  using assms(3)
proof (induction t)
  case (Cons r t)
  obtain k x where r: "r = (k, x)" by (cases r)
  have "m * (b * x div m) \<le> b * x" using mult_div_mod_eq [of m "b * x"] pos_mod_sign [OF assms(2), of "b * x"] by linarith
  then show ?case using Cons by (simp add: r algebra_simps)
qed simp

lemma counted_share:
  assumes "counted (m, t)" "tsum (\<lambda>_ x. x) t < 2 ^ 32" "(k, x) \<in> set t"
  shows "0 \<le> x" "x \<le> m" "m = tsum (\<lambda>_ x. x) t"
proof -
  have t: "twf t" "\<And>k x. tfind k t = Some x \<Longrightarrow> 0 \<le> x" and m: "m = u32 (tsum (\<lambda>_ x. x) t)"
    using assms(1) by (auto simp: counted_def)
  then have k: "tfind k t = Some x" using assms(3) by (simp add: twf_def)
  then show "0 \<le> x" by (rule t(2))
  have le: "x \<le> tsum (\<lambda>_ x. x) t"
    by (rule tab.row_le_total [OF t(1) k]) (use t(2) in auto)
  with \<open>0 \<le> x\<close> show "m = tsum (\<lambda>_ x. x) t" using m assms(2) by (simp add: u32_id)
  with le show "x \<le> m" by simp
qed

lemma per_block_pay_share:
  assumes "0 < total_unpaid_blocks g" "0 \<le> perblock_bucket g" "0 \<le> unpaid_blocks p"
    and "unpaid_blocks p \<le> total_unpaid_blocks g" "perblock_bucket g * total_unpaid_blocks g < 2 ^ 63"
  shows "per_block_pay g p = perblock_bucket g * unpaid_blocks p div total_unpaid_blocks g"
proof -
  have "perblock_bucket g * unpaid_blocks p \<le> perblock_bucket g * total_unpaid_blocks g"
    using assms(2,4) by (intro mult_left_mono) simp_all
  moreover have "0 \<le> perblock_bucket g * unpaid_blocks p" using assms(2,3) by simp
  ultimately have "i64 (perblock_bucket g * unpaid_blocks p) = perblock_bucket g * unpaid_blocks p"
    using assms(5) by (intro i64_small) simp_all
  then show ?thesis using assms(1-3) by (simp add: per_block_pay_def tdiv_pos)
qed

section \<open>Properties\<close>

text \<open>
  C24. Every block is counted once. In every reachable state each producer's count of unpaid
  blocks is a 32-bit number, and the contract's total is the sum of them all, modulo \<open>2 ^ 32\<close>.
  A reported block adds exactly one, in 32 bits, to its producer's count and to the total, if the chain has
  been activated and the producer is registered, and changes no count otherwise; a claim sets
  the claimer's count to zero and takes it off the total; every other action, registering,
  unregistering, voting, trading and governing, leaves all counts as they are.
\<close>

theorem unpaid_blocks_counted:
  assumes "sys_reachable s"
  shows "total_unpaid_blocks (gstate s) = u32 (all_unpaid s) \<and>
    (\<forall>n p. tfind n (producers s) = Some p \<longrightarrow> 0 \<le> unpaid_blocks p \<and> unpaid_blocks p < 2 ^ 32) \<and>
    (\<forall>(e :: sys_env) a s'. sys_transact e a s = Inr s' \<longrightarrow>
       (case a of
          A_onblock t n \<Rightarrow>
            total_unpaid_blocks (gstate s') =
              (if counts_block s n then u32 (total_unpaid_blocks (gstate s) + 1) else total_unpaid_blocks (gstate s)) \<and>
            blocks_of s' = (if counts_block s n then (blocks_of s)(n := u32 (blocks_of s n + 1)) else blocks_of s)
        | A_claimrewards n \<Rightarrow>
            total_unpaid_blocks (gstate s') = u32 (total_unpaid_blocks (gstate s) - blocks_of s n) \<and>
            blocks_of s' = (blocks_of s)(n := 0)
        | _ \<Rightarrow> total_unpaid_blocks (gstate s') = total_unpaid_blocks (gstate s) \<and> blocks_of s' = blocks_of s))"
proof (intro conjI allI impI)
  note c = counted_reachable [OF assms]
  show "total_unpaid_blocks (gstate s) = u32 (all_unpaid s)"
    using c by (simp add: counted_def unpaid_view_def all_unpaid_rows)
  show "0 \<le> unpaid_blocks p" "unpaid_blocks p < 2 ^ 32" if "tfind n (producers s) = Some p" for n p
    using c that by (auto simp: counted_def unpaid_view_def)
  fix e :: sys_env and a s' assume "sys_transact e a s = Inr s'"
  then obtain s1 where s1: "sys_apply e a (s\<lparr>outbox := []\<rparr>) = Inr s1" and g: "gstate s' = gstate s1" "blocks_of s' = blocks_of s1"
    by (auto simp: sys_transact_eq_Inr blocks_of_def fun_eq_iff)
  have o: "gstate (s\<lparr>outbox := []\<rparr>) = gstate s" "blocks_of (s\<lparr>outbox := []\<rparr>) = blocks_of s"
    "counts_block (s\<lparr>outbox := []\<rparr>) = counts_block s"
    by (simp_all add: blocks_of_def counts_block_def fun_eq_iff)
  show "case a of
          A_onblock t n \<Rightarrow>
            total_unpaid_blocks (gstate s') =
              (if counts_block s n then u32 (total_unpaid_blocks (gstate s) + 1) else total_unpaid_blocks (gstate s)) \<and>
            blocks_of s' = (if counts_block s n then (blocks_of s)(n := u32 (blocks_of s n + 1)) else blocks_of s)
        | A_claimrewards n \<Rightarrow>
            total_unpaid_blocks (gstate s') = u32 (total_unpaid_blocks (gstate s) - blocks_of s n) \<and>
            blocks_of s' = (blocks_of s)(n := 0)
        | _ \<Rightarrow> total_unpaid_blocks (gstate s') = total_unpaid_blocks (gstate s) \<and> blocks_of s' = blocks_of s"
  proof (cases "(\<exists>t n. a = A_onblock t n) \<or> (\<exists>n. a = A_claimrewards n)")
    case True
    then show ?thesis using s1 counts_onblock counts_claim by (fastforce simp: g o)
  next
    case False
    then show ?thesis using counts_other [OF s1] by (simp add: g o split: sys_action.split)
  qed
qed

text \<open>
  C25. The producers together never claim more from the per-block bucket than it holds: in every
  reachable state, while the counts do not wrap around and the product of bucket and count fits
  64 bits, every producer's pay lies between zero and the bucket, and the pays of all producers
  add up to at most the bucket.
\<close>

theorem block_pay_bounded:
  assumes "sys_reachable s" and "all_unpaid s < 2 ^ 32" and "0 \<le> perblock_bucket (gstate s)"
    and "perblock_bucket (gstate s) * total_unpaid_blocks (gstate s) < 2 ^ 63"
  shows "(\<forall>(n, p) \<in> set (producers s).
      0 \<le> per_block_pay (gstate s) p \<and> per_block_pay (gstate s) p \<le> perblock_bucket (gstate s)) \<and>
    tsum (\<lambda>_ p. per_block_pay (gstate s) p) (producers s) \<le> perblock_bucket (gstate s)"
proof (cases "total_unpaid_blocks (gstate s) = 0")
  case True
  then have "per_block_pay (gstate s) p = 0" for p by (simp add: per_block_pay_def)
  moreover have "tsum (\<lambda>_ _. 0) t = 0" for t :: "(name, producer_info) table" by (induction t) auto
  ultimately show ?thesis using assms(3) by (simp add: case_prod_beta)
next
  case False
  define m where "m = total_unpaid_blocks (gstate s)"
  define b where "b = perblock_bucket (gstate s)"
  have c: "counted (m, unpaid_rows (producers s))"
    using counted_reachable [OF assms(1)] by (simp add: unpaid_view_def m_def)
  have lt: "tsum (\<lambda>_ x. x) (unpaid_rows (producers s)) < 2 ^ 32" using assms(2) by (simp add: all_unpaid_rows)
  have m: "0 < m" using c False by (auto simp: counted_def m_def u32_def)
  have row: "0 \<le> unpaid_blocks p \<and> unpaid_blocks p \<le> m \<and> m = tsum (\<lambda>_ x. x) (unpaid_rows (producers s))"
    if "(n, p) \<in> set (producers s)" for n p
  proof -
    have "(n, unpaid_blocks p) \<in> set (unpaid_rows (producers s))" using that by (force simp: unpaid_rows_def)
    from counted_share [OF c lt this] show ?thesis by blast
  qed
  have pay: "per_block_pay (gstate s) p = b * unpaid_blocks p div m" if "(n, p) \<in> set (producers s)" for n p
    using per_block_pay_share [of "gstate s" p] m row [OF that] assms(3,4) by (simp add: m_def b_def)
  have one: "0 \<le> per_block_pay (gstate s) p \<and> per_block_pay (gstate s) p \<le> b" if "(n, p) \<in> set (producers s)" for n p
  proof -
    have "b * unpaid_blocks p \<le> b * m" using row [OF that] assms(3) by (intro mult_left_mono) (simp_all add: b_def)
    then have "b * unpaid_blocks p div m \<le> b" using m by (metis zdiv_mono1 nonzero_mult_div_cancel_right less_irrefl)
    then show ?thesis using pay [OF that] row [OF that] m assms(3) by (simp add: b_def pos_imp_zdiv_nonneg_iff)
  qed
  have "tsum (\<lambda>_ p. per_block_pay (gstate s) p) (producers s) = tsum (\<lambda>_ x. b * x div m) (unpaid_rows (producers s))"
    using pay unfolding tsum_def unpaid_rows_def by (auto simp: comp_def case_prod_beta intro!: arg_cong [where f = sum_list] map_cong)
  moreover have "tsum (\<lambda>_ x. b * x div m) (unpaid_rows (producers s)) \<le> b"
  proof (cases "producers s")
    case (Cons r ps)
    have "m * tsum (\<lambda>_ x. b * x div m) (unpaid_rows (producers s)) \<le> b * m"
    proof -
      have "\<forall>(k, x) \<in> set (unpaid_rows (producers s)). 0 \<le> x" using row by (auto simp: unpaid_rows_def)
      moreover have "m = tsum (\<lambda>_ x. x) (unpaid_rows (producers s))"
        using row [of "fst r" "snd r"] Cons by simp
      ultimately show ?thesis using shares_le [of b m "unpaid_rows (producers s)"] m assms(3) by (simp add: b_def)
    qed
    then show ?thesis using m by (simp add: mult.commute)
  qed (use assms(3) in \<open>simp add: unpaid_rows_def b_def\<close>)
  ultimately show ?thesis using one by (auto simp: b_def)
qed

section \<open>Examples\<close>

text \<open>Alice and bob register and produce three blocks; later alice claims.\<close>

definition pay_story :: "(name list \<times> int \<times> (sys_action + token_action)) list" where
  "pay_story =
     [([alice], demo_later, Inl (A_regproducer alice 1 [] 0)),
      ([bob], demo_later, Inl (A_regproducer bob 1 [] 0)),
      ([eosio_account], demo_later, Inl (A_onblock 1 alice)),
      ([eosio_account], demo_later, Inl (A_onblock 2 bob)),
      ([eosio_account], demo_later, Inl (A_onblock 3 bob)),
      ([alice], demo_closing, Inl (A_claimrewards alice))]"

definition demo_paid :: sys where
  "demo_paid = demo_kept\<lparr>
     tokens := \<lparr>stats = [(5459781, \<lparr>st_supply = eos 10016084615384,
        st_max_supply = eos 100000000000000, st_issuer = eosio_account\<rparr>)], accounts =
        [((vpay_account, 5459781), eos 2412692307), ((bpay_account, 5459781), eos 536153846),
         ((saving_account, 5459781), eos 12867692308), ((ramfee_account, 5459781), eos 500),
         ((ram_account, 5459781), eos 99500), ((names_account, 5459781), eos 3000000),
         ((stake_account, 5459781), eos 2000001000000), ((bob, 5459781), eos 998000000),
         ((rex_account, 5459781), eos 0), ((alice, 5459781), eos 7999265976923),
         ((eosio_account, 5459781), eos 0)]\<rparr>,
     gstate := (gstate demo_kept)\<lparr>last_pervote_bucket_fill := demo_closing, pervote_bucket := 2412692307,
        perblock_bucket := 536153846, total_unpaid_blocks := 2\<rparr>,
     gstate2 := (gstate2 demo_kept)\<lparr>last_block_num := 3\<rparr>,
     gstate3 := (gstate3 demo_kept)\<lparr>last_vpay_state_update := demo_closing\<rparr>,
     producers := [(bob, \<lparr>total_votes = Fin 0, producer_key = 1, is_active = True, url = [],
        unpaid_blocks = 2, last_claim_time = demo_later, location = 0\<rparr>),
       (alice, \<lparr>total_votes = Fin 0, producer_key = 1, is_active = True, url = [],
        unpaid_blocks = 0, last_claim_time = demo_closing, location = 0\<rparr>)],
     producers2 := [(bob, \<lparr>votepay_share = Fin 0, last_votepay_share_update = demo_later\<rparr>),
       (alice, \<lparr>votepay_share = Fin 0, last_votepay_share_update = demo_closing\<rparr>)]\<rparr>"

lemma demo_paid_run: "demo_run pay_story demo_kept = Inr demo_paid"
  by code_simp

lemma demo_paid_reachable: "sys_reachable demo_paid"
proof (rule guarded_reachable [where acct = bpay_account])
  have "guarded bpay_account demo_kept" by (rule demo_kept_guarded) (simp add: account_defs example_defs)
  then show "guarded bpay_account demo_paid"
    by (rule demo_run_guarded [OF demo_paid_run])
      (simp add: pay_story_def account_defs example_defs action_ok_def)
qed

theorem unpaid_blocks_counted_witness:
  "total_unpaid_blocks (gstate demo_paid) = 2 \<and> u32 (all_unpaid demo_paid) = 2"
  using unpaid_blocks_counted [OF demo_paid_reachable] by (simp add: demo_paid_def)

theorem block_pay_bounded_witness:
  "per_block_pay (gstate demo_paid) (snd (hd (producers demo_paid))) \<le> 536153846 \<and>
   tsum (\<lambda>_ p. per_block_pay (gstate demo_paid) p) (producers demo_paid) \<le> 536153846"
proof -
  have "all_unpaid demo_paid < 2 ^ 32" "perblock_bucket (gstate demo_paid) = 536153846"
    "total_unpaid_blocks (gstate demo_paid) = 2"
    by (simp_all add: all_unpaid_def demo_paid_def)
  moreover have "hd (producers demo_paid) \<in> set (producers demo_paid)" by (simp add: demo_paid_def)
  ultimately show ?thesis using block_pay_bounded [OF demo_paid_reachable] by (auto simp: case_prod_beta)
qed

end
