(* ===== verification/Rex_Price.thy ===== *)
theory Rex_Price
  imports Rex_Solvency
begin

text \<open>
  What a unit of REX is worth. The pool's \<open>S\<close> core tokens back its \<open>R\<close> units of REX; rents, fees
  and name bids add to the tokens, buying and selling round against the trader. The relation
  \<open>price_step\<close> adds to a step of the ledger that the price \<open>S / R\<close> does not fall; it composes like
  \<open>rex_step\<close>, whose invariant it uses between the steps of an action.
\<close>

section \<open>Steps that keep the price\<close>

definition price_kept :: "sys \<Rightarrow> sys \<Rightarrow> bool" where
  "price_kept s s' \<longleftrightarrow> lendable s * rex_units s' \<le> lendable s' * rex_units s \<and> (rex_units s = 0 \<longrightarrow> rex_units s' = 0)"

text \<open>What a step may assume of its start and of what it sends.\<close>

definition room :: "symbol \<Rightarrow> name set \<Rightarrow> int \<Rightarrow> sys \<Rightarrow> sys \<Rightarrow> bool" where
  "room cs X d s s' \<longleftrightarrow> rex_ok cs X s \<and> 0 \<le> d \<and> all_positive s' \<and> owed s + d + (inflow cs s' - inflow cs s) \<le> rex_cap"

definition price_step ::
  "symbol \<Rightarrow> name set \<Rightarrow> int \<Rightarrow> sys \<Rightarrow> name set \<Rightarrow> int \<Rightarrow> sys \<Rightarrow> bool" where
  "price_step cs X d s X' d' s' \<longleftrightarrow> rex_step cs X d s X' d' s' \<and> (room cs X d s s' \<longrightarrow> price_kept s s')"

lemma price_stepD: "price_step cs X d s X' d' s' \<Longrightarrow> rex_step cs X d s X' d' s'"
  by (simp add: price_step_def)

lemma room_shorten: "sends s1 s2 \<Longrightarrow> room cs X d s s2 \<Longrightarrow> room cs X d s s1"
  using inflow_mono [of s1 s2 cs] all_positive_before [of s1 s2] by (auto simp: room_def)

lemma room_advance:
  assumes "rex_step cs X d s X1 d1 s1" "sends s1 s2" "room cs X d s s2"
  shows "room cs X1 d1 s1 s2"
proof -
  have "room cs X d s s1" using assms(2,3) by (rule room_shorten)
  then have "rex_ok cs X1 s1" "0 \<le> d1" "owed s1 + d1 - inflow cs s1 \<le> owed s + d - inflow cs s"
    using assms(1) by (auto simp: room_def rex_step_def)
  then show ?thesis using assms(3) by (auto simp: room_def)
qed

lemma price_kept_trans:
  assumes "price_kept s s1" "price_kept s1 s2"
    and "0 \<le> rex_units s" "0 \<le> rex_units s1" "0 \<le> rex_units s2" "0 \<le> lendable s2"
  shows "price_kept s s2"
proof (cases "rex_units s1 = 0")
  case True
  then show ?thesis using assms by (auto simp: price_kept_def)
next
  case False
  define S R S1 R1 S2 R2 where d: "S = lendable s" "R = rex_units s" "S1 = lendable s1" "R1 = rex_units s1"
    "S2 = lendable s2" "R2 = rex_units s2"
  have k: "S * R1 \<le> S1 * R" "S1 * R2 \<le> S2 * R1" "R = 0 \<longrightarrow> R1 = 0" "0 < R1" "0 \<le> R" "0 \<le> R2"
    using assms False by (auto simp: price_kept_def d)
  have "(S * R2) * R1 = (S * R1) * R2" by (simp add: ac_simps)
  also have "\<dots> \<le> (S1 * R) * R2" using k by (intro mult_right_mono)
  also have "\<dots> = (S1 * R2) * R" by (simp add: ac_simps)
  also have "\<dots> \<le> (S2 * R1) * R" using k by (intro mult_right_mono)
  finally have "(S * R2) * R1 \<le> (S2 * R) * R1" by (simp add: ac_simps)
  then have "S * R2 \<le> S2 * R" using k(4) by simp
  then show ?thesis using k by (simp add: price_kept_def d)
qed

lemma price_step_trans [trans]:
  assumes "price_step cs X d s X1 d1 s1" "price_step cs X1 d1 s1 X2 d2 s2"
  shows "price_step cs X d s X2 d2 s2"
proof -
  note 1 = price_stepD [OF assms(1)] and 2 = price_stepD [OF assms(2)]
  have m: "sends s1 s2" using 2 by (simp add: rex_step_def)
  have "price_kept s s2" if r: "room cs X d s s2"
  proof -
    have r1: "room cs X d s s1" "room cs X1 d1 s1 s2"
      using room_shorten [OF m r] room_advance [OF 1 m r] .
    then have "rex_ok cs X2 s2" "rex_ok cs X1 s1" "rex_ok cs X s"
      using 2 by (auto simp: rex_step_def room_def)
    then show ?thesis
      using price_kept_trans [of s s1 s2] assms r1 rex_units_bounds lendable_bounds by (auto simp: price_step_def)
  qed
  then show ?thesis using rex_step_trans [OF 1 2] by (simp add: price_step_def)
qed

lemma price_kept_same: "rexpool s' = rexpool s \<Longrightarrow> price_kept s s'"
  by (simp add: price_kept_def lendable_def rex_units_def)

lemma price_kept_grows:
  "rex_units s' = rex_units s \<Longrightarrow> lendable s \<le> lendable s' \<Longrightarrow> 0 \<le> rex_units s \<Longrightarrow> price_kept s s'"
  by (simp add: price_kept_def mult_right_mono)

lemma price_same: "rex_step cs X d s X' d' s' \<Longrightarrow> rexpool s' = rexpool s \<Longrightarrow> price_step cs X d s X' d' s'"
  by (simp add: price_step_def price_kept_same)

lemma price_refl: "price_step cs X d s X d s"
  by (rule price_same [OF rex_step_refl]) simp_all

text \<open>When the rest of an action leaves the pool alone.\<close>

lemma price_then_unpriced:
  assumes "price_step cs X d s X1 d1 s1" "sends s1 s'" "rexpool s' = rexpool s1" "rex_step cs X d s X' d' s'"
  shows "price_step cs X d s X' d' s'"
proof -
  have "price_kept s s'" if "room cs X d s s'"
    using assms(1) room_shorten [OF assms(2) that] assms(3)
    by (simp add: price_step_def price_kept_def lendable_def rex_units_def)
  then show ?thesis using assms(4) by (simp add: price_step_def)
qed

section \<open>Payments into the pool\<close>

lemma price_channel_to_rex:
  assumes "symbol q = cs" "0 \<le> amount q" "src \<noteq> rex_account"
  shows "price_step cs X d s X d (channel_to_rex e src q s)"
proof (cases "\<exists>p. rexpool s = Some p \<and> 0 < amount (total_rex p)")
  case False
  then have "channel_to_rex e src q s = s" by (auto simp: channel_to_rex_def split: option.splits)
  then show ?thesis by (simp add: price_refl)
next
  case True
  then obtain p where p: "rexpool s = Some p" "0 < amount (total_rex p)" by blast
  define s' where "s' = channel_to_rex e src q s"
  obtain memo where s': "s' = send_inline (send_transfer [src] src rex_account q memo)
      (s\<lparr>rexpool := Some (p\<lparr>total_unlent := add_amount (amount q) (total_unlent p),
         total_lendable := add_amount (amount q) (total_lendable p)\<rparr>)\<rparr>)"
    using p by (simp add: s'_def channel_to_rex_def)
  have io: "inflow cs s' = inflow cs s + amount q"
    unfolding s' inflow_send_inline paid_in_transfer [OF assms] by (simp add: inflow_def)
  have "price_kept s s'" if r: "room cs X d s s'"
  proof -
    have "lendable s + amount q \<le> rex_cap" "0 \<le> lendable s" "0 \<le> rex_units s"
      using r io owed_parts(1-5) [of cs X s] rex_units_bounds [of cs X s] by (auto simp: room_def owed_def)
    moreover from this have "i64 (lendable s + amount q) = lendable s + amount q"
      using assms(2) by (intro i64_id) (simp_all add: rex_cap_def)
    ultimately show ?thesis
      using assms(2) p by (intro price_kept_grows) (simp_all add: s' rex_units_def lendable_def send_inline_def)
  qed
  then show ?thesis using step_channel_to_rex [OF assms] by (simp add: price_step_def s'_def)
qed

lemma price_channel_proceeds:
  assumes "channel_proceeds e s = Inr s'"
  shows "price_step cs X d s X d s'"
proof -
  note step = step_channel_proceeds [OF assms]
  obtain p where p: "rexpool s = Some p" using assms by (auto simp: channel_proceeds_def the_pool_def)
  show ?thesis
  proof (cases "0 < amount (namebid_proceeds p)")
    case False
    then have "s' = s" using assms p by (auto simp: channel_proceeds_def the_pool_def)
    then show ?thesis by (simp add: price_refl)
  next
    case True
    define s1 where "s1 = channel_to_rex e names_account (namebid_proceeds p) s"
    obtain p1 where p1: "rexpool s1 = Some p1"
      and s': "s' = s1\<lparr>rexpool := Some (p1\<lparr>namebid_proceeds := set_amount 0 (namebid_proceeds p1)\<rparr>)\<rparr>"
      using assms True p by (auto simp: channel_proceeds_def the_pool_def s1_def Let_def)
    have "price_kept s s'" if r: "room cs X d s s'"
    proof -
      have "symbol (namebid_proceeds p) = cs" using r rex_okD(1) [OF _ p] pool_okD(7) by (auto simp: room_def)
      then have "price_step cs X d s X d s1" unfolding s1_def using True by (intro price_channel_to_rex) simp_all
      moreover have "room cs X d s s1" using r by (rule room_shorten [rotated]) (simp add: s' sends_def)
      ultimately show ?thesis
        by (simp add: price_step_def price_kept_def s' lendable_def rex_units_def p1)
    qed
    then show ?thesis using step by (simp add: price_step_def)
  qed
qed

section \<open>Loans\<close>

text \<open>A round of the loop over expired loans returns tokens to the pool and may renew the loan.\<close>

lemma loan_pools [simp]: "rexpool (put_loans r t s) = rexpool s" "loans r (s\<lparr>rexpool := x\<rparr>) = loans r s"
  by (cases r; simp)+

lemma rexpool_calls:
  "transfer_to_fund n q s = Inr s' \<Longrightarrow> rexpool s' = rexpool s"
  "limits_for_loan r e n x s = Inr s' \<Longrightarrow> rexpool s' = rexpool s"
  using writes_unchanged [OF writes_transfer_to_fund, of n q s s' Rexpool]
    writes_unchanged [OF writes_limits_for_loan, of r e n x s s' Rexpool] by simp_all

lemma expired_loan_round_pool:
  assumes "expired_loan_round r e s = Inr (Some s')" "asset_laws e"
  obtains k l p p1 where "tfind k (loans r s) = Some l \<or> \<not> twf (loans r s)" "rexpool s = Some p"
    "remove_loan_from_rex_pool l p = Inr p1"
    "rexpool s' = Some p1 \<or> amount (loan_payment l) \<le> amount (loan_balance l) \<and>
       (\<exists>rented. rexpool s' = Some (add_loan_to_rex_pool (loan_payment l) rented False p1))"
proof -
  obtain k l rest where idx: "tindex by_expr (loans r s) = (k, l) # rest"
    using assms(1) by (auto simp: expired_loan_round_def split: list.splits)
  have l: "tfind k (loans r s) = Some l \<or> \<not> twf (loans r s)" using idx tindex_hd_find by fastforce
  obtain x where x: "process_expired_loan r e k l s = Inr x"
    and rest: "(case x of (del, delta, s1) \<Rightarrow>
        ebind (if delta \<noteq> 0 then limits_for_loan r e (loan_receiver l) delta s1 else Inr s1) (\<lambda>s2.
        Inr (Some (if del then put_loans r (terase k (loans r s2)) s2 else s2)))) = Inr (Some s')"
    using assms(1) idx by (auto simp: expired_loan_round_def split: if_split_asm)
  obtain del delta s1 where xs: "x = (del, delta, s1)" by (cases x)
  have same: "rexpool s' = rexpool s1"
    using rest xs by (auto split: if_split_asm dest!: rexpool_calls)
  obtain p p1 where p: "rexpool s = Some p" "remove_loan_from_rex_pool l p = Inr p1"
    using x by (auto simp: process_expired_loan_def the_pool_def)
  have "rexpool s1 = Some p1 \<or> amount (loan_payment l) \<le> amount (loan_balance l) \<and>
       (\<exists>rented. rexpool s1 = Some (add_loan_to_rex_pool (loan_payment l) rented False p1))"
    using x p assms(2) unfolding xs
    by (auto simp: process_expired_loan_def the_pool_def Let_def asset_le_law split: if_split_asm prod.splits
        dest!: rexpool_calls)
  with that l p same show ?thesis by metis
qed

lemma price_expired_loan_round:
  assumes e: "asset_laws e" and r: "expired_loan_round r e s = Inr (Some s')"
  shows "price_step cs X 0 s X 0 s'"
proof -
  have "price_kept s s'" if rm: "room cs X 0 s s'"
  proof -
    have ok: "rex_ok cs X s" using rm by (simp add: room_def)
    have o: "outbox s' = outbox s" using writes_unchanged [OF writes_expired_loan_round [OF r], of Outbox] by simp
    obtain k l p p1 where l: "tfind k (loans r s) = Some l \<or> \<not> twf (loans r s)" and p: "rexpool s = Some p"
      and p1: "remove_loan_from_rex_pool l p = Inr p1"
      and s': "rexpool s' = Some p1 \<or> amount (loan_payment l) \<le> amount (loan_balance l) \<and>
         (\<exists>rented. rexpool s' = Some (add_loan_to_rex_pool (loan_payment l) rented False p1))"
      by (rule expired_loan_round_pool [OF r e])
    note ok1 = pool_ok_remove_loan [OF rex_okD(1) [OF ok p] p1]
    have lk: "tfind k (loans r s) = Some l" "loan_ok l"
      using l loans_ok_of [OF ok, of r] by (auto simp: loans_ok_def)
    have "amount (loan_balance l) + lendable s \<le> rex_cap"
      using loan_le_sum [OF loans_ok_of [OF ok] lk(1)] loan_le_owed [OF ok, of r] rm o by (simp add: room_def inflow_def)
    then have pay: "amount (loan_payment l) \<le> amount (loan_balance l) \<Longrightarrow> amount (total_lendable p1) + amount (loan_payment l) \<le> rex_cap"
      using ok1(2) by (simp add: lendable_def p)
    have u: "0 \<le> rex_units s" using rex_units_bounds [OF ok] by simp
    from s' show ?thesis
    proof
      assume "rexpool s' = Some p1"
      then show ?thesis using ok1 p by (simp add: price_kept_def lendable_def rex_units_def)
    next
      assume "amount (loan_payment l) \<le> amount (loan_balance l) \<and>
         (\<exists>rented. rexpool s' = Some (add_loan_to_rex_pool (loan_payment l) rented False p1))"
      then obtain rented where le: "amount (loan_payment l) \<le> amount (loan_balance l)"
        and p2: "rexpool s' = Some (add_loan_to_rex_pool (loan_payment l) rented False p1)" by blast
      have "0 \<le> amount (loan_payment l)" using lk(2) by (simp add: loan_ok_def)
      from pool_ok_add_loan(2,3) [OF ok1(1) this pay [OF le], of rented False] this show ?thesis
        using ok1(2,3) p p2 u by (intro price_kept_grows) (simp_all add: lendable_def rex_units_def)
    qed
  qed
  then show ?thesis using step_expired_loan_round [OF assms] by (simp add: price_step_def)
qed

lemma price_process_loans:
  assumes "asset_laws e"
  shows "process_loans r e n s = Inr s' \<Longrightarrow> price_step cs X 0 s X 0 s'"
proof (induction n arbitrary: s)
  case (Suc n)
  then obtain nxt where r: "expired_loan_round r e s = Inr nxt"
    and c: "(case nxt of None \<Rightarrow> Inr s | Some s' \<Rightarrow> process_loans r e n s') = Inr s'" by auto
  show ?case
  proof (cases nxt)
    case (Some s1)
    have "price_step cs X 0 s X 0 s1" by (rule price_expired_loan_round [OF assms]) (use r Some in simp)
    also have "price_step cs X 0 s1 X 0 s'" by (rule Suc.IH) (use c Some in simp)
    finally show ?thesis .
  qed (use c in \<open>simp add: price_refl\<close>)
qed (simp add: price_refl)

section \<open>Orders\<close>

text \<open>A sale takes the rounded-down share of the pool.\<close>

lemma fill_order_kept:
  assumes ok: "rex_ok cs X s" and f: "fill_order_of e owner rb rex s = Inr (oc, s')" "success oc"
    and rb: "tfind owner (rexbalance s) = Some rb" and x: "0 \<le> amount rex" "amount rex \<le> matured_rex rb"
  shows "price_kept s s'"
proof -
  obtain cs' p p' rb' where p: "rexpool s = Some p" and fill: "fill_rex_order e cs' rex p rb = Inr (oc, p', rb')"
    and s': "s' = s\<lparr>rexpool := Some p', rexbalance := AList.update owner rb' (rexbalance s)\<rparr>"
    by (rule fill_order_of_parts [OF f(1)])
  have le: "amount (rex_held rb) \<le> amount (total_rex p)"
    using held_of_le [OF ok, of owner] by (simp add: held_of_def rb rex_units_def p)
  note pk = rex_okD(1) [OF ok p] and bk = rex_okD(4) [OF ok rb]
  note r = fill_rex_order_filled [OF pk bk le x fill f(2)]
  define S R x where d: "S = amount (total_lendable p)" "R = amount (total_rex p)" "x = amount rex"
  have xR: "0 \<le> x" "x \<le> R" using assms(5,6) le balance_okD(2) [OF bk] by (simp_all add: d)
  obtain pr where pr: "muldiv128 x S R = Inr pr" "amount (proceeds oc) = pr"
    using fill f(2) by (auto simp: fill_rex_order_def Let_def d split: if_split_asm)
  have "u128 R \<noteq> 0" using pr(1) by (auto simp: muldiv128_def)
  then have R: "0 < R" using pool_okD(3) [OF pk] by (cases "R = 0") (auto simp: d u128_def)
  have S: "0 \<le> S" "S \<le> rex_cap" "R \<le> rex_limit" using pool_okD [OF pk] by (simp_all add: d rex_limit_def)
  note sh = sell_shares [OF xR R S(1)]
  have "muldiv128 x S R = Inr (x * S div R)"
    using xR R S sh by (intro muldiv128_exact) (simp_all add: rex_cap_def rex_limit_def)
  then have "pr = x * S div R" using pr(1) by simp
  then have "S * (R - x) \<le> (S - pr) * R" using sh(3) by simp
  then show ?thesis using r(3,4) pr(2) p R by (simp add: price_kept_def s' lendable_def rex_units_def d)
qed

lemma fill_queued_pool:
  assumes "fill_queued_order e (owner, r) s = Inr s'" "tfind owner (rexbalance s) = Some rb"
  obtains oc s1 where "fill_order_of e owner rb (rex_requested r) s = Inr (oc, s1)" "rexpool s' = rexpool s1"
  using assms by (auto simp: fill_queued_order_def send_inline_def)

lemma price_fill_queued:
  assumes f: "fill_queued_order e (owner, r) s = Inr s'" and r: "tfind owner (rexorders s) = Some r" "is_open r"
    and X: "owner \<notin> X"
  shows "price_step cs X 0 s X 0 s'"
proof -
  have "price_kept s s'" if "room cs X 0 s s'"
  proof -
    have ok: "rex_ok cs X s" using that by (simp add: room_def)
    have o: "0 < amount (rex_requested r)" "amount (rex_requested r) \<le> matured_of s owner"
      using rex_okD(5) [OF ok r(1)] r(2) X by (simp_all add: order_ok_def)
    then obtain rb where rb: "tfind owner (rexbalance s) = Some rb" "amount (rex_requested r) \<le> matured_rex rb"
      by (auto simp: matured_of_def split: option.splits)
    obtain oc s1 where fill: "fill_order_of e owner rb (rex_requested r) s = Inr (oc, s1)" and same: "rexpool s' = rexpool s1"
      by (rule fill_queued_pool [OF f rb(1)])
    have "price_kept s s1"
    proof (cases "success oc")
      case True
      then show ?thesis using fill_order_kept [OF ok fill True rb(1) _ rb(2)] o(1) by simp
    next
      case False
      then show ?thesis using fill_failure(1) [OF fill False rb(1)] by (simp add: price_kept_same)
    qed
    then show ?thesis using same by (simp add: price_kept_def lendable_def rex_units_def)
  qed
  then show ?thesis using step_fill_queued [OF assms] by (simp add: price_step_def)
qed

lemma price_fill_all:
  assumes "efold (fill_queued_order e) xs s = Inr s'" "distinct (map fst xs)"
    and "\<And>n r. (n, r) \<in> set xs \<Longrightarrow> tfind n (rexorders s) = Some r \<and> is_open r \<and> n \<notin> X"
  shows "price_step cs X 0 s X 0 s'"
  using assms
proof (induction xs arbitrary: s)
  case (Cons x xs)
  obtain n r where x: "x = (n, r)" by force
  obtain s1 where s1: "fill_queued_order e (n, r) s = Inr s1" "efold (fill_queued_order e) xs s1 = Inr s'"
    using Cons.prems(1) x by auto
  have "price_step cs X 0 s X 0 s1"
    using Cons.prems(3) [of n r] x by (intro price_fill_queued [OF s1(1)]) auto
  also have "price_step cs X 0 s1 X 0 s'"
  proof (rule Cons.IH [OF s1(2)])
    show "distinct (map fst xs)" using Cons.prems(2) by simp
    fix m q
    assume m: "(m, q) \<in> set xs"
    then have "m \<noteq> n" using Cons.prems(2) x by force
    then show "tfind m (rexorders s1) = Some q \<and> is_open q \<and> m \<notin> X"
      using fill_queued_others [OF s1(1)] Cons.prems(3) [of m q] m by simp
  qed
  finally show ?case .
qed (simp add: price_refl)

lemma price_process_orders:
  assumes "process_orders e n s = Inr s'"
  shows "price_step cs {} 0 s {} 0 s'"
proof -
  have "price_kept s s'" if r: "room cs {} 0 s s'"
  proof -
    have "rex_ok cs {} s" using r by (simp add: room_def)
    from price_fill_all [OF assms [unfolded process_orders_def] queue_rows [OF this]] show ?thesis
      using r by (simp add: price_step_def)
  qed
  then show ?thesis using step_process_orders [OF assms] by (simp add: price_step_def)
qed

lemma price_runrex:
  assumes "asset_laws e" "runrex e n s = Inr s'"
  shows "price_step cs {} 0 s {} 0 s'"
proof -
  obtain s1 s2 s3 where s1: "channel_proceeds e s = Inr s1" and s2: "process_loans CPU e n s1 = Inr s2"
    and s3: "process_loans NET e n s2 = Inr s3" and s': "process_orders e n s3 = Inr s'"
    using assms(2) by (auto simp: runrex_def)
  have "price_step cs {} 0 s {} 0 s1" by (rule price_channel_proceeds [OF s1])
  also have "price_step cs {} 0 s1 {} 0 s2" by (rule price_process_loans [OF assms(1) s2])
  also have "price_step cs {} 0 s2 {} 0 s3" by (rule price_process_loans [OF assms(1) s3])
  also have "price_step cs {} 0 s3 {} 0 s'" by (rule price_process_orders [OF s'])
  finally show ?thesis .
qed

section \<open>Buying\<close>

text \<open>A purchase from a pool that has REX issues the rounded-down share.\<close>

lemma add_to_rex_pool_kept:
  assumes e: "asset_laws e" and a: "add_to_rex_pool e q s = Inr (got, s')" and cs: "core_symbol s = Inr cs"
    and ok: "rex_ok cs X s" and q: "0 < amount q" "owed s + amount q \<le> rex_cap" and R: "0 < rex_units s"
  shows "price_kept s s'"
proof -
  obtain p where p: "rexpool s = Some p" using R by (auto simp: rex_units_def split: option.splits)
  define S R where d: "S = amount (total_lendable p)" "R = amount (total_rex p)"
  note pk = pool_okD [OF rex_okD(1) [OF ok p]]
  have cap: "S + amount q \<le> rex_cap" using owed_parts(1-5) [OF ok] q(2) by (simp add: owed_def lendable_def p d)
  have i: "i64 (S + amount q) = S + amount q"
    using cap q(1) pk(1) by (intro i64_id) (simp_all add: d rex_cap_def)
  have R0: "0 < R" using assms(7) by (simp add: d rex_units_def p)
  obtain R1 x where S: "0 < S" and R1: "muldiv128 (S + amount q) R S = Inr R1"
    and s': "s' = s\<lparr>rexpool := Some (p\<lparr>total_lendable := set_amount (S + amount q) (total_lendable p),
      total_rex := set_amount R1 (total_rex p), total_unlent := x\<rparr>)\<rparr>"
    using a cs p R0 i by (auto simp: add_to_rex_pool_def Let_def d)
  note b = buy_shares [OF S less_imp_le [OF R0] less_imp_le [OF q(1)]]
    ratio_buy [OF S less_imp_le [OF R0] less_imp_le [OF q(1)], of rex_ratio]
  have "rex_ratio * (S + amount q) \<le> 4000000000000000000" using cap by (simp add: rex_ratio_def rex_cap_def)
  then have "(S + amount q) * R div S \<le> 4000000000000000000" "R \<le> 4000000000000000000"
    using b(1,3) pk(4,5) by (simp_all add: d)
  then have "muldiv128 (S + amount q) R S = Inr ((S + amount q) * R div S)"
    using S R0 q cap by (intro muldiv128_exact) (simp_all add: rex_cap_def)
  then have "R1 = (S + amount q) * R div S" using R1 by simp
  then have "S * R1 \<le> (S + amount q) * R" using b(2) by (simp add: mult.commute)
  then show ?thesis using R0 p by (simp add: price_kept_def s' lendable_def rex_units_def d)
qed

lemma price_buy:
  assumes e: "asset_laws e" and a: "add_to_rex_pool e q s = Inr (got, s1)" and b: "add_to_rex_balance e n q got s1 = Inr (delta, s')"
    and cs: "core_symbol s = Inr cs" and q: "0 < amount q" and R: "0 < rex_units s"
  shows "price_step cs X (amount q) s X 0 s'"
proof -
  have same: "rexpool s' = rexpool s1" "outbox s' = outbox s"
    using writes_unchanged [OF writes_add_to_rex_balance [OF b], of Rexpool]
      writes_unchanged [OF writes_add_to_rex_balance [OF b], of Outbox]
      writes_unchanged [OF writes_add_to_rex_pool [OF a], of Outbox] by simp_all
  have "price_kept s s'" if r: "room cs X (amount q) s s'"
  proof -
    have "rex_ok cs X s" "owed s + amount q \<le> rex_cap" using r same(2) by (simp_all add: room_def inflow_def)
    from add_to_rex_pool_kept [OF e a cs this(1) q this(2) R] show ?thesis
      using same(1) by (simp add: price_kept_def lendable_def rex_units_def)
  qed
  then show ?thesis using step_buy [OF assms(1-5)] by (simp add: price_step_def)
qed

section \<open>Actions\<close>

lemma price_writes:
  assumes "writes F s s'" "F \<inter> {Rexpool, Rexfunds, Rexbalance, Rexorders, Cpuloans, Netloans} = {}" "Outbox \<notin> F"
  shows "price_step cs X d s X d s'"
  using writes_unchanged [OF assms(1), of Rexpool] assms(2) by (intro price_same [OF rex_step_writes [OF assms]]) auto

lemma price_send: "keeps_rex a \<Longrightarrow> price_step cs X d s X d (send_inline a s)"
  by (rule price_same [OF step_send]) (simp_all add: send_inline_def)

text \<open>The rest of an action, after its last step on the pool.\<close>

definition unpriced :: "sys \<Rightarrow> sys \<Rightarrow> bool" where
  "unpriced s s' \<longleftrightarrow> sends s s' \<and> rexpool s' = rexpool s"

lemma unpriced_trans [trans]: "unpriced s s1 \<Longrightarrow> unpriced s1 s2 \<Longrightarrow> unpriced s s2"
  by (auto simp: unpriced_def intro: sends_trans)

lemma unpriced_writes: "writes F s s' \<Longrightarrow> Rexpool \<notin> F \<Longrightarrow> Outbox \<notin> F \<Longrightarrow> unpriced s s'"
  using writes_unchanged [of F s s' Rexpool] by (auto simp: unpriced_def intro: sends_writes)

lemma unpriced_same: "outbox s' = outbox s \<Longrightarrow> rexpool s' = rexpool s \<Longrightarrow> unpriced s s'"
  by (simp add: unpriced_def sends_same)

lemma unpriced_put_rex_balance: "unpriced s (put_rex_balance n rb s)"
  by (rule unpriced_same) (simp_all add: put_rex_balance_def)

lemma unpriced_result: "unpriced s (send_inline (RexResult r) s)"
  by (simp add: unpriced_def sends_inline) (simp add: send_inline_def)

lemmas unpriced_parts = writes_update_rex_account [THEN unpriced_writes, simplified]
  writes_settle_account [THEN unpriced_writes, simplified] writes_queue_order [THEN unpriced_writes, simplified]
  writes_update_resource_limits [THEN unpriced_writes, simplified]

lemma price_rest:
  "price_step cs X d s X1 d1 s1 \<Longrightarrow> unpriced s1 s' \<Longrightarrow> rex_step cs X d s X' d' s' \<Longrightarrow> price_step cs X d s X' d' s'"
  unfolding unpriced_def by (elim conjE) (rule price_then_unpriced)

text \<open>Actions that start with \<open>runrex\<close> and then do not touch the pool.\<close>

lemma unpriced_balances:
  "updaterex e n s = Inr s' \<Longrightarrow> \<exists>s1. runrex e 2 s = Inr s1 \<and> unpriced s1 s'"
  "consolidate e n s = Inr s' \<Longrightarrow> \<exists>s1. runrex e 2 s = Inr s1 \<and> unpriced s1 s'"
  by (auto simp: updaterex_def consolidate_def Let_def split: prod.splits if_split_asm
      intro: unpriced_trans [OF unpriced_put_rex_balance] unpriced_trans [OF _ unpriced_put_rex_balance] dest!: unpriced_parts)

lemma unpriced_savings:
  "mvtosavings e n q s = Inr s' \<Longrightarrow> \<exists>s1. runrex e 2 s = Inr s1 \<and> unpriced s1 s'"
  "mvfrsavings e n q s = Inr s' \<Longrightarrow> \<exists>s1. runrex e 2 s = Inr s1 \<and> unpriced s1 s'"
  by (auto simp: mvtosavings_def mvfrsavings_def Let_def case_prod_beta
      intro: unpriced_trans [OF _ unpriced_put_rex_balance] unpriced_trans [OF unpriced_put_rex_balance] dest!: unpriced_parts)

lemma unpriced_closerex:
  assumes "closerex e n s = Inr s'"
  shows "\<exists>s1. (if rex_system_initialized s then runrex e 2 s else Inr s) = Inr s1 \<and> unpriced s1 s'"
proof -
  have q: "unpriced s (s\<lparr>rexfunds := x, rexbalance := y\<rparr>)" "unpriced s (s\<lparr>rexfunds := x\<rparr>)" "unpriced s (s\<lparr>rexbalance := y\<rparr>)" for s x y
    by (simp_all add: unpriced_same)
  show ?thesis
    using assms by (auto simp: closerex_def Let_def case_prod_beta split: if_split_asm option.splits
        intro: unpriced_trans [OF _ q(1)] unpriced_trans [OF _ q(2)] unpriced_trans [OF _ q(3)] dest!: unpriced_parts)
qed

lemma price_runrex_rest:
  assumes e: "asset_laws e" and r: "\<exists>s1. runrex e n s = Inr s1 \<and> unpriced s1 s'" and step: "rex_step cs {} 0 s {} 0 s'"
  shows "price_step cs {} 0 s {} 0 s'"
  using r price_rest [OF price_runrex [OF e] _ step] by blast

lemma price_closerex:
  assumes e: "asset_laws e" and a: "closerex e n s = Inr s'"
  shows "price_step cs {} 0 s {} 0 s'"
proof -
  obtain s1 where s1: "(if rex_system_initialized s then runrex e 2 s else Inr s) = Inr s1" and q: "unpriced s1 s'"
    using unpriced_closerex [OF a] by blast
  have "price_step cs {} 0 s {} 0 s1" using s1 by (auto intro: price_runrex [OF e] price_refl split: if_split_asm)
  then show ?thesis using q step_closerex [OF e a] by (rule price_rest)
qed

text \<open>Selling.\<close>

lemma unpriced_finish_sell: "finish_sell e n rex oc s = Inr s' \<Longrightarrow> unpriced s s'"
  by (auto simp: finish_sell_def split: if_split_asm dest!: unpriced_parts
      intro: unpriced_trans [OF _ unpriced_result] unpriced_trans)

lemma price_sellrex:
  assumes e: "asset_laws e" and a: "sellrex e n rex s = Inr s'"
  shows "price_step cs {} 0 s {} 0 s'"
proof -
  obtain s1 rb0 where s1: "runrex e 2 s = Inr s1" and rb0: "tfind n (rexbalance s1) = Some rb0"
    and x: "0 < amount rex" and xm: "amount rex \<le> matured_rex (process_rex_maturities e rb0)"
    and c: "ebind (fill_order_of e n (process_rex_maturities e rb0) rex (put_rex_balance n (process_rex_maturities e rb0) s1))
      (\<lambda>(oc, s3). check (\<not> (success oc \<and> amount (proceeds oc) = 0)) ''proceeds are negligible''
        (finish_sell e n rex oc s3)) = Inr s'"
    using a by (auto simp: sellrex_def Let_def the_rex_balance_def)
  define rb where "rb = process_rex_maturities e rb0"
  define s2 where "s2 = put_rex_balance n rb s1"
  have rb: "tfind n (rexbalance s2) = Some rb" by (simp add: s2_def put_rex_balance_def)
  obtain oc s3 where s3: "fill_order_of e n rb rex s2 = Inr (oc, s3)" and fin: "finish_sell e n rex oc s3 = Inr s'"
    using c by (auto simp: s2_def rb_def)
  have "price_step cs {} 0 s {} 0 s1" by (rule price_runrex [OF e s1])
  also have "price_step cs {} 0 s1 {} 0 s2"
    unfolding s2_def rb_def by (rule price_same [OF step_process_maturities [OF rb0]]) (simp add: put_rex_balance_def)
  finally have 2: "price_step cs {} 0 s {} 0 s2" .
  show ?thesis
  proof (cases "success oc")
    case False
    have "s3 = s2" using fill_failure [OF s3 False rb] by simp
    then show ?thesis using price_rest [OF 2 _ step_sellrex [OF e a]] unpriced_finish_sell [OF fin] by simp
  next
    case True
    have "price_step cs {} 0 s2 {n} (0 + amount (proceeds oc)) s3"
      using step_fill_success [OF s3 True rb, of cs "{}" 0] fill_order_kept [OF _ s3 True rb, of cs "{}"] x xm
      by (simp add: price_step_def room_def rb_def)
    from price_rest [OF price_step_trans [OF 2 this] unpriced_finish_sell [OF fin] step_sellrex [OF e a]] show ?thesis .
  qed
qed

text \<open>Buying, from a pool that has REX.\<close>

lemma units_writes: "writes F s s' \<Longrightarrow> Rexpool \<notin> F \<Longrightarrow> rex_units s' = rex_units s"
  using writes_unchanged [of F s s' Rexpool] by (simp add: rex_units_def)

lemma price_buyrex:
  assumes e: "asset_laws e" and a: "buyrex e n q s = Inr s'" and cs: "core_symbol s = Inr cs" and R: "0 < rex_units s"
  shows "price_step cs {} 0 s {} 0 s'"
proof -
  obtain s1 got s2 delta s3 s4 pending s5 where q: "0 < amount q"
    and s1: "transfer_from_fund e n q s = Inr s1" and s2: "add_to_rex_pool e q s1 = Inr (got, s2)"
    and s3: "add_to_rex_balance e n q got s2 = Inr (delta, s3)" and s4: "runrex e 2 s3 = Inr s4"
    and s5: "update_rex_account e n (mk_asset 0 cs) delta False s4 = Inr (pending, s5)"
    and s': "s' = send_inline (RexResult (BuyResult got)) s5"
    using a cs by (auto simp: buyrex_def)
  note w = writes_transfer_from_fund [OF s1]
  have 1: "core_symbol s1 = Inr cs" "0 < rex_units s1" "rexpool s1 = rexpool s"
    using writes_core_symbol [OF w] units_writes [OF w] writes_unchanged [OF w, of Rexpool] cs R by simp_all
  have "price_step cs {} 0 s {} (0 + amount q) s1" by (rule price_same [OF step_transfer_from_fund [OF e s1] 1(3)])
  also have "price_step cs {} (0 + amount q) s1 {} 0 s3" using price_buy [OF e s2 s3 1(1) q 1(2)] by simp
  also have "price_step cs {} 0 s3 {} 0 s4" by (rule price_runrex [OF e s4])
  finally have 4: "price_step cs {} 0 s {} 0 s4" .
  have "unpriced s4 s'" using unpriced_trans [OF unpriced_parts(1) [OF s5] unpriced_result] by (simp add: s')
  with 4 show ?thesis using step_buyrex [OF e a cs] by (rule price_rest)
qed

lemma price_unstaketorex:
  assumes e: "asset_laws e" and a: "unstaketorex e n m from_net from_cpu s = Inr s'" and cs: "core_symbol s = Inr cs"
    and R: "0 < rex_units s"
  shows "price_step cs {} 0 s {} 0 s'"
proof -
  obtain s1 s2 q got s3 s4 delta s5 s6 pending s7 where sy: "symbol from_net = cs" "symbol from_cpu = cs"
    and s1: "unstake_for_rex n m from_net from_cpu s = Inr s1"
    and s2: "update_resource_limits e m (i64 (- amount from_net)) (i64 (- amount from_cpu)) s1 = Inr s2"
    and q: "asset_plus e from_net from_cpu = Inr q"
    and s3: "s3 = send_inline (send_transfer [stake_account] stake_account rex_account q ''buy REX with staked tokens'') s2"
    and s4: "add_to_rex_pool e q s3 = Inr (got, s4)" and s5: "add_to_rex_balance e n q got s4 = Inr (delta, s5)"
    and s6: "runrex e 2 s5 = Inr s6"
    and s7: "update_rex_account e n (mk_asset 0 cs) (mk_asset 0 cs) True s6 = Inr (pending, s7)"
    and s': "s' = send_inline (RexResult (BuyResult got)) s7"
    using a cs by (auto simp: unstaketorex_def Let_def)
  note w1 = writes_unstake_for_rex [OF s1] and w2 = writes_update_resource_limits [OF s2]
  have qs: "symbol q = cs" using q sy e by (auto simp: asset_plus_i64 split: if_split_asm)
  have 3: "core_symbol s3 = Inr cs" "0 < rex_units s3"
    using writes_core_symbol [OF w1] writes_core_symbol [OF w2] units_writes [OF w1] units_writes [OF w2] cs R
    by (simp_all add: s3) (simp add: rex_units_def send_inline_def)
  have unpriced: "unpriced s6 s'" using unpriced_trans [OF unpriced_parts(1) [OF s7] unpriced_result] by (simp add: s')
  have 2: "price_step cs {} 0 s {} 0 s2"
    using price_step_trans [OF price_writes [OF w1] price_writes [OF w2]] by simp
  have "price_kept s s'" if r: "room cs {} 0 s s'"
  proof -
    have sends: "sends s3 s'"
    proof -
      have "sends s3 s5"
        by (rule sends_trans [OF sends_writes [OF writes_add_to_rex_pool [OF s4]] sends_writes [OF writes_add_to_rex_balance [OF s5]]]) simp_all
      moreover have "sends s5 s6" using price_stepD [OF price_runrex [OF e s6]] by (simp add: rex_step_def)
      ultimately show ?thesis using unpriced sends_trans by (auto simp: unpriced_def)
    qed
    have "all_positive s3" using r all_positive_before [OF sends] by (simp add: room_def)
    then have pos: "0 < amount q" by (simp add: s3 all_positive_def send_inline_def send_transfer_def)
    note 2
    also have "price_step cs {} 0 s2 {} (0 + amount q) s3"
      unfolding s3 using pos qs by (intro price_same [OF step_pay_in]) (auto simp: send_inline_def)
    also have "price_step cs {} (0 + amount q) s3 {} 0 s5" using price_buy [OF e s4 s5 3(1) pos 3(2)] by simp
    also have "price_step cs {} 0 s5 {} 0 s6" by (rule price_runrex [OF e s6])
    finally have "price_step cs {} 0 s {} 0 s'"
      using unpriced step_unstaketorex [OF e a cs] by (rule price_rest)
    then show ?thesis using r by (simp add: price_step_def)
  qed
  then show ?thesis using step_unstaketorex [OF e a cs] by (simp add: price_step_def)
qed

text \<open>Renting: the payment enters the pool.\<close>

lemma price_add_loan:
  assumes "rexpool s = Some p" "0 \<le> amount q" "0 \<le> d"
  shows "price_step cs X (d + amount q) s X d (s\<lparr>rexpool := Some (add_loan_to_rex_pool q rented new p)\<rparr>)"
proof -
  have "price_kept s (s\<lparr>rexpool := Some (add_loan_to_rex_pool q rented new p)\<rparr>)"
    if r: "room cs X (d + amount q) s (s\<lparr>rexpool := Some (add_loan_to_rex_pool q rented new p)\<rparr>)"
  proof -
    have ok: "rex_ok cs X s" and cap: "owed s + (d + amount q) \<le> rex_cap" using r by (simp_all add: room_def inflow_def)
    have "amount (total_lendable p) + amount q \<le> rex_cap"
      using owed_parts(1-5) [OF ok] cap assms(1,3) by (simp add: owed_def lendable_def)
    from pool_ok_add_loan(2,3) [OF rex_okD(1) [OF ok assms(1)] assms(2) this, of rented new] show ?thesis
      using assms(1,2) rex_units_bounds [OF ok] by (intro price_kept_grows) (simp_all add: lendable_def rex_units_def)
  qed
  then show ?thesis using step_add_loan [OF assms] by (simp add: price_step_def)
qed

lemma price_rent_rex:
  assumes e: "asset_laws e" and a: "rent_rex r e n m q f s0 = Inr (rented, s')" and t: "asset_typed q" "asset_typed f"
  shows "price_step cs {} 0 s0 {} 0 s'"
proof -
  obtain s tot s1 p staked tb where s: "runrex e 2 s0 = Inr s" and pos: "0 < amount q" "0 \<le> amount f"
    and tot: "asset_plus e q f = Inr tot" and s1: "transfer_from_fund e n tot s = Inr s1" and p: "rexpool s1 = Some p"
    and s': "s' = send_inline (RexResult (RentResult staked))
       (put_loans r tb (s1\<lparr>rexpool := Some (add_loan_to_rex_pool q rented True p)\<rparr>))"
    using a by (auto simp: rent_rex_def the_pool_def Let_def simp del: templace_eq_Inr)
  have "0 < amount tot" using transfer_from_fund_parts [OF e s1] by blast
  moreover have tot': "amount tot = i64 (amount q + amount f)"
    using tot e by (auto simp: asset_plus_i64 split: if_split_asm)
  ultimately have sum: "amount tot = amount f + amount q"
    using t pos i64_positive [of "amount q + amount f"] by (simp add: asset_typed_def)
  define s2 where "s2 = s1\<lparr>rexpool := Some (add_loan_to_rex_pool q rented True p)\<rparr>"
  have same: "rexpool s1 = rexpool s" using writes_unchanged [OF writes_transfer_from_fund [OF s1], of Rexpool] by simp
  have "price_step cs {} 0 s0 {} 0 s" by (rule price_runrex [OF e s])
  also have "price_step cs {} 0 s {} (0 + amount tot) s1" by (rule price_same [OF step_transfer_from_fund [OF e s1] same])
  also have "price_step cs {} (0 + amount tot) s1 {} (amount f) s2"
    using price_add_loan [OF p, of q "amount f"] pos sum by (simp add: s2_def)
  finally have 2: "price_step cs {} 0 s0 {} (amount f) s2" .
  have "unpriced s2 s'" unfolding s' s2_def [symmetric] by (rule unpriced_trans [OF unpriced_same unpriced_result]) simp_all
  with 2 show ?thesis using step_rent_rex [OF e a t] by (rule price_rest)
qed

lemma price_rent:
  assumes "asset_laws e" "asset_typed q" "asset_typed f"
  shows "rentcpu e n m q f s = Inr s' \<Longrightarrow> price_step cs {} 0 s {} 0 s'"
    "rentnet e n m q f s = Inr s' \<Longrightarrow> price_step cs {} 0 s {} 0 s'"
proof -
  have u: "price_step cs {} 0 s {} 0 s'"
    if "rent_rex r e n m q f s = Inr (x, s1)" "update_resource_limits e m a b s1 = Inr s'" for r x s1 a b
    by (rule price_step_trans [OF price_rent_rex [OF assms(1) that(1) assms(2,3)]
        price_writes [OF writes_update_resource_limits [OF that(2)]]]) simp_all
  show "rentcpu e n m q f s = Inr s' \<Longrightarrow> price_step cs {} 0 s {} 0 s'"
    "rentnet e n m q f s = Inr s' \<Longrightarrow> price_step cs {} 0 s {} 0 s'"
    by (auto simp: rentcpu_def rentnet_def intro: u)
qed

text \<open>RAM: the fee enters the pool.\<close>

lemma price_ram_fee:
  assumes "symbol fee = cs" "n \<noteq> rex_account" "s1 = send_inline (send_transfer signers n ramfee_account fee memo) s"
  shows "price_step cs {} 0 s {} 0 (if 0 < amount fee then channel_to_rex e ramfee_account fee s1 else s)"
proof (cases "0 < amount fee")
  case True
  have "price_step cs {} 0 s {} 0 s1"
    unfolding assms(3) using assms(2) by (intro price_send) (simp add: send_transfer_def)
  also have "price_step cs {} 0 s1 {} 0 (channel_to_rex e ramfee_account fee s1)"
    using True assms(1) by (intro price_channel_to_rex) simp_all
  finally show ?thesis using True by simp
qed (simp add: price_refl)

lemma price_buyram:
  assumes a: "buyram e n m quant s0 = Inr s'" and auth: "not_signed_by_rex e" and cs: "core_symbol s0 = Inr cs"
  shows "price_step cs {} 0 s0 {} 0 s'"
proof (rule buyram_rex_parts [OF a auth cs])
  fix s fee q s1 s2 out s3 g
  assume n: "n \<noteq> rex_account" and s: "update_ram_supply e s0 = Inr s" and sy: "symbol fee = cs"
    and s1: "s1 = send_inline (send_transfer [n, ram_account] n ram_account q ''buy ram'') s"
    and s2: "s2 = (if 0 < amount fee then channel_to_rex e ramfee_account fee
               (send_inline (send_transfer [n] n ramfee_account fee ''ram fee'') s1) else s1)"
    and conv: "convert_market e q ram_symbol (Check ''ram market does not exist'') s2 = Inr (out, s3)"
    and cred: "credit_ram m (amount out) (s3\<lparr>gstate := g\<rparr>) = Inr s'"
  have "price_step cs {} 0 s0 {} 0 s" by (rule price_writes [OF writes_update_ram_supply [OF s]]) simp_all
  also have "price_step cs {} 0 s {} 0 s1" unfolding s1 using n by (intro price_send) (simp add: send_transfer_def)
  also have "price_step cs {} 0 s1 {} 0 s2" unfolding s2 using sy n by (intro price_ram_fee) simp_all
  finally have 2: "price_step cs {} 0 s0 {} 0 s2" .
  have "unpriced s2 s3" by (rule unpriced_writes [OF writes_convert_market [OF conv]]) simp_all
  also have "unpriced s3 (s3\<lparr>gstate := g\<rparr>)" by (rule unpriced_same) simp_all
  also have "unpriced (s3\<lparr>gstate := g\<rparr>) s'" by (rule unpriced_writes [OF writes_credit_ram [OF cred]]) simp_all
  finally have "unpriced s2 s'" .
  with 2 show ?thesis using step_buyram [OF a auth cs] by (rule price_rest)
qed

lemma price_sellram:
  assumes a: "sellram e n b s0 = Inr s'" and auth: "not_signed_by_rex e" and cs: "core_symbol s0 = Inr cs"
  shows "price_step cs {} 0 s0 {} 0 s'"
proof (rule sellram_rex_parts [OF a auth cs])
  fix s sold out fee s1 g t x s3 s4
  assume n: "n \<noteq> rex_account" and s: "update_ram_supply e s0 = Inr s" and sy: "symbol fee = cs"
    and conv: "convert_market e sold cs MissingRow s = Inr (out, s1)"
    and s3: "set_ram_limit n x (s1\<lparr>gstate := g, userres := t\<rparr>) = Inr s3"
    and s4: "s4 = send_inline (send_transfer [ram_account, n] ram_account n out ''sell ram'') s3"
    and s': "s' = (if 0 < amount fee then channel_to_rex e ramfee_account fee
               (send_inline (send_transfer [n] n ramfee_account fee ''sell ram fee'') s4) else s4)"
  have "price_step cs {} 0 s0 {} 0 s" by (rule price_writes [OF writes_update_ram_supply [OF s]]) simp_all
  also have "price_step cs {} 0 s {} 0 s1" by (rule price_writes [OF writes_convert_market [OF conv]]) simp_all
  also have "price_step cs {} 0 s1 {} 0 (s1\<lparr>gstate := g, userres := t\<rparr>)"
    by (rule price_same [OF rex_step_view]) (simp_all add: rex_view_def fund_of_def fun_eq_iff sends_def)
  also have "price_step cs {} 0 (s1\<lparr>gstate := g, userres := t\<rparr>) {} 0 s3"
    by (rule price_writes [OF writes_set_ram_limit [OF s3]]) simp_all
  also have "price_step cs {} 0 s3 {} 0 s4" unfolding s4 by (rule price_send) (simp add: send_transfer_def)
  also have "price_step cs {} 0 s4 {} 0 s'" unfolding s' using n sy by (intro price_ram_fee) simp_all
  finally show ?thesis .
qed

text \<open>Two actions write the pool, but neither its tokens nor its units.\<close>

lemma kept_by_setrex: "setrex e q s = Inr s' \<Longrightarrow> price_kept s s'"
  by (auto simp: setrex_def price_kept_def lendable_def rex_units_def split: option.splits)

definition pool_view :: "sys \<Rightarrow> int \<times> int" where
  "pool_view s = (lendable s, rex_units s)"

lemma pool_view_calls [simp]:
  "pool_view (s\<lparr>gstate := g\<rparr>) = pool_view s" "pool_view (s\<lparr>gstate2 := g2\<rparr>) = pool_view s"
  "pool_view (s\<lparr>namebids := bs\<rparr>) = pool_view s" "pool_view (channel_namebid_to_rex b s) = pool_view s"
  "pool_view (count_block n s) = pool_view s" "pool_view (update_elected_producers e t s) = pool_view s"
  by (simp_all add: pool_view_def lendable_def rex_units_def channel_namebid_to_rex_def count_block_def
      update_elected_producers_def Let_def split: option.splits)

lemma pool_view_close_auction [simp]: "pool_view (close_auction e t s) = pool_view s"
  by (simp add: close_auction_def Let_def split: option.splits)

lemma kept_by_onblock:
  assumes "onblock e t n s = Inr s'"
  shows "price_kept s s'"
proof -
  have "pool_view s' = pool_view s" using assms by (auto simp: onblock_def Let_def split: if_split_asm)
  then show ?thesis by (simp add: pool_view_def price_kept_def)
qed

lemma price_apply:
  assumes e: "sys_env_ok e" "not_signed_by_rex e" and t: "action_ok a" and s': "sys_apply e a s = Inr s'"
    and cs: "core_symbol s = Inr cs" and R: "0 < rex_units s" and r: "room cs {} 0 s s'"
  shows "price_kept s s'"
proof -
  have laws: "asset_laws e" using e(1) by (simp add: sys_env_ok_def)
  have k: "price_step cs {} 0 s {} 0 s' \<Longrightarrow> price_kept s s'" using r by (simp add: price_step_def)
  show ?thesis
  proof (cases "Rexpool \<in> footprint a")
    case False
    then show ?thesis using apply_unchanged [OF s', of Rexpool] by (intro price_kept_same) simp
  next
    case True
    note rest = price_runrex_rest [OF laws]
    show ?thesis
    proof (cases a)
      case (A_buyrex n q)
      then show ?thesis using s' by (intro k price_buyrex [OF laws _ cs R]) simp
    next
      case (A_unstaketorex n m a b)
      then show ?thesis using s' by (intro k price_unstaketorex [OF laws _ cs R]) simp
    next
      case (A_sellrex n q)
      then show ?thesis using s' by (intro k price_sellrex [OF laws]) simp
    next
      case (A_rentcpu n m q f)
      then show ?thesis using s' t by (intro k price_rent(1) [OF laws]) (simp_all add: action_ok_def)
    next
      case (A_rentnet n m q f)
      then show ?thesis using s' t by (intro k price_rent(2) [OF laws]) (simp_all add: action_ok_def)
    next
      case (A_updaterex n)
      then show ?thesis using s' unpriced_balances(1) step_updaterex [OF laws] by (intro k rest) auto
    next
      case (A_consolidate n)
      then show ?thesis using s' unpriced_balances(2) step_consolidate [OF laws] by (intro k rest) auto
    next
      case (A_mvtosavings n q)
      then show ?thesis using s' t unpriced_savings(1) step_mvtosavings [OF laws] by (intro k rest) (auto simp: action_ok_def)
    next
      case (A_mvfrsavings n q)
      then show ?thesis using s' t unpriced_savings(2) step_mvfrsavings [OF laws] by (intro k rest) (auto simp: action_ok_def)
    next
      case (A_rexexec n m)
      then show ?thesis using s' by (intro k price_runrex [OF laws]) (auto simp: rexexec_def)
    next
      case (A_closerex n)
      then show ?thesis using s' by (intro k price_closerex [OF laws]) simp
    next
      case (A_setrex q)
      then show ?thesis using s' kept_by_setrex by simp
    next
      case (A_buyram p n q)
      then show ?thesis using s' by (intro k price_buyram [OF _ e(2) cs]) simp
    next
      case (A_buyrambytes p n b)
      then obtain q where "buyram e p n q s = Inr s'" using s' by (auto simp: buyrambytes_def split: option.splits)
      then show ?thesis by (intro k price_buyram [OF _ e(2) cs])
    next
      case (A_sellram n b)
      then show ?thesis using s' by (intro k price_sellram [OF _ e(2) cs]) simp
    next
      case (A_onblock x n)
      then show ?thesis using s' kept_by_onblock by simp
    qed (use True in simp_all)
  qed
qed

section \<open>The property\<close>

text \<open>
  C10. REX never loses value. From every reachable state in which the exchange has issued REX, no
  transaction of any user lowers the price: the core tokens behind one unit of REX after it are
  at least those before it, whether REX is bought or sold, loans are taken, renewed or expire,
  queued orders are filled, or fees and name bids come in. So a holder who waits never gets less
  for the same REX. As for the solvency, \<open>eosio.rex\<close> signs nothing itself, and the token's
  maximum supply is at most 4 * 10^14 units.
\<close>

theorem rex_price_never_falls:
  assumes "sys_reachable s" and "core_symbol s = Inr cs"
    and "tfind (sym_code cs) (stats (tokens s)) = Some st" and "amount (st_max_supply st) \<le> 400000000000000"
    and "sys_env_ok (e :: sys_env)" "not_signed_by_rex e" "action_ok a" "sys_transact e a s = Inr s'"
    and "rexpool s = Some p" "0 < amount (total_rex p)" "rexpool s' = Some p'"
  shows "amount (total_lendable p) * amount (total_rex p') \<le> amount (total_lendable p') * amount (total_rex p)"
proof -
  have laws: "asset_laws e" using assms(5) by (simp add: sys_env_ok_def)
  note inv = token_inv_reachable [OF assms(1)]
  have s: "s\<lparr>outbox := []\<rparr> = s" using inv by simp
  obtain s1 t where s1: "sys_apply e a s = Inr s1" and r: "run_inline e (outbox s1) (tokens s) = Inr t"
    and s': "s' = s1\<lparr>tokens := t, outbox := []\<rparr>"
    using assms(8) s tokens_apply by (fastforce simp: sys_transact_eq_Inr)
  have c: "custody_ok cs s" using custody_capped [OF assms(1-4)] .
  have kept: "price_kept s s1"
  proof (cases "Rexpool \<in> footprint a")
    case False
    then show ?thesis using apply_unchanged [OF s1, of Rexpool] by (intro price_kept_same) simp
  next
    case True
    then have "a \<noteq> A_withdraw n q" for n q by auto
    then have "rex_step cs {} 0 s {} 0 s1" using step_apply [OF assms(5-7) s1] assms(2) by auto
    then have k: "list_all keeps_rex (outbox s1)" using inv by (auto simp: rex_step_def sends_def)
    have i: "inflow cs s = 0" "inflow cs s1 = (\<Sum>a\<leftarrow>outbox s1. paid_in cs a)"
      using inv by (simp_all add: inflow_def)
    have "balance t rex_account (sym_code cs) = balance (tokens s) rex_account (sym_code cs) + inflow cs s1"
      unfolding i(2) using inv by (intro run_pays_in [OF laws _ k r]) simp
    moreover have "capped cs t"
      using run_keeps_max [OF r assms(3)] assms(4) by (auto simp: capped_def rex_cap_def)
    ultimately have "owed s + inflow cs s1 \<le> rex_cap"
      using capped_balance [of cs t rex_account] token_inv_run_inline [OF laws _ r] inv c by (auto simp: custody_ok_def)
    then have "room cs {} 0 s s1"
      using c i(1) run_inline_positive [OF r] by (simp add: room_def custody_ok_def all_positive_def)
    then show ?thesis
      using price_apply [OF assms(5-7) s1 assms(2)] assms(9,10) by (simp add: rex_units_def)
  qed
  then show ?thesis using assms(9,11) by (simp add: price_kept_def lendable_def rex_units_def s')
qed


text \<open>Five days later alice sells some of her REX, and the order is filled.\<close>

lemma demo_small_sale:
  "case sys_transact (demo_sys_env [alice] 1578268801000000) (A_sellrex alice (mk_asset 123456789 rex_symbol)) demo_rex of
     Inl _ \<Rightarrow> False
   | Inr s' \<Rightarrow> (case rexpool s' of None \<Rightarrow> False
       | Some p \<Rightarrow> amount (total_lendable p) = 500000087655 \<and> amount (total_rex p) = 4999999876543211)"
  by code_simp

theorem rex_price_never_falls_witness:
  "500000100000 * 4999999876543211 \<le> 500000087655 * (5000000000000000 :: int) \<and>
   (\<exists>p. rexpool demo_rex = Some p \<and> amount (total_lendable p) = 500000100000)"
proof -
  let ?a = "A_sellrex alice (mk_asset 123456789 rex_symbol)"
  obtain s' p' where s': "sys_transact (demo_sys_env [alice] 1578268801000000) ?a demo_rex = Inr s'"
    and p': "rexpool s' = Some p'" "amount (total_lendable p') = 500000087655" "amount (total_rex p') = 4999999876543211"
    using demo_small_sale by (auto split: sum.splits option.splits)
  obtain p where p: "rexpool demo_rex = Some p" "amount (total_lendable p) = 500000100000" "amount (total_rex p) = 5000000000000000"
    by (simp add: demo_rex_def eos_def)
  have "action_ok ?a" "not_signed_by_rex (demo_sys_env [alice] 1578268801000000)"
    by (simp_all add: action_ok_def asset_typed_def not_signed_by_rex_demo account_defs example_defs)
  from rex_price_never_falls [OF demo_rex_state _ sys_env_ok_demo this(2,1) s' p(1) _ p'(1)] p p'(2,3) show ?thesis
    by (simp add: eos_def)
qed

end
