(* ===== verification/Authority.thy ===== *)
theory Authority
  imports Demo_Chain Footprint
begin

unbundle bit_operations_syntax

text \<open>
  Who may do what: the signature each action of the system contract needs, and the limits that
  the contract's account takes over from a user and hands back.
\<close>

section \<open>Required signatures\<close>

text \<open>
  \<open>None\<close> for the actions that the contract lets anybody push: the native actions, whose
  authority the chain itself checks, and \<open>bidrefund\<close>, which only pays out.
\<close>

primrec required :: "name \<Rightarrow> sys_action \<Rightarrow> name option" where
  "required me (A_newaccount creator newact) = None"
| "required me (A_setabi acnt abi) = None"
| "required me A_native = None"
| "required me (A_init version core) = Some me"
| "required me (A_setram m) = Some me"
| "required me (A_setramrate r) = Some me"
| "required me (A_setparams p) = Some me"
| "required me (A_setpriv n b) = Some me"
| "required me (A_setalimits n ram net cpu) = Some me"
| "required me (A_setacctram n v) = Some me"
| "required me (A_setacctnet n v) = Some me"
| "required me (A_setacctcpu n v) = Some me"
| "required me (A_rmvproducer n) = Some me"
| "required me (A_updtrevision r) = Some me"
| "required me (A_bidname bidder n bid) = Some bidder"
| "required me (A_bidrefund bidder n) = None"
| "required me (A_deposit n q) = Some n"
| "required me (A_withdraw n q) = Some n"
| "required me (A_buyrex n q) = Some n"
| "required me (A_unstaketorex n r net cpu) = Some n"
| "required me (A_sellrex n q) = Some n"
| "required me (A_cnclrexorder n) = Some n"
| "required me (A_rentcpu n r p f) = Some n"
| "required me (A_rentnet n r p f) = Some n"
| "required me (A_fundcpuloan n i q) = Some n"
| "required me (A_fundnetloan n i q) = Some n"
| "required me (A_defcpuloan n i q) = Some n"
| "required me (A_defnetloan n i q) = Some n"
| "required me (A_updaterex n) = Some n"
| "required me (A_consolidate n) = Some n"
| "required me (A_mvtosavings n q) = Some n"
| "required me (A_mvfrsavings n q) = Some n"
| "required me (A_setrex q) = Some eosio_account"
| "required me (A_rexexec n m) = Some n"
| "required me (A_closerex n) = Some n"
| "required me (A_buyrambytes p r b) = Some p"
| "required me (A_buyram p r q) = Some p"
| "required me (A_sellram n b) = Some n"
| "required me (A_delegatebw f r net cpu t) = Some f"
| "required me (A_undelegatebw f r net cpu) = Some f"
| "required me (A_refund n) = Some n"
| "required me (A_regproducer n k u l) = Some n"
| "required me (A_unregprod n) = Some n"
| "required me (A_voteproducer n p ps) = Some n"
| "required me (A_regproxy n b) = Some n"
| "required me (A_onblock t p) = Some me"
| "required me (A_claimrewards n) = Some n"

lemma changebw_auth: "changebw e f r a b t s = Inr s' \<Longrightarrow> has_auth e f"
  by (simp add: changebw_def)

lemma buyram_auth: "buyram e p r q s = Inr s' \<Longrightarrow> has_auth e p"
  by (simp add: buyram_def)

lemma apply_auth: "sys_apply e a s = Inr s' \<Longrightarrow> required (self e) a = Some n \<Longrightarrow> has_auth e n"
  by (cases a)
    (auto simp: init_def setram_def setramrate_def setparams_def setpriv_def setalimits_def setacctram_def
      setacctnet_def setacctcpu_def rmvproducer_def updtrevision_def bidname_def deposit_def withdraw_def buyrex_def
      unstaketorex_def sellrex_def cnclrexorder_def rentcpu_def rentnet_def fundcpuloan_def fundnetloan_def
      defcpuloan_def defnetloan_def updaterex_def consolidate_def mvtosavings_def mvfrsavings_def setrex_def
      rexexec_def closerex_def buyrambytes_def sellram_def delegatebw_def undelegatebw_def refund_def regproducer_def
      unregprod_def voteproducer_def regproxy_def onblock_def claimrewards_def
      dest!: changebw_auth buyram_auth split: option.splits)

text \<open>
  C32. An action that is not signed as it must be is refused. For every action of the contract's
  dispatch table but the native ones and \<open>bidrefund\<close> there is one account that must have
  signed; without its signature the transaction fails, whatever the state and the arguments. In
  particular only the contract's own account may initialise, govern, or report blocks.
\<close>

theorem unsigned_refused:
  assumes "required (self e) a = Some n" and "\<not> has_auth e n"
  shows "\<exists>err. sys_transact e a s = Inl err"
proof (cases "sys_transact e a s")
  case (Inr s')
  then obtain s1 where "sys_apply e a (s\<lparr>outbox := []\<rparr>) = Inr s1" by (auto simp: sys_transact_def)
  then show ?thesis using apply_auth assms by blast
qed simp

theorem unsigned_refused_witness:
  "\<exists>err. sys_transact (demo_sys_env [bob] 0) (A_sellram alice 100) demo_ready = Inl err"
  by (rule unsigned_refused [where n = alice]) (simp_all add: demo_sys_env_def env.defs ref_env_def example_defs)

section \<open>Managed resources\<close>

lemma fields_differ: "ram_managed AND net_managed = 0" "ram_managed AND cpu_managed = 0" "ram_managed \<noteq> 0"
  by (simp_all add: ram_managed_def net_managed_def cpu_managed_def)

lemma has_set_field: "has_field (set_field w f b) f \<longleftrightarrow> b" if "f \<noteq> 0"
proof -
  have "(w OR f) AND f = f" "(w AND NOT f) AND f = 0"
    by (rule bit_word_eqI; auto simp: bit_simps)+
  then show ?thesis using that by (simp add: has_field_def set_field_def)
qed

lemma has_other_field:
  assumes "f AND g = 0"
  shows "has_field (set_field w f b) g \<longleftrightarrow> has_field w g"
proof -
  have no: "\<not> (bit f k \<and> bit g k)" for k using assms by (metis bit_and_iff bit_0_eq bot_apply bot_bool_def)
  have "(w OR f) AND g = w AND g" "(w AND NOT f) AND g = w AND g"
    by (rule bit_word_eqI; use no in \<open>auto simp: bit_simps\<close>)+
  then show ?thesis by (simp add: has_field_def set_field_def)
qed

lemma no_field: "\<not> has_field 0 f"
  by (simp add: has_field_def)

lemma new_flags: "flags1 new_voter = 0"
  by (simp add: new_voter_def)

lemma managed_set_managed:
  "f \<noteq> 0 \<Longrightarrow> managed n f (set_managed n f b s) \<longleftrightarrow> b"
  "f AND g = 0 \<Longrightarrow> managed n g (set_managed n f b s) \<longleftrightarrow> managed n g s"
  by (auto simp: managed_def set_managed_def Let_def has_set_field has_other_field no_field new_flags
      split: option.splits)

lemma set_managed_tables [simp]:
  "limits (set_managed n f b s) = limits s" "userres (set_managed n f b s) = userres s"
  "outbox (set_managed n f b s) = outbox s" "tokens (set_managed n f b s) = tokens s"
  by (simp_all add: set_managed_def Let_def)

lemma managed_limits [simp]: "managed n f (s\<lparr>limits := l\<rparr>) = managed n f s"
  by (simp add: managed_def)

lemma set_limits_found:
  "tfind n (limits s) = Some l \<Longrightarrow> - 1 \<le> ram \<Longrightarrow> - 1 \<le> net \<Longrightarrow> - 1 \<le> cpu \<Longrightarrow>
     set_limits n ram net cpu s = Inr (s\<lparr>limits := AList.update n (ram, net, cpu) (limits s)\<rparr>)"
  by (simp add: set_limits_def)

text \<open>The RAM an account owns, and the state after its RAM limit is set.\<close>

definition ram_quota :: "sys \<Rightarrow> name \<Rightarrow> int" where
  "ram_quota s n = (case tfind n (userres s) of None \<Rightarrow> ram_gift_bytes | Some r \<Rightarrow> i64 (ram_gift_bytes + ram_bytes r))"

definition with_ram :: "name \<Rightarrow> bool \<Rightarrow> int \<Rightarrow> sys \<Rightarrow> sys" where
  "with_ram n b x s = (case tfind n (limits s) of
      None \<Rightarrow> s
    | Some (ram, net, cpu) \<Rightarrow> (set_managed n ram_managed b s)\<lparr>limits := AList.update n (x, net, cpu) (limits s)\<rparr>)"

text \<open>What \<open>setacctram\<close> does when it succeeds, for both of its uses, and what the chain makes of it.\<close>

lemma setacctram_take:
  "has_auth e (self e) \<Longrightarrow> tfind n (limits s) = Some (ram, net, cpu) \<Longrightarrow> - 1 \<le> net \<Longrightarrow> - 1 \<le> cpu \<Longrightarrow> 0 \<le> x \<Longrightarrow>
     setacctram e n (Some x) s = Inr (with_ram n True x s)"
  by (simp add: setacctram_def manage_resource_def get_limits_def set_limits_found with_ram_def)

lemma setacctram_release:
  "has_auth e (self e) \<Longrightarrow> tfind n (limits s) = Some (ram, net, cpu) \<Longrightarrow> - 1 \<le> net \<Longrightarrow> - 1 \<le> cpu \<Longrightarrow>
     managed n ram_managed s \<Longrightarrow> 0 \<le> ram_quota s n \<Longrightarrow>
     setacctram e n None s = Inr (with_ram n False (ram_quota s n) s)"
  by (simp add: setacctram_def manage_resource_def get_limits_def set_limits_found with_ram_def flip: ram_quota_def)

lemma with_ram_facts:
  assumes "tfind n (limits s) = Some (ram, net, cpu)"
  shows "tfind n (limits (with_ram n b x s)) = Some (x, net, cpu)"
    and "m \<noteq> n \<Longrightarrow> tfind m (limits (with_ram n b x s)) = tfind m (limits s)"
    and "managed n ram_managed (with_ram n b x s) \<longleftrightarrow> b"
    and "managed n net_managed (with_ram n b x s) \<longleftrightarrow> managed n net_managed s"
    and "managed n cpu_managed (with_ram n b x s) \<longleftrightarrow> managed n cpu_managed s"
    and "userres (with_ram n b x s) = userres s"
    and "outbox (with_ram n b x s) = outbox s" "tokens (with_ram n b x s) = tokens s"
  using assms by (simp_all add: with_ram_def managed_set_managed fields_differ update_conv')

lemma set_ram_transacts:
  assumes "sys_apply e a s = Inr (with_ram n b x s)" "outbox s = []" "tfind n (limits s) = Some (ram, net, cpu)" "0 \<le> x"
  shows "sys_transact e a s =
    (if (ram < 0 \<or> x < ram) \<and> x < ram_usage e n then Inl HostError else Inr (with_ram n b x s))"
proof -
  note w = with_ram_facts [OF assms(3), where b = b and x = x]
  have "ram_suffices e (limits s) (limits (with_ram n b x s)) \<longleftrightarrow>
      (lowered n (limits s) (limits (with_ram n b x s)) \<longrightarrow> ram_usage e n \<le> ram_limit n (limits (with_ram n b x s)))"
    by (rule ram_suffices_one) (rule w(2))
  also have "\<dots> \<longleftrightarrow> \<not> ((ram < 0 \<or> x < ram) \<and> x < ram_usage e n)"
    using assms(3,4) w(1) by (auto simp: lowered_def ram_limit_def)
  finally have "ram_suffices e (limits s) (limits (with_ram n b x s)) \<longleftrightarrow> \<not> ((ram < 0 \<or> x < ram) \<and> x < ram_usage e n)" .
  moreover have "sys_transact e a s = guard (ram_suffices e (limits s) (limits (with_ram n b x s))) HostError (Inr (with_ram n b x s))"
  proof -
    have o: "s\<lparr>outbox := []\<rparr> = s" using assms(2) by simp
    have w': "(with_ram n b x s)\<lparr>tokens := tokens s, outbox := []\<rparr> = with_ram n b x s" using assms(2) w(7,8) by simp
    show ?thesis unfolding sys_transact_def o assms(1) ebind_simps w(7,8) assms(2) run_inline.simps w' ..
  qed
  ultimately show ?thesis by (simp add: guard_def)
qed

text \<open>
  C33. Taking over the RAM of an account and handing it back is a round trip. The contract's account
  can set the RAM limit of an account to any value that what the account uses fits in; the account
  is then managed and has exactly that limit. A lower limit than what is used is refused by the
  chain, whatever the contract says, unless it is no lower than the present one. Handing it back
  succeeds if what is used fits in the quota the account owns, which is not negative; that ends the management and makes
  the quota the limit, whatever was set before. Both leave the limits of NET and CPU, which are
  - 1 or more as the chain keeps them, and whether these are managed, as they were, and the quota
  itself is untouched.
\<close>

theorem manage_ram_roundtrip:
  assumes "has_auth e (self e)" "has_auth e' (self e')"
    and "sys_reachable s" "tfind n (limits s) = Some (ram, net, cpu)" "- 1 \<le> net" "- 1 \<le> cpu"
    and "0 \<le> x" "ram_usage e n \<le> x" "0 \<le> ram_quota s n" "ram_usage e' n \<le> ram_quota s n"
  shows "(\<exists>s1 s2. sys_transact e (A_setacctram n (Some x)) s = Inr s1 \<and>
           managed n ram_managed s1 \<and> tfind n (limits s1) = Some (x, net, cpu) \<and>
           sys_transact e' (A_setacctram n None) s1 = Inr s2 \<and>
           \<not> managed n ram_managed s2 \<and> tfind n (limits s2) = Some (ram_quota s n, net, cpu) \<and>
           (managed n net_managed s2 \<longleftrightarrow> managed n net_managed s) \<and>
           (managed n cpu_managed s2 \<longleftrightarrow> managed n cpu_managed s) \<and>
           userres s2 = userres s) \<and>
         (\<forall>y. 0 \<le> y \<and> y < ram_usage e n \<and> (ram < 0 \<or> y < ram) \<longrightarrow>
            sys_transact e (A_setacctram n (Some y)) s = Inl HostError)"
proof (intro conjI allI impI)
  have o: "outbox s = []" using token_inv_reachable [OF assms(3)] by simp
  have take: "sys_apply e (A_setacctram n (Some y)) s = Inr (with_ram n True y s)" if "0 \<le> y" for y
    using setacctram_take [OF assms(1,4-6) that] by simp
  define s1 where "s1 = with_ram n True x s"
  note w1 = with_ram_facts [OF assms(4), where b = True and x = x, folded s1_def]
  have q: "ram_quota s1 n = ram_quota s n" by (simp add: ram_quota_def w1(6))
  have give: "sys_apply e' (A_setacctram n None) s1 = Inr (with_ram n False (ram_quota s n) s1)"
    using setacctram_release [OF assms(2) w1(1) assms(5,6)] w1(3) q assms(9) by simp
  note w2 = with_ram_facts [OF w1(1), where b = False and x = "ram_quota s n"]
  have "sys_transact e (A_setacctram n (Some x)) s = Inr s1"
    using set_ram_transacts [OF take [OF assms(7)] o assms(4,7)] assms(8) by (simp add: s1_def)
  moreover have "sys_transact e' (A_setacctram n None) s1 = Inr (with_ram n False (ram_quota s n) s1)"
    using set_ram_transacts [OF give _ w1(1) assms(9)] w1(7) o assms(10) by simp
  ultimately show "\<exists>s1 s2. sys_transact e (A_setacctram n (Some x)) s = Inr s1 \<and>
           managed n ram_managed s1 \<and> tfind n (limits s1) = Some (x, net, cpu) \<and>
           sys_transact e' (A_setacctram n None) s1 = Inr s2 \<and>
           \<not> managed n ram_managed s2 \<and> tfind n (limits s2) = Some (ram_quota s n, net, cpu) \<and>
           (managed n net_managed s2 \<longleftrightarrow> managed n net_managed s) \<and>
           (managed n cpu_managed s2 \<longleftrightarrow> managed n cpu_managed s) \<and>
           userres s2 = userres s"
    using w1 w2 by auto
  fix y assume y: "0 \<le> y \<and> y < ram_usage e n \<and> (ram < 0 \<or> y < ram)"
  then have "0 \<le> y" by simp
  from set_ram_transacts [OF take [OF this] o assms(4) this] y
  show "sys_transact e (A_setacctram n (Some y)) s = Inl HostError" by simp
qed

text \<open>Alice's rows take up 900 bytes.\<close>

definition demo_using :: sys_env where
  "demo_using = (demo_sys_env [eosio_account] 0)\<lparr>ram_usage := (\<lambda>n. if n = alice then 900 else 0)\<rparr>"

theorem manage_ram_roundtrip_witness:
  "(\<exists>s1 s2. sys_transact demo_using (A_setacctram alice (Some 50000)) demo_rex = Inr s1 \<and>
     managed alice ram_managed s1 \<and> tfind alice (limits s1) = Some (50000, 1000000, 1000000) \<and>
     sys_transact demo_using (A_setacctram alice None) s1 = Inr s2 \<and> \<not> managed alice ram_managed s2 \<and>
     tfind alice (limits s2) = Some (1400, 1000000, 1000000) \<and> userres s2 = userres demo_rex) \<and>
   sys_transact demo_using (A_setacctram alice (Some 899)) demo_rex = Inl HostError"
proof -
  have l: "tfind alice (limits demo_rex) = Some (1400, 1000000, 1000000)" "ram_quota demo_rex alice = 1400"
    by code_simp+
  have e: "has_auth demo_using (self demo_using)" "ram_usage demo_using alice = 900"
    by (simp_all add: demo_using_def demo_sys_env_def env.defs ref_env_def)
  show ?thesis
    using manage_ram_roundtrip [OF e(1) e(1) demo_rex_reachable l(1), of 50000] by (simp add: e l) blast
qed

end
