(* ===== verification/Msig.thy ===== *)
theory Msig
  imports Chain_Env
begin

text \<open>
  The multi-signature contract, \<open>contracts/eosio.msig\<close>, and \<open>contracts/eosio.wrap\<close>. A
  proposal holds a packed transaction; the accounts asked for it approve, withdraw their
  approval, or invalidate every approval they ever gave; with enough approvals the transaction
  is sent as a deferred one.

  The tables are scoped by the proposer, so their keys are pairs of the proposer and the
  proposal's name. What a packed transaction contains, whether a set of permissions authorizes
  it, and the chain's queue of deferred transactions belong to the chain: the first two are
  fields of \<open>msig_env\<close>, the last is the field \<open>sent\<close>, which refuses a second
  transaction with the same id.
\<close>

section \<open>Data\<close>

type_synonym packed_trx = "nat list"

datatype approval = Approval (level: permission_level) (time: int)

record approvals_info =
  requested_approvals :: "approval list"
  provided_approvals :: "approval list"

record old_approvals_info =
  old_requested :: "permission_level list"
  old_provided :: "permission_level list"

type_synonym proposal_key = "name \<times> name"        \<comment> \<open>proposer, name of the proposal\<close>

record msig_state =
  proposals :: "(proposal_key, packed_trx) table"
  approvals2 :: "(proposal_key, approvals_info) table"
  old_approvals :: "(proposal_key, old_approvals_info) table"
  invals :: "(name, int) table"
  sent :: "(int, packed_trx) table"

record msig_env = env +
  trx_expiration :: "packed_trx \<Rightarrow> int option"      \<comment> \<open>None: no transaction header can be read\<close>
  trx_authorized :: "packed_trx \<Rightarrow> permission_level list \<Rightarrow> bool"
  has_permission :: "permission_level \<Rightarrow> bool"     \<comment> \<open>\<open>require_auth( permission_level )\<close>\<close>
  trx_sha256 :: "packed_trx \<Rightarrow> nat"

text \<open>\<open>std::find\<close> with \<open>erase\<close>: the first entry that matches is removed.\<close>

fun remove_first :: "('a \<Rightarrow> bool) \<Rightarrow> 'a list \<Rightarrow> 'a list" where
  "remove_first P [] = []"
| "remove_first P (x # xs) = (if P x then xs else x # remove_first P xs)"

definition at_level :: "permission_level \<Rightarrow> approval \<Rightarrow> bool" where
  "at_level l a \<longleftrightarrow> level a = l"

definition expiration :: "'z msig_env_scheme \<Rightarrow> packed_trx \<Rightarrow> int res" where
  "expiration e trx = of_option LibraryAssert (trx_expiration e trx)"

definition send_trx :: "int \<Rightarrow> packed_trx \<Rightarrow> msig_state \<Rightarrow> msig_state res" where
  "send_trx i trx s = ebind (templace i trx (sent s)) (\<lambda>t. Inr (s\<lparr>sent := t\<rparr>))"

definition deferred_id :: "name \<Rightarrow> int \<Rightarrow> int" where
  "deferred_id high low = uint high * 2 ^ 64 + low"

section \<open>Proposing\<close>

definition propose ::
  "'z msig_env_scheme \<Rightarrow> name \<Rightarrow> name \<Rightarrow> permission_level list \<Rightarrow> packed_trx \<Rightarrow> msig_state \<Rightarrow>
     msig_state res" where
  "propose e proposer proposal_name requested trx s =
     ebind (expiration e trx) (\<lambda>exp.
     require_auth e proposer
     (check (current_sec e \<le> exp) ''transaction expired''
     (check (tfind (proposer, proposal_name) (proposals s) = None) ''proposal with the same name exists''
     (check (trx_authorized e trx requested) ''transaction authorization failed''
     (ebind (templace (proposer, proposal_name) trx (proposals s)) (\<lambda>t.
      ebind (templace (proposer, proposal_name)
               \<lparr>requested_approvals = map (\<lambda>l. Approval l 0) requested, provided_approvals = []\<rparr>
               (approvals2 s)) (\<lambda>t2.
      Inr (s\<lparr>proposals := t, approvals2 := t2\<rparr>))))))))"

section \<open>Approving\<close>

definition check_proposal_hash ::
  "'z msig_env_scheme \<Rightarrow> proposal_key \<Rightarrow> nat option \<Rightarrow> msig_state \<Rightarrow> 'a res \<Rightarrow> 'a res" where
  "check_proposal_hash e key proposal_hash s k =
     (case proposal_hash of
        None \<Rightarrow> k
      | Some h \<Rightarrow>
          (case tfind key (proposals s) of
             None \<Rightarrow> Inl (Check ''proposal not found'')
           | Some trx \<Rightarrow> guard (trx_sha256 e trx = h) HostError k))"

definition approve ::
  "'z msig_env_scheme \<Rightarrow> name \<Rightarrow> name \<Rightarrow> permission_level \<Rightarrow> nat option \<Rightarrow> msig_state \<Rightarrow>
     msig_state res" where
  "approve e proposer proposal_name l proposal_hash s =
     guard (has_permission e l) MissingAuthority
     (check_proposal_hash e (proposer, proposal_name) proposal_hash s
     (case tfind (proposer, proposal_name) (approvals2 s) of
        Some a \<Rightarrow>
          check (list_ex (at_level l) (requested_approvals a))
            ''approval is not on the list of requested approvals''
            (Inr (s\<lparr>approvals2 := AList.update (proposer, proposal_name)
               (a\<lparr>provided_approvals := provided_approvals a @ [Approval l (current_time e)],
                  requested_approvals := remove_first (at_level l) (requested_approvals a)\<rparr>) (approvals2 s)\<rparr>))
      | None \<Rightarrow>
          (case tfind (proposer, proposal_name) (old_approvals s) of
             None \<Rightarrow> Inl (Check ''proposal not found'')
           | Some a \<Rightarrow>
               check (l \<in> set (old_requested a)) ''approval is not on the list of requested approvals''
                 (Inr (s\<lparr>old_approvals := AList.update (proposer, proposal_name)
                    (a\<lparr>old_provided := old_provided a @ [l],
                       old_requested := remove1 l (old_requested a)\<rparr>) (old_approvals s)\<rparr>)))))"

definition unapprove ::
  "'z msig_env_scheme \<Rightarrow> name \<Rightarrow> name \<Rightarrow> permission_level \<Rightarrow> msig_state \<Rightarrow> msig_state res" where
  "unapprove e proposer proposal_name l s =
     guard (has_permission e l) MissingAuthority
     (case tfind (proposer, proposal_name) (approvals2 s) of
        Some a \<Rightarrow>
          check (list_ex (at_level l) (provided_approvals a)) ''no approval previously granted''
            (Inr (s\<lparr>approvals2 := AList.update (proposer, proposal_name)
               (a\<lparr>requested_approvals := requested_approvals a @ [Approval l (current_time e)],
                  provided_approvals := remove_first (at_level l) (provided_approvals a)\<rparr>) (approvals2 s)\<rparr>))
      | None \<Rightarrow>
          (case tfind (proposer, proposal_name) (old_approvals s) of
             None \<Rightarrow> Inl (Check ''proposal not found'')
           | Some a \<Rightarrow>
               check (l \<in> set (old_provided a)) ''no approval previously granted''
                 (Inr (s\<lparr>old_approvals := AList.update (proposer, proposal_name)
                    (a\<lparr>old_requested := old_requested a @ [l],
                       old_provided := remove1 l (old_provided a)\<rparr>) (old_approvals s)\<rparr>))))"

definition invalidate :: "'z msig_env_scheme \<Rightarrow> name \<Rightarrow> msig_state \<Rightarrow> msig_state res" where
  "invalidate e account s =
     require_auth e account
     (case tfind account (invals s) of
        None \<Rightarrow> ebind (templace account (current_time e) (invals s)) (\<lambda>t. Inr (s\<lparr>invals := t\<rparr>))
      | Some _ \<Rightarrow> Inr (s\<lparr>invals := AList.update account (current_time e) (invals s)\<rparr>))"

section \<open>Ending a proposal\<close>

definition erase_approvals :: "proposal_key \<Rightarrow> msig_state \<Rightarrow> msig_state res" where
  "erase_approvals key s =
     (case tfind key (approvals2 s) of
        Some _ \<Rightarrow> Inr (s\<lparr>approvals2 := terase key (approvals2 s)\<rparr>)
      | None \<Rightarrow>
          check (tfind key (old_approvals s) \<noteq> None) ''proposal not found''
            (Inr (s\<lparr>old_approvals := terase key (old_approvals s)\<rparr>)))"

definition cancel ::
  "'z msig_env_scheme \<Rightarrow> name \<Rightarrow> name \<Rightarrow> name \<Rightarrow> msig_state \<Rightarrow> msig_state res" where
  "cancel e proposer proposal_name canceler s =
     require_auth e canceler
     (case tfind (proposer, proposal_name) (proposals s) of
        None \<Rightarrow> Inl (Check ''proposal not found'')
      | Some trx \<Rightarrow>
          ebind (if canceler \<noteq> proposer
                 then ebind (expiration e trx) (\<lambda>exp.
                      check (exp < current_sec e) ''cannot cancel until expiration'' (Inr ()))
                 else Inr ()) (\<lambda>_.
          erase_approvals (proposer, proposal_name)
            (s\<lparr>proposals := terase (proposer, proposal_name) (proposals s)\<rparr>)))"

text \<open>An approval counts when its account has not invalidated it since.\<close>

definition counts :: "msig_state \<Rightarrow> approval \<Rightarrow> bool" where
  "counts s a \<longleftrightarrow>
     (case tfind (actor (level a)) (invals s) of None \<Rightarrow> True | Some t \<Rightarrow> t < time a)"

definition standing_approvals :: "proposal_key \<Rightarrow> msig_state \<Rightarrow> permission_level list res" where
  "standing_approvals key s =
     (case tfind key (approvals2 s) of
        Some a \<Rightarrow> Inr (map level (filter (counts s) (provided_approvals a)))
      | None \<Rightarrow>
          (case tfind key (old_approvals s) of
             None \<Rightarrow> Inl (Check ''proposal not found'')
           | Some a \<Rightarrow> Inr (filter (\<lambda>l. tfind (actor l) (invals s) = None) (old_provided a))))"

definition exec ::
  "'z msig_env_scheme \<Rightarrow> name \<Rightarrow> name \<Rightarrow> name \<Rightarrow> msig_state \<Rightarrow> msig_state res" where
  "exec e proposer proposal_name executer s =
     require_auth e executer
     (case tfind (proposer, proposal_name) (proposals s) of
        None \<Rightarrow> Inl (Check ''proposal not found'')
      | Some trx \<Rightarrow>
          ebind (expiration e trx) (\<lambda>exp.
          check (current_sec e \<le> exp) ''transaction expired''
          (ebind (standing_approvals (proposer, proposal_name) s) (\<lambda>approvals.
           ebind (erase_approvals (proposer, proposal_name) s) (\<lambda>s1.
           check (trx_authorized e trx approvals) ''transaction authorization failed''
           (ebind (send_trx (deferred_id proposer (uint proposal_name)) trx s1) (\<lambda>s2.
            Inr (s2\<lparr>proposals := terase (proposer, proposal_name) (proposals s2)\<rparr>))))))))"

section \<open>eosio.wrap\<close>

definition wrap_exec ::
  "'z msig_env_scheme \<Rightarrow> name \<Rightarrow> packed_trx \<Rightarrow> msig_state \<Rightarrow> msig_state res" where
  "wrap_exec e executer trx s =
     require_auth e (self e)
     (require_auth e executer
     (send_trx (deferred_id executer (u64 (current_time e))) trx s))"

end
