(* ===== verification/Msig_Service.thy ===== *)
theory Msig_Service
  imports Msig "HOL-Library.Multiset"
begin

text \<open>
  What the multi-signature contract promises: the tables of proposals and of approvals agree in
  every reachable state, so that a proposer can always cancel; when exactly a proposal can be
  executed and what that does; that an approval and its withdrawal undo each other; and that
  an approval given before its account's last invalidation never counts.
\<close>

section \<open>Dispatch and reachable states\<close>

datatype msig_action =
    Propose name name "permission_level list" packed_trx
  | Approve name name permission_level "nat option"
  | Unapprove name name permission_level
  | Cancel name name name
  | Exec name name name
  | Invalidate name

primrec msig_apply :: "'z msig_env_scheme \<Rightarrow> msig_action \<Rightarrow> msig_state \<Rightarrow> msig_state res" where
  "msig_apply e (Propose p n ls trx) s = propose e p n ls trx s"
| "msig_apply e (Approve p n l h) s = approve e p n l h s"
| "msig_apply e (Unapprove p n l) s = unapprove e p n l s"
| "msig_apply e (Cancel p n c) s = cancel e p n c s"
| "msig_apply e (Exec p n x) s = exec e p n x s"
| "msig_apply e (Invalidate a) s = invalidate e a s"

text \<open>
  The contract may start with proposals of the version before the times of approvals were
  recorded: their approvals are in the old table. Time does not run backwards, and the chain
  takes a deferred transaction from its queue when it runs or drops it.
\<close>

definition msig_legacy :: "msig_state \<Rightarrow> bool" where
  "msig_legacy s \<longleftrightarrow> twf (proposals s) \<and> twf (old_approvals s) \<and> approvals2 s = [] \<and> invals s = [] \<and>
     (\<forall>key. tfind key (proposals s) = None \<longleftrightarrow> tfind key (old_approvals s) = None)"

inductive msig_reachable :: "int \<Rightarrow> msig_state \<Rightarrow> bool" where
  start: "msig_legacy s \<Longrightarrow> msig_reachable now s"
| step: "msig_reachable now s \<Longrightarrow> now \<le> current_time (e :: msig_env) \<Longrightarrow> msig_apply e a s = Inr s' \<Longrightarrow>
     msig_reachable (current_time e) s'"
| dequeue: "msig_reachable now s \<Longrightarrow> msig_reachable now (s\<lparr>sent := terase i (sent s)\<rparr>)"

section \<open>The invariant\<close>

definition one_record :: "msig_state \<Rightarrow> proposal_key \<Rightarrow> bool" where
  "one_record s key \<longleftrightarrow>
     (if tfind key (proposals s) = None
      then tfind key (approvals2 s) = None \<and> tfind key (old_approvals s) = None
      else (tfind key (approvals2 s) = None) \<noteq> (tfind key (old_approvals s) = None))"

definition given_before :: "int \<Rightarrow> msig_state \<Rightarrow> bool" where
  "given_before now s \<longleftrightarrow>
     (\<forall>key a. tfind key (approvals2 s) = Some a \<longrightarrow> (\<forall>x\<in>set (provided_approvals a). time x \<le> now))"

lemma one_record_legacy:
  assumes "msig_legacy s"
  shows "one_record s key \<and> given_before now s"
proof -
  have "(tfind key (proposals s) = None) = (tfind key (old_approvals s) = None)"
    using assms unfolding msig_legacy_def by blast
  then show ?thesis using assms by (simp add: msig_legacy_def one_record_def given_before_def)
qed

lemma one_record_sent [simp]:
  "one_record (s\<lparr>sent := t\<rparr>) key = one_record s key" "given_before now (s\<lparr>sent := t\<rparr>) = given_before now s"
  by (simp_all add: one_record_def given_before_def)

lemma set_remove_first: "set (remove_first P xs) \<subseteq> set xs"
  by (induction xs) auto

lemma one_record_apply:
  assumes "\<And>key. one_record s key" "msig_apply e a s = Inr s'"
  shows "one_record s' key"
  using assms(2) assms(1) [of key]
  by (cases a)
    (auto simp: propose_def approve_def unapprove_def cancel_def exec_def invalidate_def check_proposal_hash_def
      erase_approvals_def send_trx_def one_record_def split: option.splits if_split_asm)

lemma given_before_apply:
  assumes "given_before now s" "now \<le> current_time e" "msig_apply e a s = Inr s'"
  shows "given_before (current_time e) s'"
proof -
  have "given_before (current_time e) s" using assms(1,2) by (fastforce simp: given_before_def)
  then show ?thesis
    using assms(3) set_remove_first
    by (cases a)
      (fastforce simp: propose_def approve_def unapprove_def cancel_def exec_def invalidate_def check_proposal_hash_def
        erase_approvals_def send_trx_def given_before_def split: option.splits if_split_asm)+
qed

lemma msig_reachable_inv: "msig_reachable now s \<Longrightarrow> one_record s key \<and> given_before now s"
proof (induction arbitrary: key rule: msig_reachable.induct)
  case (step now s e a s')
  then show ?case using one_record_apply given_before_apply by blast
qed (simp_all add: one_record_legacy)

section \<open>Properties\<close>

lemma erase_approvals_ok:
  assumes "one_record s key" "tfind key (proposals s) \<noteq> None"
  shows "\<exists>s'. erase_approvals key s = Inr s' \<and> proposals s' = proposals s \<and> sent s' = sent s \<and>
    tfind key (approvals2 s') = None \<and> tfind key (old_approvals s') = None"
  using assms by (auto simp: erase_approvals_def one_record_def split: option.splits)

text \<open>
  C37. A proposer can always get rid of a proposal: in every reachable state, for every proposal
  that exists, its proposer's \<open>cancel\<close> succeeds, at any time, and removes the proposal with
  all its approvals, whichever of the two approval tables they are in.
\<close>

theorem cancel_succeeds:
  assumes "msig_reachable now s" and "tfind (p, n) (proposals s) = Some trx" and "has_auth e p"
  shows "\<exists>s'. cancel e p n p s = Inr s' \<and> tfind (p, n) (proposals s') = None \<and>
    tfind (p, n) (approvals2 s') = None \<and> tfind (p, n) (old_approvals s') = None"
proof -
  define s1 where "s1 = s\<lparr>proposals := terase (p, n) (proposals s)\<rparr>"
  have one: "one_record s (p, n)" using msig_reachable_inv [OF assms(1)] by blast
  have "\<exists>s'. erase_approvals (p, n) s1 = Inr s' \<and> proposals s' = proposals s1 \<and>
      tfind (p, n) (approvals2 s') = None \<and> tfind (p, n) (old_approvals s') = None"
    using one assms(2) by (auto simp: s1_def erase_approvals_def one_record_def split: option.splits)
  moreover have "cancel e p n p s = erase_approvals (p, n) s1"
    using assms(2,3) by (simp add: cancel_def s1_def)
  ultimately show ?thesis by (auto simp: s1_def)
qed


text \<open>
  C35. A proposal is executed at most once. A successful \<open>exec\<close> puts exactly the proposed
  transaction into the chain's queue and removes the proposal and its approvals; neither
  \<open>exec\<close> nor \<open>approve\<close> nor \<open>unapprove\<close> nor \<open>cancel\<close> by anyone finds it afterwards.
\<close>

theorem exec_once:
  assumes "msig_reachable now s" and "exec e p n x s = Inr s'"
  shows "(\<exists>trx. tfind (p, n) (proposals s) = Some trx \<and>
      sent s' = (deferred_id p (uint n), trx) # sent s \<and> proposals s' = terase (p, n) (proposals s)) \<and>
    (\<forall>e' y l h s''. exec e' p n y s' \<noteq> Inr s'' \<and> approve e' p n l h s' \<noteq> Inr s'' \<and>
      unapprove e' p n l s' \<noteq> Inr s'' \<and> cancel e' p n y s' \<noteq> Inr s'')"
proof -
  obtain trx s1 where trx: "tfind (p, n) (proposals s) = Some trx" and s1: "erase_approvals (p, n) s = Inr s1"
    and s2: "send_trx (deferred_id p (uint n)) trx s1 = Inr (s1\<lparr>sent := (deferred_id p (uint n), trx) # sent s1\<rparr>)"
    and s': "s' = s1\<lparr>sent := (deferred_id p (uint n), trx) # sent s1, proposals := terase (p, n) (proposals s1)\<rparr>"
    using assms(2) by (auto simp: exec_def send_trx_def split: option.splits)
  have "one_record s (p, n)" using msig_reachable_inv [OF assms(1)] by blast
  from erase_approvals_ok [OF this] trx s1 have f: "proposals s1 = proposals s" "sent s1 = sent s"
    "tfind (p, n) (approvals2 s1) = None" "tfind (p, n) (old_approvals s1) = None"
    by auto
  then show ?thesis
    using trx s' by (auto simp: exec_def approve_def unapprove_def cancel_def check_proposal_hash_def split: option.splits)
qed

text \<open>
  C36. Invalidation. After \<open>invalidate\<close> by an account the approvals that count are exactly
  those that counted before and are not its own: none it has given so far counts, in any
  proposal, and nobody else's is touched.
\<close>

theorem invalidate_drops:
  assumes "msig_reachable now s" and "now \<le> current_time e" and "invalidate e acc s = Inr s'"
    and "standing_approvals key s = Inr ls"
  shows "standing_approvals key s' = Inr (filter (\<lambda>l. actor l \<noteq> acc) ls)"
proof -
  have inv: "tfind k (invals s') = (if k = acc then Some (current_time e) else tfind k (invals s))"
    and same: "approvals2 s' = approvals2 s" "old_approvals s' = old_approvals s" for k
    using assms(3) by (auto simp: invalidate_def split: option.splits)
  have "counts s' a \<longleftrightarrow> counts s a \<and> actor (level a) \<noteq> acc"
    if "tfind key (approvals2 s) = Some x" "a \<in> set (provided_approvals x)" for x a
  proof -
    have "time a \<le> now"
      using msig_reachable_inv [OF assms(1), of key] that unfolding given_before_def by blast
    then show ?thesis using assms(2) by (simp add: counts_def inv)
  qed
  then have "filter (counts s') (provided_approvals x) = filter (\<lambda>a. counts s a \<and> actor (level a) \<noteq> acc) (provided_approvals x)"
    if "tfind key (approvals2 s) = Some x" for x
    using that by (intro filter_cong) auto
  moreover have "filter (\<lambda>l. tfind (actor l) (invals s') = None) xs =
      filter (\<lambda>l. actor l \<noteq> acc) (filter (\<lambda>l. tfind (actor l) (invals s) = None) xs)" for xs
    by (simp add: inv) (metis (mono_tags, lifting))
  ultimately show ?thesis
    using assms(4) by (auto simp: standing_approvals_def same filter_map comp_def conj_commute split: option.splits)
qed

text \<open>The levels asked for and given, whichever table holds them.\<close>

definition asked_levels :: "proposal_key \<Rightarrow> msig_state \<Rightarrow> permission_level multiset" where
  "asked_levels key s =
     (case tfind key (approvals2 s) of
        Some a \<Rightarrow> image_mset level (mset (requested_approvals a))
      | None \<Rightarrow> (case tfind key (old_approvals s) of None \<Rightarrow> {#} | Some a \<Rightarrow> mset (old_requested a)))"

definition given_levels :: "proposal_key \<Rightarrow> msig_state \<Rightarrow> permission_level multiset" where
  "given_levels key s =
     (case tfind key (approvals2 s) of
        Some a \<Rightarrow> image_mset level (mset (provided_approvals a))
      | None \<Rightarrow> (case tfind key (old_approvals s) of None \<Rightarrow> {#} | Some a \<Rightarrow> mset (old_provided a)))"

lemma level_remove_first:
  "list_ex (at_level l) xs \<Longrightarrow>
     add_mset l (image_mset level (mset (remove_first (at_level l) xs))) = image_mset level (mset xs)"
  by (induction xs) (auto simp: at_level_def)

lemma approve_levels:
  assumes "approve e p n l h s = Inr s'"
  shows "given_levels (p, n) s' = add_mset l (given_levels (p, n) s)"
    and "asked_levels (p, n) s = add_mset l (asked_levels (p, n) s')"
  using assms
  by (auto simp: approve_def check_proposal_hash_def given_levels_def asked_levels_def level_remove_first
      split: option.splits if_split_asm)

lemma unapprove_levels:
  assumes "unapprove e p n l s = Inr s'"
  shows "asked_levels (p, n) s' = add_mset l (asked_levels (p, n) s)"
    and "given_levels (p, n) s = add_mset l (given_levels (p, n) s')"
  using assms
  by (auto simp: unapprove_def given_levels_def asked_levels_def level_remove_first split: option.splits if_split_asm)

text \<open>
  C38. An approval can be taken back. After a successful \<open>approve\<close> the same account's
  \<open>unapprove\<close> succeeds, and the levels asked for and the levels given are again what they
  were, in the table of either version.
\<close>

theorem approve_unapprove:
  assumes "approve e p n l h s = Inr s1" and "has_permission e' l"
  shows "\<exists>s2. unapprove e' p n l s1 = Inr s2 \<and> given_levels (p, n) s2 = given_levels (p, n) s \<and>
    asked_levels (p, n) s2 = asked_levels (p, n) s"
proof -
  obtain s2 where s2: "unapprove e' p n l s1 = Inr s2"
    using assms by (auto simp: approve_def unapprove_def check_proposal_hash_def at_level_def split: option.splits)
  then show ?thesis
    using approve_levels [OF assms(1)] unapprove_levels [OF s2] by simp
qed

section \<open>Examples\<close>

text \<open>Alice proposes a transaction that needs her own approval and bob's.\<close>

definition demo_msig_env :: "name list \<Rightarrow> int \<Rightarrow> msig_env" where
  "demo_msig_env signers t =
     env.extend (ref_env 0 signers [alice, bob] t)
       (msig_env.fields (\<lambda>trx. Some 1000) (\<lambda>trx ls. 2 \<le> length ls) (\<lambda>l. actor l \<in> set signers) (\<lambda>trx. 0))"

definition msig_empty :: msig_state where
  "msig_empty = \<lparr>proposals = [], approvals2 = [], old_approvals = [], invals = [], sent = []\<rparr>"

definition of_alice :: permission_level where "of_alice = PermissionLevel alice active_permission"
definition of_bob :: permission_level where "of_bob = PermissionLevel bob active_permission"

definition msig_proposed :: msig_state where
  "msig_proposed = msig_empty\<lparr>proposals := [((alice, 1), [7])],
     approvals2 := [((alice, 1), \<lparr>requested_approvals = [Approval of_alice 0, Approval of_bob 0], provided_approvals = []\<rparr>)]\<rparr>"

definition msig_half :: msig_state where
  "msig_half = msig_proposed\<lparr>
     approvals2 := [((alice, 1), \<lparr>requested_approvals = [Approval of_bob 0], provided_approvals = [Approval of_alice 2]\<rparr>)]\<rparr>"

definition msig_full :: msig_state where
  "msig_full = msig_proposed\<lparr>
     approvals2 := [((alice, 1), \<lparr>requested_approvals = [], provided_approvals = [Approval of_alice 2, Approval of_bob 3]\<rparr>)]\<rparr>"

lemma msig_runs:
  "msig_apply (demo_msig_env [alice] 1) (Propose alice 1 [of_alice, of_bob] [7]) msig_empty = Inr msig_proposed"
  "msig_apply (demo_msig_env [alice] 2) (Approve alice 1 of_alice None) msig_proposed = Inr msig_half"
  "msig_apply (demo_msig_env [bob] 3) (Approve alice 1 of_bob None) msig_half = Inr msig_full"
  by code_simp+

lemma demo_msig_time [simp]: "current_time (demo_msig_env signers t) = t"
  by (simp add: demo_msig_env_def env.defs ref_env_def)

lemma msig_full_reachable: "msig_reachable 3 msig_full"
proof -
  have "msig_reachable 1 msig_empty"
    by (rule msig_reachable.start) (simp add: msig_legacy_def msig_empty_def)
  from msig_reachable.step [OF this _ msig_runs(1)] have "msig_reachable 1 msig_proposed" by simp
  from msig_reachable.step [OF this _ msig_runs(2)] have "msig_reachable 2 msig_half" by simp
  from msig_reachable.step [OF this _ msig_runs(3)] show ?thesis by simp
qed

theorem cancel_succeeds_witness:
  "\<exists>s'. cancel (demo_msig_env [alice] 4) alice 1 alice msig_full = Inr s' \<and> tfind (alice, 1) (proposals s') = None"
proof -
  have "tfind (alice, 1) (proposals msig_full) = Some [7]" "has_auth (demo_msig_env [alice] 4) alice" by code_simp+
  from cancel_succeeds [OF msig_full_reachable this] show ?thesis by blast
qed


lemma msig_exec_run:
  "exec (demo_msig_env [bob] 4) alice 1 bob msig_full = Inr (msig_empty\<lparr>sent := [(deferred_id alice 1, [7])]\<rparr>)"
  by code_simp

theorem exec_once_witness:
  "\<forall>e y s''. exec e alice 1 y (msig_empty\<lparr>sent := [(deferred_id alice 1, [7])]\<rparr>) \<noteq> Inr s''"
  using exec_once [OF msig_full_reachable msig_exec_run] by blast

theorem invalidate_drops_witness:
  "\<exists>s'. invalidate (demo_msig_env [alice] 4) alice msig_full = Inr s' \<and> standing_approvals (alice, 1) s' = Inr [of_bob]"
proof -
  have i: "invalidate (demo_msig_env [alice] 4) alice msig_full = Inr (msig_full\<lparr>invals := [(alice, 4)]\<rparr>)"
    and st: "standing_approvals (alice, 1) msig_full = Inr [of_alice, of_bob]"
    by code_simp+
  have "standing_approvals (alice, 1) (msig_full\<lparr>invals := [(alice, 4)]\<rparr>) =
      Inr (filter (\<lambda>l. actor l \<noteq> alice) [of_alice, of_bob])"
    by (rule invalidate_drops [OF msig_full_reachable _ i st]) simp
  moreover have "filter (\<lambda>l. actor l \<noteq> alice) [of_alice, of_bob] = [of_bob]" by code_simp
  ultimately show ?thesis using i by auto
qed

theorem approve_unapprove_witness:
  "\<exists>s2. unapprove (demo_msig_env [bob] 4) alice 1 of_bob msig_full = Inr s2 \<and>
     given_levels (alice, 1) s2 = {#of_alice#}"
proof -
  have a: "approve (demo_msig_env [bob] 3) alice 1 of_bob None msig_half = Inr msig_full"
    and p: "has_permission (demo_msig_env [bob] 4) of_bob"
    by code_simp+
  have "given_levels (alice, 1) msig_half = {#of_alice#}"
    by (simp add: given_levels_def msig_half_def msig_proposed_def)
  with approve_unapprove [OF a p] show ?thesis by auto
qed

end
