(* ===== verification/Bios.thy ===== *)
theory Bios
  imports Chain_Env
begin

text \<open>
  The boot contract, \<open>contracts/eosio.bios\<close>: every action but \<open>reqauth\<close> and
  \<open>setabi\<close> needs the contract's own authority and sets one thing of the chain's state.
\<close>

record bios_state =
  bios_privileged :: "(name, bool) table"
  bios_limits :: "(name, int \<times> int \<times> int) table"
  bios_schedule :: "(name \<times> nat) list"
  bios_params :: nat
  bios_abihashes :: "(name, nat) table"

record bios_env = env +
  schedule_accepted :: "(name \<times> nat) list \<Rightarrow> bool"   \<comment> \<open>\<open>set_proposed_producers\<close> takes the schedule\<close>
  abi_sha256 :: "nat list \<Rightarrow> nat"

definition bios_setpriv :: "'z bios_env_scheme \<Rightarrow> name \<Rightarrow> bool \<Rightarrow> bios_state \<Rightarrow> bios_state res" where
  "bios_setpriv e account priv s =
     require_auth e (self e)
     (guard (is_account e account) HostError
        (Inr (s\<lparr>bios_privileged := AList.update account priv (bios_privileged s)\<rparr>)))"

definition bios_setalimits ::
  "'z bios_env_scheme \<Rightarrow> name \<Rightarrow> int \<Rightarrow> int \<Rightarrow> int \<Rightarrow> bios_state \<Rightarrow> bios_state res" where
  "bios_setalimits e account ram net cpu s =
     require_auth e (self e)
     (case tfind account (bios_limits s) of
        None \<Rightarrow> Inl HostError
      | Some _ \<Rightarrow>
          guard (- 1 \<le> ram \<and> - 1 \<le> net \<and> - 1 \<le> cpu) HostError
            (Inr (s\<lparr>bios_limits := AList.update account (ram, net, cpu) (bios_limits s)\<rparr>)))"

definition bios_setglimits :: "'z bios_env_scheme \<Rightarrow> int \<Rightarrow> int \<Rightarrow> int \<Rightarrow> bios_state \<Rightarrow> bios_state res" where
  "bios_setglimits e ram net cpu s = require_auth e (self e) (Inr s)"

definition bios_setprods :: "'z bios_env_scheme \<Rightarrow> (name \<times> nat) list \<Rightarrow> bios_state \<Rightarrow> bios_state res" where
  "bios_setprods e schedule s =
     require_auth e (self e)
     (Inr (if schedule_accepted e schedule then s\<lparr>bios_schedule := schedule\<rparr> else s))"

definition bios_setparams :: "'z bios_env_scheme \<Rightarrow> nat \<Rightarrow> bios_state \<Rightarrow> bios_state res" where
  "bios_setparams e p s = require_auth e (self e) (Inr (s\<lparr>bios_params := p\<rparr>))"

definition bios_reqauth :: "'z bios_env_scheme \<Rightarrow> name \<Rightarrow> bios_state \<Rightarrow> bios_state res" where
  "bios_reqauth e n s = require_auth e n (Inr s)"

definition bios_setabi :: "'z bios_env_scheme \<Rightarrow> name \<Rightarrow> nat list \<Rightarrow> bios_state \<Rightarrow> bios_state res" where
  "bios_setabi e account abi s =
     (case tfind account (bios_abihashes s) of
        None \<Rightarrow> ebind (templace account (abi_sha256 e abi) (bios_abihashes s)) (\<lambda>t.
                Inr (s\<lparr>bios_abihashes := t\<rparr>))
      | Some _ \<Rightarrow> Inr (s\<lparr>bios_abihashes := AList.update account (abi_sha256 e abi) (bios_abihashes s)\<rparr>))"

end
