(* ===== verification/Spec2Isabelle.thy ===== *)
theory Spec2Isabelle
  imports Total_Voting Names_Custody Ram_Custody Block_Pay Rex_Price Authority Msig_Service Bios
begin

text \<open>
  A verification development for the EOSIO system contracts, \<open>src/contracts\<close>: the token
  contract \<open>eosio.token\<close>, the system contract \<open>eosio.system\<close> (RAM, staking, voting,
  producer pay, name auctions and the resource exchange REX), the multi-signature contract
  \<open>eosio.msig\<close>, \<open>eosio.wrap\<close> and \<open>eosio.bios\<close>.

  How the code is modelled. Every table is an association list from primary keys to records
  (\<open>Multi_Index\<close>), every singleton a record; the state of a contract is the record of its
  tables. An operation takes the context \<open>env\<close> and the state and returns \<open>Inl error\<close> or
  \<open>Inr\<close> the new state: every \<open>check\<close>, \<open>require_auth\<close>, failed look-up, trapping
  conversion and eosiolib assertion is a branch. Integers are mathematical integers with the
  wrap-around of their C++ type written out (\<open>i64\<close>, \<open>u64\<close>, \<open>u32\<close>, \<open>u128\<close>);
  names are 64-bit words; doubles are IEEE binary64 values with correct rounding
  (\<open>Binary64\<close>). Inline actions are collected in an outbox and run after the action, in the
  same transaction.

  Theories.
  \<open>Eos_Prelude\<close> (results, machine integers), \<open>Multi_Index\<close> (tables and the interface
  \<open>row_store\<close>), \<open>Binary64\<close>, \<open>Chain_Env\<close> (names, assets, the context and the laws
  of \<open>eosio::asset\<close>).
  \<open>Eosio_Token\<close> and \<open>Token_Service\<close>: \<open>eosio.token.cpp\<close>, its invariant, and the
  interface \<open>token_ledger\<close>.
  \<open>System_State\<close>: the rows of \<open>eosio.system.hpp\<close>. \<open>Exchange\<close>:
  \<open>exchange_state.cpp\<close>. \<open>Rex_Pool\<close>, \<open>Rex_Run\<close>, \<open>Rex\<close>: \<open>rex.cpp\<close>.
  \<open>Voting\<close>: \<open>voting.cpp\<close>. \<open>Ram_Market\<close>, \<open>Bandwidth\<close>:
  \<open>delegate_bandwidth.cpp\<close>. \<open>Producer_Pay\<close>: \<open>producer_pay.cpp\<close>. \<open>Admin\<close>,
  \<open>Names\<close>: \<open>eosio.system.cpp\<close>. \<open>System_Contract\<close>: the dispatch table, transactions
  and reachable states. \<open>Msig\<close>, \<open>Bios\<close>: the three remaining contracts.
  Proofs about the system contract.
  \<open>Frames\<close>: what voting leaves alone, and the interface \<open>vote_blind\<close>. \<open>Footprint\<close>:
  which tables each action may write. \<open>Signatures\<close>: whose tokens it may spend.
  \<open>Ram_Conservation\<close>: RAM is conserved in all reachable states.
  \<open>Rex_Facts\<close>, \<open>Rex_Buckets\<close>, \<open>Rex_Ledger\<close>, \<open>Rex_Steps\<close>, \<open>Rex_Trades\<close>,
  \<open>Rex_Actions\<close>, \<open>Rex_Solvency\<close>: the resource exchange's books balance and
  \<open>eosio.rex\<close> can pay what it owes; an action is a composition of steps between which tokens
  are in hand, and \<open>rex_step\<close> bounds the debt by what is sent to the account.
  \<open>Rex_Price\<close>: no action lowers what a unit of REX is worth.
  \<open>Authority\<close>: the signature each action needs, and resources under management.
  \<open>Custody\<close>, \<open>Stake_Custody\<close>, \<open>Names_Custody\<close>, \<open>Ram_Custody\<close>: the interface \<open>custodian\<close> of an
  account the contract keeps tokens on, for \<open>eosio.stake\<close>, \<open>eosio.names\<close> and \<open>eosio.ram\<close>:
  all cover what they owe, so due refunds and accepted sales of RAM are always paid.
  \<open>Names_Service\<close>, \<open>Names_Custody\<close>: the auctions.
  \<open>Producer_Service\<close>: who is elected, where the inflation goes, when a claim is refused.
  \<open>Block_Pay\<close>: every block is counted once, and the pays for blocks fit the bucket.
  \<open>Claims\<close>, \<open>Proxy_Chains\<close>, \<open>Total_Voting\<close>: chains of proxies never loop, and every action
  ends. \<open>Msig_Service\<close>: when a proposal executes, is cancelled or invalidated.
  \<open>Demo_Chain\<close>, \<open>Demo_Custody\<close>: two concrete histories for the witnesses.

  Parameters. eosiolib and the chain's intrinsics are not part of the repository: checked asset
  arithmetic, \<open>is_account\<close>, the clock, \<open>name::suffix\<close>, \<open>std::pow\<close>, hashing,
  transaction authorization are fields of the contexts; \<open>asset_laws\<close> states the documented
  behaviour of \<open>asset\<close>. \<open>set_resource_limits\<close> rejects limits below - 1, and a transaction
  fails at its end (\<open>sys_transact\<close>) if an account whose RAM limit went down uses more than
  that; how much an account uses, \<open>ram_usage\<close>, is a field of the context.

  Fuel. The only recursion without a structural bound is \<open>propagate_weight_change\<close>, which
  follows a chain of proxies; it gets the number of voters plus one. That is enough:
  \<open>actions_end\<close> shows that no action on a reachable state runs out of fuel, and
  \<open>fuel_irrelevant\<close> that more fuel gives the same result.

  Reachable states (\<open>sys_reachable\<close>) start from an empty contract beside any reachable token
  contract. \<open>eosio.rex\<close> signs no transaction, and \<open>init\<close> gets a core symbol other than the
  two of the RAM market, which the code does not check.

  Not modelled: who pays for the storage of a row, and so the check of an account's RAM when its
  rows grow; the host's limits on deferred transactions and its refusal of a duplicate id, which
  the system contract avoids by cancelling first (\<open>send_deferred\<close>); the host's refusal of a
  NaN as the key of the index on votes (\<open>top_producers\<close> is specified for numbers);
  notifications, the version and reserved fields
  of rows, printing, the bodies of the dummy contract \<open>rex.results\<close>, the tests and the build
  files.
\<close>

end
